(* ===== verification/C_Prelude.thy ===== *)
theory C_Prelude
  imports Main "HOL-Library.Word"
begin

text \<open>
  Shared ground of the development: the machine types of the C sources, the ways in which
  the C abstract machine (or the kernel around it) can go wrong, the result type of fallible
  code, and the generic list and word lemmas the components use.
\<close>

named_theorems res_simps \<open>equations that run the result monad\<close>
named_theorems cstring_simps \<open>equations of the C string routines on known buffers\<close>
named_theorems kmem_simps \<open>equations of the kernel heap\<close>

subsection \<open>Machine integers\<close>

text \<open>
  The code is built for a 64-bit Linux target: \<open>size_t\<close>, \<open>ssize_t\<close>, \<open>loff_t\<close> and \<open>long\<close>
  have 64 bits, \<open>int\<close> and \<open>unsigned int\<close> have 32, \<open>uint8_t\<close> has 8. Signed and unsigned
  types of one width share the word type; \<open>sint\<close> reads a word as signed.
\<close>

type_synonym u8 = "8 word"
type_synonym u32 = "32 word"
type_synonym cint = "32 word"
type_synonym size_t = "64 word"
type_synonym ssize_t = "64 word"
type_synonym loff_t = "64 word"
type_synonym clong = "64 word"

subsection \<open>Faults and results\<close>

text \<open>
  A fault is behaviour the C standard leaves undefined or an action that stops the thread for
  good: an access outside an object, a null dereference, an access to freed memory, a free of
  something that is not the start of a live block, an unlock of a mutex that is not held, a
  lock of a mutex the thread already holds, a read of a variable never written, and a loop that
  never ends.
\<close>

datatype cfault =
    OutOfBounds
  | NullDeref
  | UseAfterFree
  | BadFree
  | BadUnlock
  | SelfDeadlock
  | UninitRead
  | Diverges

type_synonym 'a res = "cfault + 'a"

definition res_bind :: "'a res \<Rightarrow> ('a \<Rightarrow> 'b res) \<Rightarrow> 'b res" where
  "res_bind m f = (case m of Inl e \<Rightarrow> Inl e | Inr x \<Rightarrow> f x)"

lemma res_bind_Inl [simp, res_simps]: "res_bind (Inl e) f = Inl e"
  by (simp add: res_bind_def)

lemma res_bind_Inr [simp, res_simps]: "res_bind (Inr x) f = f x"
  by (simp add: res_bind_def)

lemma res_bind_eq_Inr [simp]:
  "res_bind m f = Inr y \<longleftrightarrow> (\<exists>x. m = Inr x \<and> f x = Inr y)"
  by (cases m) auto

lemma res_bind_eq_Inl:
  "res_bind m f = Inl e \<longleftrightarrow> m = Inl e \<or> (\<exists>x. m = Inr x \<and> f x = Inl e)"
  by (cases m) auto

lemma res_bind_cong [fundef_cong]:
  "r = r' \<Longrightarrow> (\<And>x. r' = Inr x \<Longrightarrow> f x = g x) \<Longrightarrow> res_bind r f = res_bind r' g"
  by (cases r') (auto simp: res_bind_def)

lemma res_bind_assoc: "res_bind (res_bind m f) g = res_bind m (\<lambda>x. res_bind (f x) g)"
  by (cases m) auto

definition returns :: "'a res \<Rightarrow> bool" where
  "returns m = (case m of Inl _ \<Rightarrow> False | Inr _ \<Rightarrow> True)"

lemma returns_simps [simp]: "returns (Inr x)" "\<not> returns (Inl e)"
  by (simp_all add: returns_def)

lemma returns_iff: "returns m \<longleftrightarrow> (\<exists>x. m = Inr x)"
  by (cases m) auto

subsection \<open>Error numbers\<close>

text \<open>
  The error numbers the sources name, with the values of the Linux headers. \<open>ERESTARTSYS\<close> is
  kernel-internal.
\<close>

abbreviation EINTR :: "64 word" where "EINTR \<equiv> 4"
abbreviation EAGAIN :: "64 word" where "EAGAIN \<equiv> 11"
abbreviation ENOMEM :: "64 word" where "ENOMEM \<equiv> 12"
abbreviation EFAULT :: "64 word" where "EFAULT \<equiv> 14"
abbreviation EINVAL :: "64 word" where "EINVAL \<equiv> 22"
abbreviation ENOTTY :: "64 word" where "ENOTTY \<equiv> 25"
abbreviation ERESTARTSYS :: "64 word" where "ERESTARTSYS \<equiv> 512"

subsection \<open>Generic lemmas\<close>

lemma unat_of_nat_64: "n < 2 ^ 64 \<Longrightarrow> unat (of_nat n :: 64 word) = n"
  by (simp add: unat_of_nat take_bit_nat_eq_self)

lemma bit_below:
  fixes w :: "'a :: len word"
  assumes "unat w < 2 ^ k" "bit w n"
  shows "n < k"
proof (rule ccontr)
  assume "\<not> n < k"
  then have "(2 :: nat) ^ k \<le> 2 ^ n" by (intro power_increasing) simp_all
  then have "unat w < 2 ^ n" using assms(1) by (rule order_less_le_trans[rotated])
  then have "unat w div 2 ^ n = 0" by simp
  moreover have "bit (unat w) n" using assms(2) by (simp add: bit_unsigned_iff bit_imp_le_length)
  ultimately show False by (simp add: bit_iff_odd)
qed

lemma sum_list_le_bound:
  "(\<And>x. x \<in> set xs \<Longrightarrow> x \<le> (b::nat)) \<Longrightarrow> sum_list xs \<le> length xs * b"
proof (induction xs)
  case (Cons x xs)
  then have "x \<le> b" and "sum_list xs \<le> length xs * b" by simp_all
  then show ?case by simp
qed simp

lemma sum_list_take_le: "sum_list (take k xs) \<le> sum_list (xs :: nat list)"
proof -
  have "sum_list xs = sum_list (take k xs) + sum_list (drop k xs)"
    by (simp flip: sum_list_append)
  then show ?thesis by simp
qed

lemma takeWhile_neq_id: "c \<notin> set xs \<Longrightarrow> takeWhile (\<lambda>x. x \<noteq> c) xs = xs"
  by (induction xs) auto

lemma length_takeWhile_neq: "c \<in> set xs \<Longrightarrow> length (takeWhile (\<lambda>x. x \<noteq> c) xs) < length xs"
  by (induction xs) auto

end
