(* ===== verification/C_Strings.thy ===== *)
theory C_Strings
  imports C_Prelude
begin

text \<open>
  The routines of \<open>string.h\<close> and \<open>stdlib.h\<close> that the sources call (\<open>strlen\<close>, \<open>strchr\<close>,
  \<open>strcpy\<close>, \<open>strncpy\<close>, \<open>strcat\<close>, \<open>strcmp\<close>, \<open>strncmp\<close>, \<open>strtok\<close>, \<open>atoi\<close>), on byte buffers.
  A buffer is the list of bytes from the pointer to the end of its object; running off the end
  is the fault \<open>OutOfBounds\<close>. The lemmas give each routine's value on a buffer that holds a
  NUL-terminated string.
\<close>

abbreviation NUL :: char where "NUL \<equiv> CHR 0x00"
abbreviation newline :: char where "newline \<equiv> CHR 0x0A"

subsection \<open>Reading\<close>

fun c_string :: "string \<Rightarrow> string res" where
  "c_string [] = Inl OutOfBounds"
| "c_string (x # xs) =
     (if x = NUL then Inr [] else res_bind (c_string xs) (\<lambda>s. Inr (x # s)))"

definition c_strlen :: "string \<Rightarrow> nat res" where
  "c_strlen buf = res_bind (c_string buf) (\<lambda>s. Inr (length s))"

fun c_strchr :: "string \<Rightarrow> char \<Rightarrow> nat option res" where
  "c_strchr [] c = Inl OutOfBounds"
| "c_strchr (x # xs) c =
     (if x = c then Inr (Some 0)
      else if x = NUL then Inr None
      else res_bind (c_strchr xs c) (\<lambda>r. Inr (map_option Suc r)))"

fun c_strncmp :: "nat \<Rightarrow> string \<Rightarrow> string \<Rightarrow> int res" where
  "c_strncmp 0 xs ys = Inr 0"
| "c_strncmp (Suc n) (x # xs) (y # ys) =
     (if x \<noteq> y then Inr (of_char x - of_char y)
      else if x = NUL then Inr 0
      else c_strncmp n xs ys)"
| "c_strncmp (Suc n) _ _ = Inl OutOfBounds"

fun c_strcmp :: "string \<Rightarrow> string \<Rightarrow> int res" where
  "c_strcmp (x # xs) (y # ys) =
     (if x \<noteq> y then Inr (of_char x - of_char y)
      else if x = NUL then Inr 0
      else c_strcmp xs ys)"
| "c_strcmp _ _ = Inl OutOfBounds"

subsection \<open>Writing\<close>

definition mem_write :: "string \<Rightarrow> nat \<Rightarrow> string \<Rightarrow> string res" where
  "mem_write dst off bs =
     (if off + length bs \<le> length dst
      then Inr (take off dst @ bs @ drop (off + length bs) dst)
      else Inl OutOfBounds)"

definition c_memset0 :: "string \<Rightarrow> nat \<Rightarrow> string res" where
  "c_memset0 dst n = mem_write dst 0 (replicate n NUL)"

definition c_strcpy :: "string \<Rightarrow> nat \<Rightarrow> string \<Rightarrow> string res" where
  "c_strcpy dst off src = res_bind (c_string src) (\<lambda>s. mem_write dst off (s @ [NUL]))"

definition c_strcat :: "string \<Rightarrow> string \<Rightarrow> string res" where
  "c_strcat dst src = res_bind (c_strlen dst) (\<lambda>n. c_strcpy dst n src)"

fun strncpy_bytes :: "nat \<Rightarrow> string \<Rightarrow> string res" where
  "strncpy_bytes 0 src = Inr []"
| "strncpy_bytes (Suc n) [] = Inl OutOfBounds"
| "strncpy_bytes (Suc n) (x # xs) =
     (if x = NUL then Inr (replicate (Suc n) NUL)
      else res_bind (strncpy_bytes n xs) (\<lambda>s. Inr (x # s)))"

definition c_strncpy :: "string \<Rightarrow> string \<Rightarrow> nat \<Rightarrow> string res" where
  "c_strncpy dst src n = res_bind (strncpy_bytes n src) (mem_write dst 0)"

subsection \<open>Tokens\<close>

text \<open>
  \<open>strtok\<close> keeps its position between calls; here the position is passed and returned. It skips
  delimiters, returns \<open>None\<close> at the end of the string, and otherwise the offset of the token,
  whose terminating delimiter it overwrites with NUL.
\<close>

fun c_strspn :: "string \<Rightarrow> string \<Rightarrow> nat res" where
  "c_strspn d [] = Inl OutOfBounds"
| "c_strspn d (x # xs) =
     (if x \<noteq> NUL \<and> x \<in> set d then res_bind (c_strspn d xs) (\<lambda>n. Inr (Suc n)) else Inr 0)"

fun c_strcspn :: "string \<Rightarrow> string \<Rightarrow> nat res" where
  "c_strcspn d [] = Inl OutOfBounds"
| "c_strcspn d (x # xs) =
     (if x = NUL \<or> x \<in> set d then Inr 0 else res_bind (c_strcspn d xs) (\<lambda>n. Inr (Suc n)))"

definition c_strtok :: "string \<Rightarrow> string \<Rightarrow> nat \<Rightarrow> (string \<times> nat option \<times> nat) res" where
  "c_strtok d buf pos =
     res_bind (c_strspn d (drop pos buf)) (\<lambda>k.
       let s = pos + k in
       if buf ! s = NUL then Inr (buf, None, s)
       else res_bind (c_strcspn d (drop s buf)) (\<lambda>l.
         let e = s + l in
         if buf ! e = NUL then Inr (buf, Some s, e)
         else Inr (buf[e := NUL], Some s, Suc e)))"

subsection \<open>Numbers\<close>

definition c_isspace :: "char \<Rightarrow> bool" where
  "c_isspace c \<longleftrightarrow> c = CHR '' '' \<or> (9 \<le> (of_char c :: nat) \<and> (of_char c :: nat) \<le> 13)"

definition c_isdigit :: "char \<Rightarrow> bool" where
  "c_isdigit c \<longleftrightarrow> 48 \<le> (of_char c :: nat) \<and> (of_char c :: nat) \<le> 57"

fun atoi_digits :: "int \<Rightarrow> string \<Rightarrow> int res" where
  "atoi_digits acc [] = Inl OutOfBounds"
| "atoi_digits acc (x # xs) =
     (if c_isdigit x then atoi_digits (10 * acc + (of_char x - 48)) xs else Inr acc)"

fun atoi_sign :: "string \<Rightarrow> int res" where
  "atoi_sign [] = Inl OutOfBounds"
| "atoi_sign (x # xs) =
     (if c_isspace x then atoi_sign xs
      else if x = CHR ''-'' then res_bind (atoi_digits 0 xs) (\<lambda>v. Inr (- v))
      else if x = CHR ''+'' then atoi_digits 0 xs
      else atoi_digits 0 (x # xs))"

definition strtol_clamp :: "int \<Rightarrow> int" where
  "strtol_clamp v = max (- (2 ^ 63)) (min (2 ^ 63 - 1) v)"

definition c_atoi :: "string \<Rightarrow> cint res" where
  "c_atoi buf = res_bind (atoi_sign buf) (\<lambda>v. Inr (word_of_int (strtol_clamp v)))"

subsection \<open>Values on buffers that hold a string\<close>

lemma c_string_app [simp, cstring_simps]:
  "NUL \<notin> set s \<Longrightarrow> c_string (s @ NUL # r) = Inr s"
  by (induction s) auto

lemma c_string_NUL [simp]: "c_string (NUL # r) = Inr []"
  by simp

lemma c_string_fault: "NUL \<notin> set buf \<Longrightarrow> c_string buf = Inl OutOfBounds"
  by (induction buf) auto

lemma c_stringD: "c_string buf = Inr s \<Longrightarrow> \<exists>r. buf = s @ NUL # r \<and> NUL \<notin> set s"
proof (induction buf arbitrary: s)
  case (Cons x xs)
  then show ?case by (cases "x = NUL") fastforce+
qed simp

lemma c_string_length: "c_string buf = Inr s \<Longrightarrow> length s < length buf"
  by (auto dest: c_stringD)

lemma c_strlen_app [simp, cstring_simps]:
  "NUL \<notin> set s \<Longrightarrow> c_strlen (s @ NUL # r) = Inr (length s)"
  by (simp add: c_strlen_def)

lemma c_strlen_fault: "NUL \<notin> set buf \<Longrightarrow> c_strlen buf = Inl OutOfBounds"
  by (simp add: c_strlen_def c_string_fault)

lemma c_strchr_app:
  assumes "NUL \<notin> set s" and "c \<noteq> NUL"
  shows "c_strchr (s @ NUL # r) c =
    Inr (if c \<in> set s then Some (length (takeWhile (\<lambda>x. x \<noteq> c) s)) else None)"
  using assms by (induction s) auto

lemma c_strchr_found:
  "NUL \<notin> set p \<Longrightarrow> c \<notin> set p \<Longrightarrow> c_strchr (p @ c # r) c = Inr (Some (length p))"
  by (induction p) auto

lemma strncpy_bytes_within:
  "NUL \<notin> set s \<Longrightarrow> n \<le> length s \<Longrightarrow> strncpy_bytes n (s @ r) = Inr (take n s)"
proof (induction n arbitrary: s)
  case (Suc n)
  then obtain x xs where "s = x # xs" by (cases s) auto
  with Suc show ?case by auto
qed simp

lemma strncpy_bytes_pad:
  "NUL \<notin> set s \<Longrightarrow> length s < n \<Longrightarrow>
   strncpy_bytes n (s @ NUL # r) = Inr (s @ replicate (n - length s) NUL)"
proof (induction n arbitrary: s)
  case (Suc n)
  then show ?case by (cases s) auto
qed simp

lemma length_strncpy_bytes: "strncpy_bytes n src = Inr s \<Longrightarrow> length s = n"
  by (induction n src arbitrary: s rule: strncpy_bytes.induct) (auto split: if_splits)

lemma mem_write_length: "mem_write dst off bs = Inr dst' \<Longrightarrow> length dst' = length dst"
  by (auto simp: mem_write_def split: if_splits)

lemma mem_write_0:
  "length bs \<le> length dst \<Longrightarrow> mem_write dst 0 bs = Inr (bs @ drop (length bs) dst)"
  by (simp add: mem_write_def)

lemma c_memset0_all: "c_memset0 dst (length dst) = Inr (replicate (length dst) NUL)"
  by (simp add: c_memset0_def mem_write_def)

lemma c_strcat_app:
  assumes "NUL \<notin> set s" "NUL \<notin> set t" "length t \<le> length r"
  shows "c_strcat (s @ NUL # r) (t @ NUL # q) = Inr (s @ t @ NUL # drop (length t) r)"
  using assms by (simp add: c_strcat_def c_strcpy_def mem_write_def)

subsection \<open>Tokens on buffers that hold a string\<close>

definition c_token :: "string \<Rightarrow> string \<Rightarrow> bool" where
  "c_token d s \<longleftrightarrow> s \<noteq> [] \<and> NUL \<notin> set s \<and> set s \<inter> set d = {}"

lemma token_hd: "c_token d s \<Longrightarrow> s ! 0 \<noteq> NUL \<and> 0 < length s"
  by (cases s) (auto simp: c_token_def)

lemma strspn_token: "c_token d s \<Longrightarrow> c_strspn d (s @ r) = Inr 0"
  by (cases s) (auto simp: c_token_def)

lemma strcspn_stop: "NUL \<notin> set s \<Longrightarrow> set s \<inter> set d = {} \<Longrightarrow> x = NUL \<or> x \<in> set d \<Longrightarrow> c_strcspn d (s @ x # r) = Inr (length s)"
  by (induction s) auto

lemma strtok_delim:
  assumes "c_token d s" "x \<in> set d" "x \<noteq> NUL"
  shows "c_strtok d (p @ s @ x # r) (length p) =
    Inr (p @ s @ NUL # r, Some (length p), length p + length s + 1)"
proof -
  have "s ! 0 \<noteq> NUL" "0 < length s" using token_hd[OF assms(1)] by auto
  then show ?thesis
    using assms strspn_token[OF assms(1), of "x # r"] strcspn_stop[of s d x r]
    by (simp add: c_strtok_def c_token_def nth_append list_update_append Let_def)
qed

lemma strtok_last:
  assumes "c_token d s"
  shows "c_strtok d (p @ s @ NUL # r) (length p) =
    Inr (p @ s @ NUL # r, Some (length p), length p + length s)"
proof -
  have "s ! 0 \<noteq> NUL" "0 < length s" using token_hd[OF assms(1)] by auto
  then show ?thesis
    using assms strspn_token[OF assms(1), of "NUL # r"] strcspn_stop[of s d NUL r]
    by (simp add: c_strtok_def c_token_def nth_append Let_def)
qed

lemma strtok_end: "c_strtok d (p @ NUL # r) (length p) = Inr (p @ NUL # r, None, length p)"
  by (simp add: c_strtok_def nth_append Let_def)

lemma strspn_skip:
  "set ds \<subseteq> set d \<Longrightarrow> NUL \<notin> set ds \<Longrightarrow>
   c_strspn d (ds @ r) = res_bind (c_strspn d r) (\<lambda>n. Inr (length ds + n))"
proof (induction ds)
  case Nil
  then show ?case by (cases "c_strspn d r") auto
next
  case (Cons x ds)
  then show ?case by (cases "c_strspn d r") auto
qed

lemma strtok_skip:
  assumes "set ds \<subseteq> set d" "NUL \<notin> set ds"
  shows "c_strtok d (p @ ds @ r) (length p) = c_strtok d (p @ ds @ r) (length (p @ ds))"
  by (cases "c_strspn d r") (simp_all add: c_strtok_def strspn_skip[OF assms] add.assoc)

end
