(* ===== verification/Ioctl_Encoding.thy ===== *)
theory Ioctl_Encoding
  imports C_Prelude
begin

unbundle bit_operations_syntax

text \<open>
  The ioctl number encoding of \<open>asm-generic/ioctl.h\<close> (direction, size, type, number packed
  into 32 bits) and the one command of \<open>aesd_ioctl.h\<close>.
\<close>

subsection \<open>Fields\<close>

definition IOC_NRBITS :: nat where "IOC_NRBITS = 8"
definition IOC_TYPEBITS :: nat where "IOC_TYPEBITS = 8"
definition IOC_SIZEBITS :: nat where "IOC_SIZEBITS = 14"
definition IOC_DIRBITS :: nat where "IOC_DIRBITS = 2"

definition IOC_NRMASK :: u32 where "IOC_NRMASK = push_bit IOC_NRBITS 1 - 1"
definition IOC_TYPEMASK :: u32 where "IOC_TYPEMASK = push_bit IOC_TYPEBITS 1 - 1"
definition IOC_SIZEMASK :: u32 where "IOC_SIZEMASK = push_bit IOC_SIZEBITS 1 - 1"
definition IOC_DIRMASK :: u32 where "IOC_DIRMASK = push_bit IOC_DIRBITS 1 - 1"

definition IOC_NRSHIFT :: nat where "IOC_NRSHIFT = 0"
definition IOC_TYPESHIFT :: nat where "IOC_TYPESHIFT = IOC_NRSHIFT + IOC_NRBITS"
definition IOC_SIZESHIFT :: nat where "IOC_SIZESHIFT = IOC_TYPESHIFT + IOC_TYPEBITS"
definition IOC_DIRSHIFT :: nat where "IOC_DIRSHIFT = IOC_SIZESHIFT + IOC_SIZEBITS"

definition IOC_NONE :: u32 where "IOC_NONE = 0"
definition IOC_WRITE :: u32 where "IOC_WRITE = 1"
definition IOC_READ :: u32 where "IOC_READ = 2"

lemmas ioc_field_defs =
  IOC_NRBITS_def IOC_TYPEBITS_def IOC_SIZEBITS_def IOC_DIRBITS_def
  IOC_NRMASK_def IOC_TYPEMASK_def IOC_SIZEMASK_def IOC_DIRMASK_def
  IOC_NRSHIFT_def IOC_TYPESHIFT_def IOC_SIZESHIFT_def IOC_DIRSHIFT_def

lemmas ioc_dir_defs = IOC_NONE_def IOC_WRITE_def IOC_READ_def

subsection \<open>Encoding and decoding\<close>

definition IOC :: "u32 \<Rightarrow> u32 \<Rightarrow> u32 \<Rightarrow> u32 \<Rightarrow> u32" where
  "IOC dir type nr sz =
     push_bit IOC_DIRSHIFT dir OR push_bit IOC_TYPESHIFT type OR
     push_bit IOC_NRSHIFT nr OR push_bit IOC_SIZESHIFT sz"

definition IO :: "u32 \<Rightarrow> u32 \<Rightarrow> u32" where
  "IO type nr = IOC IOC_NONE type nr 0"

definition IOR :: "u32 \<Rightarrow> u32 \<Rightarrow> u32 \<Rightarrow> u32" where
  "IOR type nr sz = IOC IOC_READ type nr sz"

definition IOW :: "u32 \<Rightarrow> u32 \<Rightarrow> u32 \<Rightarrow> u32" where
  "IOW type nr sz = IOC IOC_WRITE type nr sz"

definition IOWR :: "u32 \<Rightarrow> u32 \<Rightarrow> u32 \<Rightarrow> u32" where
  "IOWR type nr sz = IOC (IOC_READ OR IOC_WRITE) type nr sz"

definition IOC_DIR :: "u32 \<Rightarrow> u32" where
  "IOC_DIR nr = drop_bit IOC_DIRSHIFT nr AND IOC_DIRMASK"

definition IOC_TYPE :: "u32 \<Rightarrow> u32" where
  "IOC_TYPE nr = drop_bit IOC_TYPESHIFT nr AND IOC_TYPEMASK"

definition IOC_NR :: "u32 \<Rightarrow> u32" where
  "IOC_NR nr = drop_bit IOC_NRSHIFT nr AND IOC_NRMASK"

definition IOC_SIZE :: "u32 \<Rightarrow> u32" where
  "IOC_SIZE nr = drop_bit IOC_SIZESHIFT nr AND IOC_SIZEMASK"

lemmas ioc_decode_defs = IOC_DIR_def IOC_TYPE_def IOC_NR_def IOC_SIZE_def

subsection \<open>aesd\_ioctl.h\<close>

record aesd_seekto =
  write_cmd :: u32
  write_cmd_offset :: u32

definition AESD_IOC_MAGIC :: u32 where "AESD_IOC_MAGIC = 0x16"

definition sizeof_aesd_seekto :: u32 where "sizeof_aesd_seekto = 8"

definition AESDCHAR_IOCSEEKTO :: u32 where
  "AESDCHAR_IOCSEEKTO = IOWR AESD_IOC_MAGIC 1 sizeof_aesd_seekto"

definition AESDCHAR_IOC_MAXNR :: u32 where "AESDCHAR_IOC_MAXNR = 1"

lemma AESDCHAR_IOCSEEKTO_value: "AESDCHAR_IOCSEEKTO = 0xC0081601"
  by (simp add: AESDCHAR_IOCSEEKTO_def IOWR_def IOC_def ioc_field_defs ioc_dir_defs
      AESD_IOC_MAGIC_def sizeof_aesd_seekto_def)

subsection \<open>Round trip\<close>

lemma IOC_masks:
  "IOC_NRMASK = mask 8" "IOC_TYPEMASK = mask 8" "IOC_SIZEMASK = mask 14" "IOC_DIRMASK = mask 2"
  by (simp_all add: ioc_field_defs mask_eq_exp_minus_1)

lemma IOC_shifts: "IOC_NRSHIFT = 0" "IOC_TYPESHIFT = 8" "IOC_SIZESHIFT = 16" "IOC_DIRSHIFT = 30"
  by (simp_all add: ioc_field_defs)

text \<open>
  The decoding macros of \<open>asm-generic/ioctl.h\<close> recover the four fields of an encoded command
  whose fields fit their widths.
\<close>

theorem ioc_roundtrip:
  assumes "dir < 4" "type < 256" "nr < 256" "sz < 16384"
  shows "IOC_DIR (IOC dir type nr sz) = dir \<and> IOC_TYPE (IOC dir type nr sz) = type \<and>
    IOC_NR (IOC dir type nr sz) = nr \<and> IOC_SIZE (IOC dir type nr sz) = sz"
proof -
  have b: "bit dir i \<Longrightarrow> i < 2" "bit type i \<Longrightarrow> i < 8" "bit nr i \<Longrightarrow> i < 8" "bit sz i \<Longrightarrow> i < 14" for i
    using bit_below[of dir 2 i] bit_below[of type 8 i] bit_below[of nr 8 i] bit_below[of sz 14 i] assms
    by (simp_all add: word_less_nat_alt)
  show ?thesis
    by (intro conjI; rule bit_word_eqI)
      (auto simp: ioc_decode_defs IOC_def IOC_masks IOC_shifts bit_simps dest: b)
qed

theorem ioc_roundtrip_witness:
  "IOC_DIR AESDCHAR_IOCSEEKTO = 3 \<and> IOC_TYPE AESDCHAR_IOCSEEKTO = AESD_IOC_MAGIC \<and>
   IOC_NR AESDCHAR_IOCSEEKTO = AESDCHAR_IOC_MAXNR \<and> IOC_SIZE AESDCHAR_IOCSEEKTO = sizeof_aesd_seekto"
  using ioc_roundtrip[of 3 "0x16" 1 8]
  by (simp add: AESDCHAR_IOCSEEKTO_def IOWR_def ioc_dir_defs AESD_IOC_MAGIC_def
      sizeof_aesd_seekto_def AESDCHAR_IOC_MAXNR_def)

end
