(* ===== verification/Socket_Server.thy ===== *)
theory Socket_Server
  imports C_Strings Ioctl_Encoding
begin

text \<open>
  The connection threads of \<open>server/aesdsocket.c\<close>: receiving a packet into the data file, sending
  the file back, the seek command, the thread body and the timestamp logger. System calls act on a
  world \<open>'w\<close> and are the fields of a record; a call either fails with an error number or completes
  with its return value and the bytes it put into the caller's buffer. The mutex \<open>write_lock\<close> is a
  flag: whether this thread holds it.
\<close>

subsection \<open>System calls\<close>

datatype io = Fail nat | Done nat string

record 'w os =
  os_open :: "string \<Rightarrow> 'w \<Rightarrow> int \<times> 'w"
  os_close :: "int \<Rightarrow> 'w \<Rightarrow> 'w"
  os_read :: "int \<Rightarrow> nat \<Rightarrow> 'w \<Rightarrow> io \<times> 'w"
  os_recv :: "int \<Rightarrow> nat \<Rightarrow> 'w \<Rightarrow> io \<times> 'w"
  os_write :: "int \<Rightarrow> string \<Rightarrow> 'w \<Rightarrow> io \<times> 'w"
  os_ioctl :: "int \<Rightarrow> u32 \<Rightarrow> aesd_seekto \<Rightarrow> 'w \<Rightarrow> int \<times> 'w"
  os_malloc :: "nat \<Rightarrow> 'w \<Rightarrow> string option \<times> 'w"
  os_strftime :: "nat \<Rightarrow> 'w \<Rightarrow> string \<times> 'w"

abbreviation E_INTR :: nat where "E_INTR \<equiv> 4"

definition READ_WRITE_SIZE :: nat where "READ_WRITE_SIZE = 1024"
definition WRITE_FILE :: string where "WRITE_FILE = ''/dev/aesdchar''"
definition special_string :: string where "special_string = ''AESDCHAR_IOCSEEKTO:''"

subsection \<open>read-file-and-send\<close>

text \<open>
  The inner loop: \<open>write\<close> to the socket until it is not interrupted. The flag tells whether it
  succeeded; a short write counts as success.
\<close>

partial_function (option) send_loop :: "'w os \<Rightarrow> int \<Rightarrow> string \<Rightarrow> 'w \<Rightarrow> (bool \<times> 'w) option" where
  "send_loop os socket_fd bytes w =
     (case os_write os socket_fd bytes w of
        (Fail e, w) \<Rightarrow> if e = E_INTR then send_loop os socket_fd bytes w else Some (False, w)
      | (Done n _, w) \<Rightarrow> Some (True, w))"

text \<open>
  The outer loop. A \<open>read\<close> that delivers more bytes than the buffer holds overruns it; sending more
  bytes than the buffer holds reads past it. \<open>None\<close> is a loop that never ends.
\<close>

partial_function (option) send_file_loop ::
    "'w os \<Rightarrow> int \<Rightarrow> int \<Rightarrow> string \<Rightarrow> 'w \<Rightarrow> 'w res option" where
  "send_file_loop os socket_fd reader_fd write_buffer w =
     (case os_read os reader_fd READ_WRITE_SIZE w of
        (Fail e, w) \<Rightarrow>
          if e = E_INTR then send_file_loop os socket_fd reader_fd write_buffer w else Some (Inr w)
      | (Done bytes_read bs, w) \<Rightarrow>
          (case mem_write write_buffer 0 bs of
             Inl e \<Rightarrow> Some (Inl e)
           | Inr write_buffer \<Rightarrow>
               if bytes_read = 0 then Some (Inr w)
               else if length write_buffer < bytes_read then Some (Inl OutOfBounds)
               else
                 (case send_loop os socket_fd (take bytes_read write_buffer) w of
                    None \<Rightarrow> None
                  | Some (ok, w) \<Rightarrow>
                      if ok then send_file_loop os socket_fd reader_fd write_buffer w else Some (Inr w))))"

definition read_file_and_send :: "'w os \<Rightarrow> int \<Rightarrow> int \<Rightarrow> 'w \<Rightarrow> 'w res option" where
  "read_file_and_send os socket_fd reader_fd w =
     send_file_loop os socket_fd reader_fd (replicate READ_WRITE_SIZE NUL) w"

subsection \<open>receive-and-write-to-file\<close>

definition pthread_lock :: "bool \<Rightarrow> bool res" where
  "pthread_lock held = (if held then Inl SelfDeadlock else Inr True)"

definition pthread_unlock :: "bool \<Rightarrow> bool res" where
  "pthread_unlock held = (if held then Inr False else Inl BadUnlock)"

text \<open>
  Parsing a seek command: two blocks are allocated, five bytes are copied into the first, which is
  then printed, split at the comma and converted. A null token makes \<open>atoi\<close> read through null.
\<close>

definition parse_seek :: "'w os \<Rightarrow> string \<Rightarrow> 'w \<Rightarrow> (aesd_seekto \<times> 'w) res" where
  "parse_seek os read_buffer w =
     res_bind (c_strlen read_buffer) (\<lambda>n.
     case os_malloc os (n - length special_string) w of (temp_string, w) \<Rightarrow>
     case os_malloc os (n - length special_string) w of (split_string, w) \<Rightarrow>
     (case temp_string of
        None \<Rightarrow> Inl NullDeref
      | Some temp \<Rightarrow>
          res_bind (c_strncpy temp (drop 19 read_buffer) 5) (\<lambda>temp.
          res_bind (c_string temp) (\<lambda>_.
          res_bind (c_strtok '','' temp 0) (\<lambda>(temp, tok, save).
          (case tok of
             None \<Rightarrow> Inl NullDeref
           | Some t \<Rightarrow>
               res_bind (c_atoi (drop t temp)) (\<lambda>cmd_no.
               res_bind (c_strtok '','' temp save) (\<lambda>(temp, tok, save).
               (case tok of
                  None \<Rightarrow> Inl NullDeref
                | Some t \<Rightarrow>
                    res_bind (c_atoi (drop t temp)) (\<lambda>cmd_offset.
                    Inr (\<lparr>write_cmd = cmd_no, write_cmd_offset = cmd_offset\<rparr>, w)))))))))))"

text \<open>
  The inner loop, with the buffer filled: lock, then either run the seek command or append the
  bytes to the file. The outcome says what the code does next: go on receiving with the mutex in
  some state, or return 1.
\<close>

datatype 'w packet_outcome = Stored bool 'w | Seeked bool 'w

partial_function (option) store_loop ::
    "'w os \<Rightarrow> int \<Rightarrow> int \<Rightarrow> string \<Rightarrow> nat \<Rightarrow> bool \<Rightarrow> 'w \<Rightarrow> 'w packet_outcome res option" where
  "store_loop os socket_fd writer_fd read_buffer bytes_read held w =
     (case pthread_lock held of
        Inl e \<Rightarrow> Some (Inl e)
      | Inr held \<Rightarrow>
     (case c_string read_buffer of
        Inl e \<Rightarrow> Some (Inl e)
      | Inr _ \<Rightarrow>
     (case c_strncmp (length special_string) read_buffer (special_string @ [NUL]) of
        Inl e \<Rightarrow> Some (Inl e)
      | Inr r \<Rightarrow>
     if r = 0 then
       (case parse_seek os read_buffer w of
          Inl e \<Rightarrow> Some (Inl e)
        | Inr (seekto, w) \<Rightarrow>
            (case os_ioctl os writer_fd AESDCHAR_IOCSEEKTO seekto w of (_, w) \<Rightarrow>
            (case pthread_unlock held of
               Inl e \<Rightarrow> Some (Inl e)
             | Inr held \<Rightarrow>
                 (case read_file_and_send os socket_fd writer_fd w of
                    None \<Rightarrow> None
                  | Some (Inl e) \<Rightarrow> Some (Inl e)
                  | Some (Inr w) \<Rightarrow> Some (Inr (Seeked held w))))))
     else if length read_buffer < bytes_read then Some (Inl OutOfBounds)
     else
       (case os_write os writer_fd (take bytes_read read_buffer) w of
          (Fail e, w) \<Rightarrow>
            if e = E_INTR
            then store_loop os socket_fd writer_fd read_buffer bytes_read held w
            else Some (Inr (Stored held w))
        | (Done n _, w) \<Rightarrow>
            (case pthread_unlock held of
               Inl e \<Rightarrow> Some (Inl e)
             | Inr held \<Rightarrow> Some (Inr (Stored held w)))))))"

text \<open>The outer loop, and the function: its result, the mutex and the world.\<close>

partial_function (option) receive_loop ::
    "'w os \<Rightarrow> int \<Rightarrow> int \<Rightarrow> string \<Rightarrow> bool \<Rightarrow> 'w \<Rightarrow> (int \<times> bool \<times> 'w) res option" where
  "receive_loop os socket_fd writer_fd read_buffer held w =
     (case os_recv os socket_fd READ_WRITE_SIZE w of
        (Fail e, w) \<Rightarrow>
          if e = E_INTR then receive_loop os socket_fd writer_fd read_buffer held w
          else Some (Inr (0, held, w))
      | (Done bytes_read bs, w) \<Rightarrow>
          if bytes_read = 0 then receive_loop os socket_fd writer_fd read_buffer held w
          else
            (case mem_write read_buffer 0 bs of
               Inl e \<Rightarrow> Some (Inl e)
             | Inr read_buffer \<Rightarrow>
                 (case c_strchr read_buffer newline of
                    Inl e \<Rightarrow> Some (Inl e)
                  | Inr found \<Rightarrow>
                      (case store_loop os socket_fd writer_fd read_buffer bytes_read held w of
                         None \<Rightarrow> None
                       | Some (Inl e) \<Rightarrow> Some (Inl e)
                       | Some (Inr (Seeked held w)) \<Rightarrow> Some (Inr (1, held, w))
                       | Some (Inr (Stored held w)) \<Rightarrow>
                           if found = None
                           then receive_loop os socket_fd writer_fd read_buffer held w
                           else Some (Inr (0, held, w))))))"

definition receive_and_write_to_file ::
    "'w os \<Rightarrow> int \<Rightarrow> int \<Rightarrow> bool \<Rightarrow> 'w \<Rightarrow> (int \<times> bool \<times> 'w) res option" where
  "receive_and_write_to_file os socket_fd writer_fd held w =
     receive_loop os socket_fd writer_fd (replicate READ_WRITE_SIZE NUL) held w"

subsection \<open>The thread body, the timestamp logger and the signal handler\<close>

record arg_struct =
  connected_skt_fd :: int
  thread_complete :: int

definition data_processor ::
    "'w os \<Rightarrow> arg_struct \<Rightarrow> bool \<Rightarrow> 'w \<Rightarrow> (arg_struct \<times> bool \<times> 'w) res option" where
  "data_processor os in_args held w =
     (case os_open os WRITE_FILE w of (writer_fd, w) \<Rightarrow>
     (case receive_and_write_to_file os (connected_skt_fd in_args) writer_fd held w of
        None \<Rightarrow> None
      | Some (Inl e) \<Rightarrow> Some (Inl e)
      | Some (Inr (r, held, w)) \<Rightarrow>
          if r = 0 then
            (case os_open os WRITE_FILE (os_close os writer_fd w) of (writer_fd, w) \<Rightarrow>
            (case read_file_and_send os (connected_skt_fd in_args) writer_fd w of
               None \<Rightarrow> None
             | Some (Inl e) \<Rightarrow> Some (Inl e)
             | Some (Inr w) \<Rightarrow>
                 Some (Inr (in_args\<lparr>thread_complete := 1\<rparr>, held, os_close os writer_fd w))))
          else Some (Inr (in_args, held, os_close os writer_fd w))))"

text \<open>
  The timer callback. \<open>strftime\<close> leaves its text in a 256-byte buffer; the loop locks before
  every attempt, and unlocks only after a successful one.
\<close>

partial_function (option) logger_loop ::
    "'w os \<Rightarrow> int \<Rightarrow> string \<Rightarrow> bool \<Rightarrow> 'w \<Rightarrow> (bool \<times> 'w) res option" where
  "logger_loop os writer_fd write_string held w =
     (case pthread_lock held of
        Inl e \<Rightarrow> Some (Inl e)
      | Inr held \<Rightarrow>
          (case os_write os writer_fd write_string w of
             (Fail e, w) \<Rightarrow> logger_loop os writer_fd write_string held w
           | (Done n _, w) \<Rightarrow>
               (case pthread_unlock held of
                  Inl e \<Rightarrow> Some (Inl e)
                | Inr held \<Rightarrow> Some (Inr (held, w)))))"

definition timestamp_logger :: "'w os \<Rightarrow> bool \<Rightarrow> 'w \<Rightarrow> (bool \<times> 'w) res option" where
  "timestamp_logger os held w =
     (case os_open os WRITE_FILE w of (writer_fd, w) \<Rightarrow>
     (case os_strftime os 256 w of (write_string, w) \<Rightarrow>
     (case c_string write_string of
        Inl e \<Rightarrow> Some (Inl e)
      | Inr s \<Rightarrow>
          (case logger_loop os writer_fd s held w of
             None \<Rightarrow> None
           | Some (Inl e) \<Rightarrow> Some (Inl e)
           | Some (Inr (held, w)) \<Rightarrow> Some (Inr (held, os_close os writer_fd w))))))"

abbreviation SIGINT :: int where "SIGINT \<equiv> 2"
abbreviation SIGTERM :: int where "SIGTERM \<equiv> 15"

definition socket_signal_handler :: "int \<Rightarrow> bool \<Rightarrow> bool" where
  "socket_signal_handler signal_number caught_signal =
     (if signal_number = SIGTERM \<or> signal_number = SIGINT then True else caught_signal)"

end
