(* ===== verification/Server_Steps.thy ===== *)
theory Server_Steps
  imports Socket_Server
begin

text \<open>
  The connection thread one system call at a time, for runs in which several threads take turns. The
  point a thread has reached in \<open>data_processor\<close> and the functions it calls is a value of \<open>tpc\<close>,
  with the local variables that are still used. The mutex \<open>write_lock\<close> is shared: it holds the
  number of its owner, and a thread that asks for a taken mutex waits. A thread that runs alone
  does what \<open>data_processor\<close> does.
\<close>

subsection \<open>Steps\<close>

text \<open>
  The program points: opening the file, receiving, locking, storing with the mutex, unlocking,
  unlocking after a seek command, reopening, reading, sending, closing, and the end. The flag of the
  points up to unlocking is \<open>end_of_packet\<close>; that of the later ones is the value that
  \<open>thread_complete\<close> gets, which a thread that served a seek command does not set.
\<close>

datatype tpc =
  TOpen
| TRecv int string
| TLock int string nat bool
| TStore int string nat bool
| TUnlock int string bool
| TUnlockSeek int
| TReopen int
| TRead int string bool
| TSend int string string bool
| TClose int bool
| TDone bool

definition lock_mutex :: "nat \<Rightarrow> nat option \<Rightarrow> nat option res option" where
  "lock_mutex me lock =
     (case lock of None \<Rightarrow> Some (Inr (Some me)) | Some j \<Rightarrow> if j = me then Some (Inl SelfDeadlock) else None)"

definition unlock_mutex :: "nat \<Rightarrow> nat option \<Rightarrow> nat option res" where
  "unlock_mutex me lock = (if lock = Some me then Inr None else Inl BadUnlock)"

definition received :: "bool \<Rightarrow> int \<Rightarrow> string \<Rightarrow> tpc" where
  "received end_of_packet fd buf = (if end_of_packet then TReopen fd else TRecv fd buf)"

text \<open>One step: \<open>None\<close> when the thread waits or has ended.\<close>

fun tstep :: "'w os \<Rightarrow> int \<Rightarrow> nat \<Rightarrow> nat option \<times> tpc \<times> 'w \<Rightarrow> (nat option \<times> tpc \<times> 'w) res option" where
  "tstep os skt me (lock, TOpen, w) =
     (case os_open os WRITE_FILE w of (fd, w) \<Rightarrow> Some (Inr (lock, TRecv fd (replicate READ_WRITE_SIZE NUL), w)))"
| "tstep os skt me (lock, TRecv fd buf, w) =
     (case os_recv os skt READ_WRITE_SIZE w of
        (Fail e, w) \<Rightarrow> Some (Inr (lock, if e = E_INTR then TRecv fd buf else TReopen fd, w))
      | (Done n bs, w) \<Rightarrow>
          if n = 0 then Some (Inr (lock, TRecv fd buf, w))
          else Some
            (res_bind (mem_write buf 0 bs) (\<lambda>buf.
             res_bind (c_strchr buf newline) (\<lambda>found. Inr (lock, TLock fd buf n (found \<noteq> None), w)))))"
| "tstep os skt me (lock, TLock fd buf n eop, w) =
     (case lock_mutex me lock of
        None \<Rightarrow> None
      | Some r \<Rightarrow> Some (res_bind r (\<lambda>lock. Inr (lock, TStore fd buf n eop, w))))"
| "tstep os skt me (lock, TStore fd buf n eop, w) = Some
     (res_bind (c_string buf) (\<lambda>_.
      res_bind (c_strncmp (length special_string) buf (special_string @ [NUL])) (\<lambda>r.
      if r = 0 then
        res_bind (parse_seek os buf w) (\<lambda>(seekto, w).
        case os_ioctl os fd AESDCHAR_IOCSEEKTO seekto w of (_, w) \<Rightarrow> Inr (lock, TUnlockSeek fd, w))
      else if length buf < n then Inl OutOfBounds
      else
        (case os_write os fd (take n buf) w of
           (Fail e, w) \<Rightarrow> Inr (lock, if e = E_INTR then TLock fd buf n eop else received eop fd buf, w)
         | (Done _ _, w) \<Rightarrow> Inr (lock, TUnlock fd buf eop, w)))))"
| "tstep os skt me (lock, TUnlock fd buf eop, w) =
     Some (res_bind (unlock_mutex me lock) (\<lambda>lock. Inr (lock, received eop fd buf, w)))"
| "tstep os skt me (lock, TUnlockSeek fd, w) =
     Some (res_bind (unlock_mutex me lock) (\<lambda>lock. Inr (lock, TRead fd (replicate READ_WRITE_SIZE NUL) False, w)))"
| "tstep os skt me (lock, TReopen fd, w) =
     (case os_open os WRITE_FILE (os_close os fd w) of (fd, w) \<Rightarrow>
      Some (Inr (lock, TRead fd (replicate READ_WRITE_SIZE NUL) True, w)))"
| "tstep os skt me (lock, TRead fd buf complete, w) =
     (case os_read os fd READ_WRITE_SIZE w of
        (Fail e, w) \<Rightarrow> Some (Inr (lock, if e = E_INTR then TRead fd buf complete else TClose fd complete, w))
      | (Done n bs, w) \<Rightarrow> Some
          (res_bind (mem_write buf 0 bs) (\<lambda>buf.
           if n = 0 then Inr (lock, TClose fd complete, w)
           else if length buf < n then Inl OutOfBounds
           else Inr (lock, TSend fd buf (take n buf) complete, w))))"
| "tstep os skt me (lock, TSend fd buf bs complete, w) =
     (case os_write os skt bs w of
        (Fail e, w) \<Rightarrow> Some (Inr (lock, if e = E_INTR then TSend fd buf bs complete else TClose fd complete, w))
      | (Done _ _, w) \<Rightarrow> Some (Inr (lock, TRead fd buf complete, w)))"
| "tstep os skt me (lock, TClose fd complete, w) = Some (Inr (lock, TDone complete, os_close os fd w))"
| "tstep os skt me (lock, TDone complete, w) = None"

text \<open>A thread that runs alone, from one configuration to another or into a fault.\<close>

inductive alone :: "'w os \<Rightarrow> int \<Rightarrow> nat \<Rightarrow> nat option \<times> tpc \<times> 'w \<Rightarrow> nat option \<times> tpc \<times> 'w \<Rightarrow> bool"
  for os skt me where
  stop: "alone os skt me c c"
| go: "tstep os skt me c = Some (Inr c') \<Longrightarrow> alone os skt me c' c'' \<Longrightarrow> alone os skt me c c''"

definition faults :: "'w os \<Rightarrow> int \<Rightarrow> nat \<Rightarrow> nat option \<times> tpc \<times> 'w \<Rightarrow> cfault \<Rightarrow> bool" where
  "faults os skt me c e \<longleftrightarrow> (\<exists>c'. alone os skt me c c' \<and> tstep os skt me c' = Some (Inl e))"

text \<open>The mutex as the sequential functions see it.\<close>

definition owner :: "nat \<Rightarrow> bool \<Rightarrow> nat option" where
  "owner me held = (if held then Some me else None)"

subsection \<open>Running alone\<close>

lemma alone_trans: "alone os skt me a b \<Longrightarrow> alone os skt me b c \<Longrightarrow> alone os skt me a c"
  by (induction rule: alone.induct) (auto intro: alone.go)

lemma alone_step: "tstep os skt me a = Some (Inr b) \<Longrightarrow> alone os skt me a b"
  by (auto intro: alone.intros)

lemma alone_faults: "alone os skt me a b \<Longrightarrow> faults os skt me b e \<Longrightarrow> faults os skt me a e"
  by (auto simp: faults_def intro: alone_trans)

lemma fault_now: "tstep os skt me a = Some (Inl e) \<Longrightarrow> faults os skt me a e"
  unfolding faults_def by (blast intro: alone.stop)

text \<open>What a sequential result says of the steps, for a continuation of each kind of result.\<close>

definition outcome :: "'w os \<Rightarrow> int \<Rightarrow> nat \<Rightarrow> nat option \<times> tpc \<times> 'w \<Rightarrow> ('r \<Rightarrow> nat option \<times> tpc \<times> 'w) \<Rightarrow> 'r res \<Rightarrow> bool" where
  "outcome os skt me c k r \<longleftrightarrow> (case r of Inl e \<Rightarrow> faults os skt me c e | Inr x \<Rightarrow> alone os skt me c (k x))"

lemma outcome_step:
  "tstep os skt me a = Some (Inr b) \<Longrightarrow> outcome os skt me b k r \<Longrightarrow> outcome os skt me a k r"
  by (auto simp: outcome_def split: sum.splits intro: alone.go alone_faults alone_step)

lemma outcome_fault: "tstep os skt me a = Some (Inl e) \<Longrightarrow> outcome os skt me a k (Inl e)"
  by (simp add: outcome_def fault_now)

lemma outcome_alone: "alone os skt me a b \<Longrightarrow> outcome os skt me b k r \<Longrightarrow> outcome os skt me a k r"
  by (auto simp: outcome_def split: sum.splits intro: alone_trans alone_faults)

lemma outcome_stop: "k x = c \<Longrightarrow> outcome os skt me c k (Inr x)"
  by (auto simp: outcome_def intro: alone.stop)

lemma outcome_bind:
  "outcome os skt me a k q \<Longrightarrow> (\<And>x. q = Inr x \<Longrightarrow> outcome os skt me (k x) k' (g x)) \<Longrightarrow> outcome os skt me a k' (res_bind q g)"
  by (cases q) (auto simp: outcome_def split: sum.splits intro: alone_trans alone_faults)

lemma send_loop_steps:
  assumes "send_loop os skt bs w = Some r"
  shows "alone os skt me (lock, TSend fd buf bs c, w) (lock, if fst r then TRead fd buf c else TClose fd c, snd r)"
  using assms
proof (induction os skt bs w r rule: send_loop.raw_induct[rotated, consumes 1, case_names step])
  case (step f os skt bs w r)
  obtain io w1 where w1: "os_write os skt bs w = (io, w1)" by (rule prod.exhaust)
  show ?case
  proof (cases "io = Fail E_INTR")
    case True
    then have "f os skt bs w1 = Some r" using step(2) w1 by simp
    from alone.go[OF _ step(1)[OF this]] show ?thesis using True w1 by simp
  next
    case False
    then show ?thesis using step(2) w1 by (intro alone_step) (auto split: io.splits if_splits)
  qed
qed

lemma send_file_loop_steps:
  assumes "send_file_loop os skt fd buf w = Some r"
  shows "outcome os skt me (lock, TRead fd buf c, w) (\<lambda>w'. (lock, TClose fd c, w')) r"
  using assms
proof (induction os skt fd buf w r rule: send_file_loop.raw_induct[rotated, consumes 1, case_names step])
  case (step f os skt fd buf w r)
  obtain io w1 where w1: "os_read os fd READ_WRITE_SIZE w = (io, w1)" by (rule prod.exhaust)
  show ?case
  proof (cases io)
    case (Fail e)
    then have "outcome os skt me (lock, if e = E_INTR then TRead fd buf c else TClose fd c, w1) (\<lambda>w'. (lock, TClose fd c, w')) r"
      using step(2) step(1)[of os skt fd buf w1 r] w1 by (auto split: if_splits intro: outcome_stop)
    then show ?thesis by (rule outcome_step[rotated]) (simp add: Fail w1)
  next
    case (Done n bs)
    show ?thesis
    proof (cases "mem_write buf 0 bs")
      case (Inl e)
      then show ?thesis using step(2) w1 Done by (auto intro!: outcome_fault)
    next
      case (Inr b)
      consider "n = 0" | "0 < n" "length b < n" | "0 < n" "n \<le> length b" by linarith
      then show ?thesis
      proof cases
        case 1
        then have "r = Inr w1" using step(2) w1 Done Inr by simp
        then show ?thesis using 1 w1 Done Inr by (simp add: outcome_def alone_step)
      next
        case 2
        then show ?thesis using step(2) w1 Done Inr by (auto intro!: outcome_fault)
      next
        case 3
        obtain ok w2 where s: "send_loop os skt (take n b) w1 = Some (ok, w2)"
          using step(2) w1 Done Inr 3 by (auto split: option.splits)
        have "outcome os skt me (lock, if ok then TRead fd b c else TClose fd c, w2) (\<lambda>w'. (lock, TClose fd c, w')) r"
          using step(2) step(1)[of os skt fd b w2 r] w1 Done Inr 3 s by (auto split: if_splits intro: outcome_stop)
        from outcome_alone[OF send_loop_steps[OF s, of me lock fd b c, simplified fst_conv snd_conv] this]
        show ?thesis by (rule outcome_step[rotated]) (use w1 Done Inr 3 in simp)
      qed
    qed
  qed
qed

text \<open>Where a thread goes after the inner loop of receiving, and after receiving.\<close>

definition after_store :: "nat \<Rightarrow> int \<Rightarrow> string \<Rightarrow> bool \<Rightarrow> 'w packet_outcome \<Rightarrow> nat option \<times> tpc \<times> 'w" where
  "after_store me fd buf eop p =
     (case p of Stored held w \<Rightarrow> (owner me held, received eop fd buf, w)
      | Seeked held w \<Rightarrow> (owner me held, TClose fd False, w))"

definition after_receive :: "nat \<Rightarrow> int \<Rightarrow> int \<times> bool \<times> 'w \<Rightarrow> nat option \<times> tpc \<times> 'w" where
  "after_receive me fd p =
     (case p of (r, held, w) \<Rightarrow> (owner me held, if r = 0 then TReopen fd else TClose fd False, w))"

lemma lock_alone [simp]:
  "lock_mutex me (owner me held) = (case pthread_lock held of Inl e \<Rightarrow> Some (Inl e) | Inr held \<Rightarrow> Some (Inr (owner me held)))"
  "unlock_mutex me (owner me held) = (case pthread_unlock held of Inl e \<Rightarrow> Inl e | Inr held \<Rightarrow> Inr (owner me held))"
  by (simp_all add: lock_mutex_def unlock_mutex_def pthread_lock_def pthread_unlock_def owner_def)

text \<open>The two branches with the mutex held: the seek command and the write.\<close>

lemma store_seek_steps:
  assumes "c_string buf = Inr str" "c_strncmp (length special_string) buf (special_string @ [NUL]) = Inr 0"
    "(case parse_seek os buf w of
        Inl e \<Rightarrow> Some (Inl e)
      | Inr (seekto, w) \<Rightarrow>
          (case os_ioctl os fd AESDCHAR_IOCSEEKTO seekto w of (_, w) \<Rightarrow>
          (case pthread_unlock h of
             Inl e \<Rightarrow> Some (Inl e)
           | Inr held \<Rightarrow>
               (case read_file_and_send os skt fd w of
                  None \<Rightarrow> None
                | Some (Inl e) \<Rightarrow> Some (Inl e)
                | Some (Inr w) \<Rightarrow> Some (Inr (Seeked held w)))))) = Some r"
  shows "outcome os skt me (owner me h, TStore fd buf n eop, w) (after_store me fd buf eop) r"
proof (cases "parse_seek os buf w")
  case (Inl e)
  then show ?thesis using assms by (auto intro!: outcome_fault)
next
  case (Inr p)
  obtain seekto w1 v w2 where p: "p = (seekto, w1)" "os_ioctl os fd AESDCHAR_IOCSEEKTO seekto w1 = (v, w2)"
    by (metis prod.exhaust)
  have "outcome os skt me (owner me h, TUnlockSeek fd, w2) (after_store me fd buf eop) r"
  proof (cases "pthread_unlock h")
    case (Inl e)
    then show ?thesis using assms(3) Inr p by (auto intro!: outcome_fault)
  next
    case h: (Inr h')
    obtain q where q: "read_file_and_send os skt fd w2 = Some q" "r = res_bind q (\<lambda>w. Inr (Seeked h' w))"
      using assms(3) Inr p h by (auto split: option.splits sum.splits)
    have "outcome os skt me (owner me h', TRead fd (replicate READ_WRITE_SIZE NUL) False, w2) (after_store me fd buf eop) r"
      unfolding q(2) by (rule outcome_bind[OF send_file_loop_steps[OF q(1)[unfolded read_file_and_send_def]]])
        (auto simp: after_store_def intro!: outcome_stop)
    then show ?thesis by (rule outcome_step[rotated]) (simp add: h)
  qed
  then show ?thesis by (rule outcome_step[rotated]) (use assms Inr p in simp)
qed

lemma store_write_steps:
  assumes "c_string buf = Inr str" "c_strncmp (length special_string) buf (special_string @ [NUL]) = Inr z" "z \<noteq> 0"
    "(if length buf < n then Some (Inl OutOfBounds)
      else (case os_write os fd (take n buf) w of
           (Fail e, w) \<Rightarrow> if e = E_INTR then f os skt fd buf n h w else Some (Inr (Stored h w))
         | (Done _ _, w) \<Rightarrow>
             (case pthread_unlock h of Inl e \<Rightarrow> Some (Inl e) | Inr held \<Rightarrow> Some (Inr (Stored held w))))) = Some r"
    "\<And>w. f os skt fd buf n h w = Some r \<Longrightarrow>
       outcome os skt me (owner me h, TLock fd buf n eop, w) (after_store me fd buf eop) r"
  shows "outcome os skt me (owner me h, TStore fd buf n eop, w) (after_store me fd buf eop) r"
proof (cases "length buf < n")
  case True
  then show ?thesis using assms(1-4) by (auto intro!: outcome_fault)
next
  case False
  obtain io w1 where w1: "os_write os fd (take n buf) w = (io, w1)" by (rule prod.exhaust)
  show ?thesis
  proof (cases io)
    case (Fail e)
    then have "outcome os skt me (owner me h, if e = E_INTR then TLock fd buf n eop else received eop fd buf, w1)
        (after_store me fd buf eop) r"
      using assms(4,5) w1 False by (auto split: if_splits simp: after_store_def[of me fd buf eop "Stored h w1"] intro: outcome_stop)
    then show ?thesis by (rule outcome_step[rotated]) (use assms(1-3) w1 Fail False in simp)
  next
    case (Done k bs)
    have "outcome os skt me (owner me h, TUnlock fd buf eop, w1) (after_store me fd buf eop) r"
      using assms(4) w1 Done False
      by (auto simp: outcome_def after_store_def split: sum.splits intro!: fault_now alone_step)
    then show ?thesis by (rule outcome_step[rotated]) (use assms(1-3) w1 Done False in simp)
  qed
qed

lemma store_loop_steps:
  assumes "store_loop os skt fd buf n held w = Some r"
  shows "outcome os skt me (owner me held, TLock fd buf n eop, w) (after_store me fd buf eop) r"
  using assms
proof (induction os skt fd buf n held w r rule: store_loop.raw_induct[rotated, consumes 1, case_names step])
  case (step f os skt fd buf n held w r)
  show ?case
  proof (cases "pthread_lock held")
    case (Inl e)
    then show ?thesis using step(2) by (auto intro!: outcome_fault)
  next
    case (Inr h)
    have "outcome os skt me (owner me h, TStore fd buf n eop, w) (after_store me fd buf eop) r"
    proof (cases "c_string buf")
      case (Inl e)
      then show ?thesis using step(2) Inr by (auto intro!: outcome_fault)
    next
      case str: (Inr str)
      show ?thesis
      proof (cases "c_strncmp (length special_string) buf (special_string @ [NUL])")
        case (Inl e)
        then show ?thesis using step(2) Inr str by (auto intro!: outcome_fault)
      next
        case z: (Inr z)
        then show ?thesis
          using store_seek_steps[OF str, where n = n and os = os and fd = fd and w = w and skt = skt and h = h and r = r and me = me and eop = eop] step(2)
            store_write_steps[OF str z, where n = n and os = os and fd = fd and w = w and f = f and skt = skt and h = h and r = r and me = me and eop = eop] step(1)[of os skt fd buf n h _ r] Inr str
          by (cases "z = 0") simp_all
      qed
    qed
    then show ?thesis by (rule outcome_step[rotated]) (simp add: Inr)
  qed
qed

text \<open>What follows a stored chunk: the loop again, or the end of the function.\<close>

lemma stored_then:
  assumes "store_loop os skt fd b n held w1 = Some q"
    and again: "\<And>os skt fd buf held w r. f os skt fd buf held w = Some r \<Longrightarrow>
      outcome os skt me (owner me held, TRecv fd buf, w) (after_receive me fd) r"
    and r: "(case q of Inl e \<Rightarrow> Some (Inl e) | Inr (Seeked h w2) \<Rightarrow> Some (Inr (1, h, w2))
      | Inr (Stored h w2) \<Rightarrow> if found = None then f os skt fd b h w2 else Some (Inr (0, h, w2))) = Some r"
  shows "outcome os skt me (owner me held, TLock fd b n (found \<noteq> None), w1) (after_receive me fd) r"
proof (cases q)
  case (Inl e)
  then show ?thesis using store_loop_steps[OF assms(1), of me "found \<noteq> None"] r by (auto simp: outcome_def)
next
  case (Inr p)
  then have "outcome os skt me (after_store me fd b (found \<noteq> None) p) (after_receive me fd) r"
    using r again[of os skt fd b _ _ r]
    by (cases p) (auto simp: after_store_def received_def after_receive_def[of me fd "(_, _, _)"]
        intro: outcome_stop split: if_splits)
  then show ?thesis using store_loop_steps[OF assms(1), of me "found \<noteq> None"] Inr
    by (auto simp: outcome_def[of _ _ _ _ "after_store _ _ _ _"] intro: outcome_alone)
qed

lemma receive_loop_steps:
  assumes "receive_loop os skt fd buf held w = Some r"
  shows "outcome os skt me (owner me held, TRecv fd buf, w) (after_receive me fd) r"
  using assms
proof (induction os skt fd buf held w r rule: receive_loop.raw_induct[rotated, consumes 1, case_names step])
  case (step f os skt fd buf held w r)
  obtain io w1 where w1: "os_recv os skt READ_WRITE_SIZE w = (io, w1)" by (rule prod.exhaust)
  let ?fin = "\<lambda>c. outcome os skt me c (after_receive me fd) r"
  show ?case
  proof (cases io)
    case (Fail e)
    then have "?fin (owner me held, if e = E_INTR then TRecv fd buf else TReopen fd, w1)"
      using step(2) step(1)[of os skt fd buf held w1 r] w1 by (auto split: if_splits simp: after_receive_def[of me fd "(0, held, w1)"] intro: outcome_stop)
    then show ?thesis by (rule outcome_step[rotated]) (simp add: Fail w1)
  next
    case (Done n bs)
    show ?thesis
    proof (cases "n = 0")
      case True
      then have "?fin (owner me held, TRecv fd buf, w1)"
        using step(2) step(1)[of os skt fd buf held w1 r] w1 Done by simp
      then show ?thesis by (rule outcome_step[rotated]) (simp add: Done w1 True)
    next
      case False
      then consider e where "mem_write buf 0 bs = Inl e" "r = Inl e"
        | b e where "mem_write buf 0 bs = Inr b" "c_strchr b newline = Inl e" "r = Inl e"
        | b found where "mem_write buf 0 bs = Inr b" "c_strchr b newline = Inr found"
        using step(2) w1 Done by (auto split: sum.splits)
      then show ?thesis
      proof cases
        case (3 b found)
        obtain q where q: "store_loop os skt fd b n held w1 = Some q"
          using step(2) w1 Done False 3 by (auto split: option.splits)
        have "?fin (owner me held, TLock fd b n (found \<noteq> None), w1)"
          using step(2) w1 Done False 3 q
          by (intro stored_then[OF q step(1)]) simp_all
        then show ?thesis by (rule outcome_step[rotated]) (use Done w1 False 3 in simp)
      qed (use w1 Done False in \<open>auto intro!: outcome_fault\<close>)
    qed
  qed
qed


end
