(* ===== verification/Server_Contract.thy ===== *)
theory Server_Contract
  imports Socket_Server
begin

text \<open>
  What the connection thread relies on, as two locales: a source of bytes to send back, and a
  data file that stores packets. The thread's functions are correct for every system that keeps
  these laws: sending ends and sends everything, receiving ends at the first newline with every
  chunk stored and the mutex released, and the thread answers with the file's contents.
\<close>

subsection \<open>Sending\<close>

text \<open>
  The world represents an abstract file \<open>d\<close>; \<open>rest\<close> is what is left to read, \<open>sent\<close> what the
  socket has taken. A read may be interrupted, but only finitely often (\<open>patience\<close>); otherwise it
  ends the file or delivers a non-empty piece, for which at most the buffer is touched.
\<close>

locale byte_source =
  fixes os :: "'w os" and skt :: int
    and rep :: "'w \<Rightarrow> 'd \<Rightarrow> bool" and rest :: "'w \<Rightarrow> 'd \<Rightarrow> string" and sent :: "'w \<Rightarrow> string"
    and incoming :: "'w \<Rightarrow> string list" and patience :: "'w \<Rightarrow> nat"
  assumes read_law: "rep w d \<Longrightarrow> fd \<noteq> skt \<Longrightarrow>
      \<exists>r w'. os_read os fd READ_WRITE_SIZE w = (r, w') \<and> rep w' d \<and> sent w' = sent w \<and>
        incoming w' = incoming w \<and>
        (r = Fail E_INTR \<and> rest w' d = rest w d \<and> patience w' < patience w \<or>
         r = Done 0 [] \<and> rest w d = [] \<and> rest w' d = [] \<or>
         (\<exists>n bs. r = Done n bs \<and> 0 < n \<and> n \<le> length bs \<and> length bs \<le> READ_WRITE_SIZE \<and>
            rest w d = take n bs @ rest w' d))"
    and send_law: "rep w d \<Longrightarrow>
      \<exists>r w'. os_write os skt bs w = (r, w') \<and> rep w' d \<and> rest w' d = rest w d \<and>
        incoming w' = incoming w \<and>
        (r = Fail E_INTR \<and> sent w' = sent w \<and> patience w' < patience w \<or>
         (\<exists>n out. r = Done n out \<and> sent w' = sent w @ bs))"
begin

lemma send_loop_ends:
  "rep w d \<Longrightarrow> \<exists>w'. send_loop os skt bs w = Some (True, w') \<and> rep w' d \<and> rest w' d = rest w d \<and>
     incoming w' = incoming w \<and> sent w' = sent w @ bs"
proof (induction "patience w" arbitrary: w rule: less_induct)
  case less
  obtain r w1 where w1: "os_write os skt bs w = (r, w1)" "rep w1 d" "rest w1 d = rest w d"
      "incoming w1 = incoming w"
    and r: "r = Fail E_INTR \<and> sent w1 = sent w \<and> patience w1 < patience w \<or>
      (\<exists>n out. r = Done n out \<and> sent w1 = sent w @ bs)"
    using send_law[OF less.prems, of bs] by blast
  from r show ?case
  proof
    assume i: "r = Fail E_INTR \<and> sent w1 = sent w \<and> patience w1 < patience w"
    then show ?thesis using less.hyps[of w1] w1
      by (subst send_loop.simps) simp
  next
    assume "\<exists>n out. r = Done n out \<and> sent w1 = sent w @ bs"
    then show ?thesis using w1 by (subst send_loop.simps) auto
  qed
qed

lemma send_file_loop_ends:
  "rep w d \<Longrightarrow> fd \<noteq> skt \<Longrightarrow> length buf = READ_WRITE_SIZE \<Longrightarrow>
   \<exists>w'. send_file_loop os skt fd buf w = Some (Inr w') \<and> rep w' d \<and> rest w' d = [] \<and>
     incoming w' = incoming w \<and> sent w' = sent w @ rest w d"
proof (induction "(length (rest w d), patience w)" arbitrary: w buf
    rule: wf_induct_rule[OF wf_lex_prod[OF wf_less wf_less]])
  case 1
  obtain r w1 where w1: "os_read os fd READ_WRITE_SIZE w = (r, w1)" "rep w1 d" "sent w1 = sent w"
      "incoming w1 = incoming w"
    and r: "r = Fail E_INTR \<and> rest w1 d = rest w d \<and> patience w1 < patience w \<or>
      r = Done 0 [] \<and> rest w d = [] \<and> rest w1 d = [] \<or>
      (\<exists>n bs. r = Done n bs \<and> 0 < n \<and> n \<le> length bs \<and> length bs \<le> READ_WRITE_SIZE \<and>
         rest w d = take n bs @ rest w1 d)"
    using read_law[OF 1(2,3)] by blast
  from r consider "r = Fail E_INTR" "rest w1 d = rest w d" "patience w1 < patience w"
    | "r = Done 0 []" "rest w d = []" "rest w1 d = []"
    | n bs where "r = Done n bs" "0 < n" "n \<le> length bs" "length bs \<le> READ_WRITE_SIZE"
        "rest w d = take n bs @ rest w1 d"
    by blast
  then show ?case
  proof cases
    case 1
    then show ?thesis using "1.hyps"[of w1 buf] "1.prems" w1
      by (subst send_file_loop.simps) simp
  next
    case 2
    then show ?thesis using w1 by (subst send_file_loop.simps) (simp add: mem_write_def)
  next
    case 3
    define buf' where "buf' = bs @ drop (length bs) buf"
    obtain w2 where w2: "send_loop os skt (take n bs) w1 = Some (True, w2)" "rep w2 d"
      "rest w2 d = rest w1 d" "incoming w2 = incoming w1" "sent w2 = sent w1 @ take n bs"
      using send_loop_ends[OF w1(2)] by blast
    have "send_file_loop os skt fd buf w = send_file_loop os skt fd buf' w2"
      using w1(1) w2(1) 3 "1.prems"(3)
      by (subst send_file_loop.simps) (simp add: mem_write_0 buf'_def)
    moreover have "length buf' = READ_WRITE_SIZE" using 3 "1.prems"(3) by (simp add: buf'_def)
    moreover have "length (rest w2 d) < length (rest w d)" using 3 w2(3) by simp
    ultimately show ?thesis using "1.hyps"[of w2 buf'] "1.prems"(2) w1 w2 3 by simp
  qed
qed

text \<open>Sending back ends, and sends exactly what was left to read.\<close>

lemma read_file_and_send_all:
  assumes "rep w d" "fd \<noteq> skt"
  shows "\<exists>w'. read_file_and_send os skt fd w = Some (Inr w') \<and> rep w' d \<and> rest w' d = [] \<and>
    incoming w' = incoming w \<and> sent w' = sent w @ rest w d"
  unfolding read_file_and_send_def by (rule send_file_loop_ends[OF assms]) simp

end

subsection \<open>Chunks\<close>

text \<open>
  What one \<open>recv\<close> may deliver for the packet to be handled as data: a non-empty piece that leaves
  room for a terminator, without NUL, that differs from the seek keyword on their common length.
\<close>

definition ordinary :: "string \<Rightarrow> bool" where
  "ordinary c \<longleftrightarrow> c \<noteq> [] \<and> length c < READ_WRITE_SIZE \<and> NUL \<notin> set c \<and>
     take (length special_string) c \<noteq> take (length c) special_string"

text \<open>A packet: ordinary chunks, the newline in the last one only.\<close>

fun packet :: "string list \<Rightarrow> bool" where
  "packet [] \<longleftrightarrow> False"
| "packet [c] \<longleftrightarrow> ordinary c \<and> newline \<in> set c"
| "packet (c # cs) \<longleftrightarrow> ordinary c \<and> newline \<notin> set c \<and> packet cs"

lemma packet_Cons:
  "packet (c # cs) \<longleftrightarrow> ordinary c \<and> (if newline \<in> set c then cs = [] else packet cs)"
  by (cases cs) auto

lemma strncmp_differs:
  assumes "take (length p) c \<noteq> take (length c) p" "NUL \<notin> set c"
  shows "\<exists>r. c_strncmp (length p) (c @ x) (p @ y) = Inr r \<and> r \<noteq> 0"
  using assms
proof (induction p arbitrary: c)
  case (Cons a p)
  then show ?case
    by (cases c) (auto simp: of_char_eq_iff)
qed simp

lemma strchr_absent:
  "c \<notin> set b \<Longrightarrow> c \<noteq> NUL \<Longrightarrow> NUL \<in> set b \<Longrightarrow> c_strchr b c = Inr None"
  by (induction b) auto

lemma strchr_present:
  "NUL \<notin> set b \<Longrightarrow> c \<in> set b \<Longrightarrow> \<exists>k. c_strchr (b @ r) c = Inr (Some k)"
  by (induction b) (auto split: if_splits)

lemma c_string_present: "NUL \<in> set b \<Longrightarrow> \<exists>s. c_string b = Inr s"
  by (induction b) auto

text \<open>The receive buffer between packets: its last byte is NUL, and it holds no newline.\<close>

definition quiet_buffer :: "string \<Rightarrow> bool" where
  "quiet_buffer buf \<longleftrightarrow> length buf = READ_WRITE_SIZE \<and> buf \<noteq> [] \<and> last buf = NUL \<and> newline \<notin> set buf"

lemma quiet_start: "quiet_buffer (replicate READ_WRITE_SIZE NUL)"
  by (simp add: quiet_buffer_def READ_WRITE_SIZE_def)

lemma received_chunk:
  assumes "quiet_buffer buf" "ordinary c"
  defines "buf' \<equiv> c @ drop (length c) buf"
  shows "mem_write buf 0 c = Inr buf'" and "\<exists>s. c_string buf' = Inr s"
    and "\<exists>found. c_strchr buf' newline = Inr found \<and> (found = None \<longleftrightarrow> newline \<notin> set c)"
    and "\<exists>r. c_strncmp (length special_string) buf' (special_string @ [NUL]) = Inr r \<and> r \<noteq> 0"
    and "length buf' = READ_WRITE_SIZE" and "take (length c) buf' = c"
    and "newline \<notin> set c \<Longrightarrow> quiet_buffer buf'"
proof -
  have len: "length c < length buf" and c: "NUL \<notin> set c"
    using assms(1,2) by (auto simp: quiet_buffer_def ordinary_def)
  then have ne: "drop (length c) buf \<noteq> []" by simp
  have l: "last buf' = NUL" using assms(1) ne by (simp add: buf'_def quiet_buffer_def)
  have tail: "newline \<notin> set (drop (length c) buf)"
    using assms(1) by (auto simp: quiet_buffer_def dest: in_set_dropD)
  have nul: "NUL \<in> set buf'" using l ne last_in_set[of buf'] by (simp add: buf'_def)
  show "mem_write buf 0 c = Inr buf'" using len by (simp add: mem_write_0 buf'_def)
  show "\<exists>s. c_string buf' = Inr s" by (rule c_string_present[OF nul])
  show "\<exists>found. c_strchr buf' newline = Inr found \<and> (found = None \<longleftrightarrow> newline \<notin> set c)"
  proof (cases "newline \<in> set c")
    case True
    then obtain k where "c_strchr buf' newline = Inr (Some k)"
      using strchr_present[OF c] unfolding buf'_def by blast
    then show ?thesis using True by blast
  next
    case False
    with tail have "newline \<notin> set buf'" by (simp add: buf'_def)
    then show ?thesis using False nul strchr_absent[of newline buf'] by auto
  qed
  show "\<exists>r. c_strncmp (length special_string) buf' (special_string @ [NUL]) = Inr r \<and> r \<noteq> 0"
    unfolding buf'_def using assms(2) c by (intro strncmp_differs) (auto simp: ordinary_def)
  show "length buf' = READ_WRITE_SIZE" using assms(1) len by (simp add: buf'_def quiet_buffer_def)
  then show "newline \<notin> set c \<Longrightarrow> quiet_buffer buf'"
    using l tail ne by (auto simp: quiet_buffer_def buf'_def)
  show "take (length c) buf' = c" by (simp add: buf'_def)
qed

subsection \<open>Storing\<close>

text \<open>
  The data file: opening starts reading at the beginning of its contents; a write that the file
  accepts is never interrupted and stores the bytes; the socket delivers its chunks in order.
\<close>

fun accepts_all :: "('d \<Rightarrow> string \<Rightarrow> bool) \<Rightarrow> ('d \<Rightarrow> string \<Rightarrow> 'd) \<Rightarrow> 'd \<Rightarrow> string list \<Rightarrow> bool" where
  "accepts_all accepts store d [] \<longleftrightarrow> True"
| "accepts_all accepts store d (c # cs) \<longleftrightarrow> accepts d c \<and> accepts_all accepts store (store d c) cs"

locale data_file = byte_source os skt rep rest sent incoming patience
  for os :: "'w os" and skt :: int and rep :: "'w \<Rightarrow> 'd \<Rightarrow> bool" and rest :: "'w \<Rightarrow> 'd \<Rightarrow> string"
    and sent :: "'w \<Rightarrow> string" and incoming :: "'w \<Rightarrow> string list" and patience :: "'w \<Rightarrow> nat" +
  fixes contents :: "'d \<Rightarrow> string" and store :: "'d \<Rightarrow> string \<Rightarrow> 'd" and accepts :: "'d \<Rightarrow> string \<Rightarrow> bool"
  assumes open_law: "rep w d \<Longrightarrow>
      \<exists>fd w'. os_open os WRITE_FILE w = (fd, w') \<and> fd \<noteq> skt \<and> rep w' d \<and> rest w' d = contents d \<and>
        incoming w' = incoming w \<and> sent w' = sent w"
    and close_law: "rep w d \<Longrightarrow> rep (os_close os fd w) d \<and>
        incoming (os_close os fd w) = incoming w \<and> sent (os_close os fd w) = sent w"
    and recv_law: "rep w d \<Longrightarrow> incoming w = c # cs \<Longrightarrow> c \<noteq> [] \<Longrightarrow> length c < READ_WRITE_SIZE \<Longrightarrow>
      \<exists>r w'. os_recv os skt READ_WRITE_SIZE w = (r, w') \<and> rep w' d \<and> sent w' = sent w \<and>
        (r = Fail E_INTR \<and> incoming w' = c # cs \<and> patience w' < patience w \<or>
         r = Done (length c) c \<and> incoming w' = cs)"
    and store_law: "rep w d \<Longrightarrow> fd \<noteq> skt \<Longrightarrow> accepts d bs \<Longrightarrow>
      \<exists>n out w'. os_write os fd bs w = (Done n out, w') \<and> rep w' (store d bs) \<and>
        incoming w' = incoming w \<and> sent w' = sent w"
begin

lemma store_loop_ends:
  assumes "rep w d" "fd \<noteq> skt" "accepts d c" "quiet_buffer buf" "ordinary c"
  shows "\<exists>w'. store_loop os skt fd (c @ drop (length c) buf) (length c) False w =
      Some (Inr (Stored False w')) \<and> rep w' (store d c) \<and> incoming w' = incoming w \<and> sent w' = sent w"
proof -
  note rc = received_chunk[OF assms(4,5)]
  obtain n out w' where w': "os_write os fd c w = (Done n out, w')" "rep w' (store d c)"
      "incoming w' = incoming w" "sent w' = sent w"
    using store_law[OF assms(1-3)] by blast
  have len: "\<not> length (c @ drop (length c) buf) < length c" by simp
  from rc(2,4) w' show ?thesis
    by (subst store_loop.simps) (auto simp: pthread_lock_def pthread_unlock_def)
qed

lemma receive_loop_ends:
  "rep w d \<Longrightarrow> fd \<noteq> skt \<Longrightarrow> incoming w = cs @ later \<Longrightarrow> packet cs \<Longrightarrow> accepts_all accepts store d cs \<Longrightarrow>
   quiet_buffer buf \<Longrightarrow>
   \<exists>w'. receive_loop os skt fd buf False w = Some (Inr (0, False, w')) \<and> rep w' (foldl store d cs) \<and>
     incoming w' = later \<and> sent w' = sent w"
proof (induction "(length cs, patience w)" arbitrary: w d cs buf
    rule: wf_induct_rule[OF wf_lex_prod[OF wf_less wf_less]])
  case 1
  then obtain c cs' where cs: "cs = c # cs'" by (cases cs) auto
  have c: "ordinary c" "if newline \<in> set c then cs' = [] else packet cs'" "accepts d c"
    "accepts_all accepts store (store d c) cs'" "c \<noteq> []" "length c < READ_WRITE_SIZE"
    using "1.prems"(4,5) by (auto simp: cs packet_Cons ordinary_def split: if_splits)
  obtain r w1 where w1: "os_recv os skt READ_WRITE_SIZE w = (r, w1)" "rep w1 d" "sent w1 = sent w"
    and r: "r = Fail E_INTR \<and> incoming w1 = cs @ later \<and> patience w1 < patience w \<or>
      r = Done (length c) c \<and> incoming w1 = cs' @ later"
    using recv_law[OF "1.prems"(1) _ c(5,6)] "1.prems"(3) by (auto simp: cs)
  note rc = received_chunk[OF "1.prems"(6) c(1)]
  from r show ?case
  proof
    assume "r = Fail E_INTR \<and> incoming w1 = cs @ later \<and> patience w1 < patience w"
    then show ?thesis using "1.hyps"[of cs w1 d buf] "1.prems" w1
      by (subst receive_loop.simps) simp
  next
    assume got: "r = Done (length c) c \<and> incoming w1 = cs' @ later"
    let ?buf = "c @ drop (length c) buf"
    obtain w2 where w2: "store_loop os skt fd ?buf (length c) False w1 = Some (Inr (Stored False w2))"
        "rep w2 (store d c)" "incoming w2 = incoming w1" "sent w2 = sent w1"
      using store_loop_ends[OF w1(2) "1.prems"(2) c(3) "1.prems"(6) c(1)] by blast
    obtain found where f: "c_strchr ?buf newline = Inr found" "found = None \<longleftrightarrow> newline \<notin> set c"
      using rc(3) by blast
    have step: "receive_loop os skt fd buf False w =
        (if found = None then receive_loop os skt fd ?buf False w2 else Some (Inr (0, False, w2)))"
      using w1(1) got rc(1) f(1) w2(1) c(5) by (subst receive_loop.simps) simp
    show ?thesis
    proof (cases "newline \<in> set c")
      case True
      then show ?thesis using step f(2) c(2) w2 w1(3) got by (simp add: cs)
    next
      case False
      then show ?thesis
        using step f(2) c(2,4) w2 w1(3) got rc(7) "1.prems"(2) "1.hyps"[of cs' w2 "store d c" ?buf]
        by (simp add: cs)
    qed
  qed
qed

text \<open>Receiving a packet ends, stores its chunks in order and releases the mutex.\<close>

lemma receive_packet:
  assumes "rep w d" "fd \<noteq> skt" "incoming w = cs @ later" "packet cs" "accepts_all accepts store d cs"
  shows "\<exists>w'. receive_and_write_to_file os skt fd False w = Some (Inr (0, False, w')) \<and>
    rep w' (foldl store d cs) \<and> incoming w' = later \<and> sent w' = sent w"
  unfolding receive_and_write_to_file_def by (rule receive_loop_ends[OF assms quiet_start])

text \<open>The thread answers a packet with the contents of the file after storing it.\<close>

lemma data_processor_answers:
  assumes "rep w d" "connected_skt_fd args = skt" "incoming w = cs @ later" "packet cs"
    "accepts_all accepts store d cs"
  shows "\<exists>w'. data_processor os args False w = Some (Inr (args\<lparr>thread_complete := 1\<rparr>, False, w')) \<and>
    rep w' (foldl store d cs) \<and> incoming w' = later \<and>
    sent w' = sent w @ contents (foldl store d cs)"
proof -
  obtain fd w1 where w1: "os_open os WRITE_FILE w = (fd, w1)" "fd \<noteq> skt" "rep w1 d"
      "incoming w1 = incoming w" "sent w1 = sent w"
    using open_law[OF assms(1)] by blast
  obtain w2 where w2: "receive_and_write_to_file os skt fd False w1 = Some (Inr (0, False, w2))"
      "rep w2 (foldl store d cs)" "incoming w2 = later" "sent w2 = sent w1"
    using receive_packet[OF w1(3,2) _ assms(4,5)] w1(4) assms(3) by metis
  note cl = close_law[OF w2(2), of fd]
  obtain fd' w3 where w3: "os_open os WRITE_FILE (os_close os fd w2) = (fd', w3)" "fd' \<noteq> skt"
      "rep w3 (foldl store d cs)" "rest w3 (foldl store d cs) = contents (foldl store d cs)"
      "incoming w3 = later" "sent w3 = sent w2"
    using open_law[OF cl[THEN conjunct1]] cl w2(3) by metis
  obtain w4 where w4: "read_file_and_send os skt fd' w3 = Some (Inr w4)" "rep w4 (foldl store d cs)"
      "incoming w4 = incoming w3" "sent w4 = sent w3 @ rest w3 (foldl store d cs)"
    using read_file_and_send_all[OF w3(3,2)] by blast
  show ?thesis
    using w1(1,5) w2(1,4) w3(1,4-6) w4 close_law[OF w4(2), of fd'] assms(2)
    by (simp add: data_processor_def)
qed

end

end
