(* ===== verification/Kernel_Heap.thy ===== *)
theory Kernel_Heap
  imports C_Strings
begin

text \<open>
  The structures of \<open>aesd-circular-buffer.h\<close> and the heap they live in. The heap is typed: one
  partial map per kind of object the driver allocates (byte arrays, \<open>struct aesd_buffer_entry\<close>,
  \<open>struct aesd_circular_buffer\<close>). The kernel's allocator is not part of the repository: which
  address it returns, what the memory holds and whether it fails are a parameter, and
  \<open>kmalloc_ok\<close> and \<open>krealloc_ok\<close> state what its documentation promises.
\<close>

type_synonym addr = nat

datatype cptr = Null | Ptr addr

subsection \<open>struct aesd_buffer_entry and struct aesd_circular_buffer\<close>

record aesd_buffer_entry =
  buffptr :: cptr
  esize :: size_t

record aesd_circular_buffer =
  entry :: "aesd_buffer_entry list"
  in_offs :: u8
  out_offs :: u8
  full :: bool

definition AESDCHAR_MAX_WRITE_OPERATIONS_SUPPORTED :: nat where
  "AESDCHAR_MAX_WRITE_OPERATIONS_SUPPORTED = 10"

definition BUFFER_SIZE :: nat where
  "BUFFER_SIZE = 10"

abbreviation null_entry :: aesd_buffer_entry where
  "null_entry \<equiv> \<lparr>buffptr = Null, esize = 0\<rparr>"

subsection \<open>The heap\<close>

record kmem =
  chars :: "addr \<rightharpoonup> string"
  ents :: "addr \<rightharpoonup> aesd_buffer_entry"
  cbufs :: "addr \<rightharpoonup> aesd_circular_buffer"

definition fresh :: "kmem \<Rightarrow> addr \<Rightarrow> bool" where
  "fresh h a \<longleftrightarrow> chars h a = None \<and> ents h a = None \<and> cbufs h a = None"

definition load_chars :: "kmem \<Rightarrow> cptr \<Rightarrow> string res" where
  "load_chars h p =
     (case p of Null \<Rightarrow> Inl NullDeref
      | Ptr a \<Rightarrow> (case chars h a of None \<Rightarrow> Inl UseAfterFree | Some bs \<Rightarrow> Inr bs))"

definition store_chars :: "kmem \<Rightarrow> cptr \<Rightarrow> string \<Rightarrow> kmem res" where
  "store_chars h p bs =
     (case p of Null \<Rightarrow> Inl NullDeref
      | Ptr a \<Rightarrow> (case chars h a of None \<Rightarrow> Inl UseAfterFree
                 | Some _ \<Rightarrow> Inr (h\<lparr>chars := (chars h)(a \<mapsto> bs)\<rparr>)))"

definition kfree_chars :: "kmem \<Rightarrow> cptr \<Rightarrow> kmem res" where
  "kfree_chars h p =
     (case p of Null \<Rightarrow> Inr h
      | Ptr a \<Rightarrow> (case chars h a of None \<Rightarrow> Inl BadFree
                 | Some [] \<Rightarrow> Inr h
                 | Some _ \<Rightarrow> Inr (h\<lparr>chars := (chars h)(a := None)\<rparr>)))"

subsection \<open>The allocator parameter\<close>

type_synonym kmalloc = "kmem \<Rightarrow> nat \<Rightarrow> (addr \<times> string) option"
type_synonym krealloc = "kmem \<Rightarrow> addr \<Rightarrow> nat \<Rightarrow> (addr \<times> string) option"

definition kmalloc_chars :: "kmalloc \<Rightarrow> kmem \<Rightarrow> nat \<Rightarrow> kmem \<times> cptr" where
  "kmalloc_chars km h n =
     (case km h n of None \<Rightarrow> (h, Null)
      | Some (a, bs) \<Rightarrow> (h\<lparr>chars := (chars h)(a \<mapsto> bs)\<rparr>, Ptr a))"

definition krealloc_chars :: "kmalloc \<Rightarrow> krealloc \<Rightarrow> kmem \<Rightarrow> cptr \<Rightarrow> nat \<Rightarrow> (kmem \<times> cptr) res" where
  "krealloc_chars km kr h p n =
     (case p of Null \<Rightarrow> Inr (kmalloc_chars km h n)
      | Ptr a \<Rightarrow> (case chars h a of None \<Rightarrow> Inl UseAfterFree
                 | Some old \<Rightarrow>
                     (case kr h a n of None \<Rightarrow> Inr (h, Null)
                      | Some (a', bs) \<Rightarrow>
                          Inr (h\<lparr>chars := (chars h)(a := None, a' \<mapsto> take n old @ drop (length old) bs)\<rparr>,
                               Ptr a'))))"

text \<open>
  A successful \<open>kmalloc\<close> gives a block of the requested size that is not in use; a request for no
  bytes gives the shared empty block. No request of 2 GiB or more succeeds (\<open>KMALLOC_MAX_SIZE\<close>
  is far below that on every Linux target). \<open>krealloc\<close> may grow in place.
\<close>

definition kmalloc_ok :: "kmalloc \<Rightarrow> bool" where
  "kmalloc_ok km \<longleftrightarrow>
     (\<forall>h n a bs. km h n = Some (a, bs) \<longrightarrow>
        length bs = n \<and> n < 2 ^ 31 \<and> (if n = 0 then fresh h a \<or> chars h a = Some [] else fresh h a))"

definition krealloc_ok :: "krealloc \<Rightarrow> bool" where
  "krealloc_ok kr \<longleftrightarrow>
     (\<forall>h p n a bs. kr h p n = Some (a, bs) \<longrightarrow>
        length bs = n \<and> n < 2 ^ 31 \<and> (a = p \<or> fresh h a))"

lemma kmalloc_okD:
  assumes "kmalloc_ok km" and "km h n = Some (a, bs)"
  shows "length bs = n" and "n < 2 ^ 31" and "0 < n \<Longrightarrow> fresh h a"
    and "fresh h a \<or> chars h a = Some [] \<and> n = 0"
  using assms unfolding kmalloc_ok_def by (metis neq0_conv)+

lemma krealloc_okD:
  assumes "krealloc_ok kr" and "kr h p n = Some (a, bs)"
  shows "length bs = n" and "n < 2 ^ 31" and "a = p \<or> fresh h a"
  using assms unfolding krealloc_ok_def by blast+

text \<open>
  Memory is available when, on a finite heap, no request below \<open>KMALLOC_MAX_SIZE\<close> (4 MiB, the
  value of the common Linux configurations) fails.
\<close>

definition KMALLOC_MAX_SIZE :: nat where "KMALLOC_MAX_SIZE = 2 ^ 22"

definition finite_heap :: "kmem \<Rightarrow> bool" where
  "finite_heap h \<longleftrightarrow> finite (dom (chars h)) \<and> finite (dom (ents h)) \<and> finite (dom (cbufs h))"

definition kmalloc_available :: "kmalloc \<Rightarrow> bool" where
  "kmalloc_available km \<longleftrightarrow> (\<forall>h n. finite_heap h \<longrightarrow> n < KMALLOC_MAX_SIZE \<longrightarrow> km h n \<noteq> None)"

definition krealloc_available :: "krealloc \<Rightarrow> bool" where
  "krealloc_available kr \<longleftrightarrow> (\<forall>h a n. finite_heap h \<longrightarrow> n < KMALLOC_MAX_SIZE \<longrightarrow> kr h a n \<noteq> None)"

lemma kmalloc_availableE:
  assumes "kmalloc_available km" "finite_heap h" "n < KMALLOC_MAX_SIZE"
  obtains a bs where "km h n = Some (a, bs)"
  using assms by (fastforce simp: kmalloc_available_def)

lemma krealloc_availableE:
  assumes "krealloc_available kr" "finite_heap h" "n < KMALLOC_MAX_SIZE"
  obtains a' bs where "kr h a n = Some (a', bs)"
  using assms by (fastforce simp: krealloc_available_def)

lemma finite_heap_upd [simp]: "finite_heap (h\<lparr>chars := (chars h)(a := v)\<rparr>) = finite_heap h"
  by (cases v) (auto simp: finite_heap_def)

lemma finite_heap_upd2 [simp]:
  "finite_heap (h\<lparr>ents := (ents h)(a := w)\<rparr>) = finite_heap h"
  "finite_heap (h\<lparr>cbufs := (cbufs h)(a := v)\<rparr>) = finite_heap h"
  by (cases v; cases w; auto simp: finite_heap_def)+

subsection \<open>An allocator with these properties\<close>

text \<open>The first free address, filled with a pattern.\<close>

partial_function (option) first_fresh :: "kmem \<Rightarrow> addr \<Rightarrow> addr option" where
  "first_fresh h a = (if fresh h a then Some a else first_fresh h (Suc a))"

definition first_fit :: kmalloc where
  "first_fit h n =
     (if n < 2 ^ 31 then
        (case first_fresh h 1 of None \<Rightarrow> None | Some a \<Rightarrow> Some (a, replicate n (CHR 0xAA)))
      else None)"

definition first_fit_re :: krealloc where
  "first_fit_re h p n = first_fit h n"

lemma first_fresh_fresh: "first_fresh h a = Some b \<Longrightarrow> fresh h b"
  by (erule first_fresh.raw_induct[rotated]) (auto split: if_splits)

lemma first_fresh_returns:
  assumes "fresh h c" "a \<le> c"
  shows "\<exists>b. first_fresh h a = Some b"
  using assms(2,1)
proof (induction rule: inc_induct)
  case base
  then show ?case by (subst first_fresh.simps) simp
next
  case (step a)
  then show ?case by (subst first_fresh.simps) auto
qed

lemma finite_heap_fresh:
  assumes "finite_heap h"
  shows "\<exists>c. fresh h c \<and> (1::nat) \<le> c"
proof -
  let ?D = "insert 0 (dom (chars h) \<union> dom (ents h) \<union> dom (cbufs h))"
  have "finite ?D" using assms by (simp add: finite_heap_def)
  then obtain c where c: "c \<notin> ?D" by (meson ex_new_if_finite infinite_UNIV_nat)
  then have "fresh h c" by (simp add: fresh_def domIff)
  with c show ?thesis by (intro exI[of _ c]) auto
qed

lemma first_fit_ok: "kmalloc_ok first_fit"
  by (auto simp: kmalloc_ok_def first_fit_def dest: first_fresh_fresh split: if_splits option.splits)

lemma first_fit_available: "kmalloc_available first_fit"
  using finite_heap_fresh first_fresh_returns
  by (fastforce simp: kmalloc_available_def first_fit_def KMALLOC_MAX_SIZE_def)

lemma first_fit_re_ok: "krealloc_ok first_fit_re"
  by (auto simp: krealloc_ok_def first_fit_re_def first_fit_def dest: first_fresh_fresh
      split: if_splits option.splits)

lemma first_fit_re_available: "krealloc_available first_fit_re"
  using first_fit_available
  by (simp add: krealloc_available_def kmalloc_available_def first_fit_re_def)

subsection \<open>Heap equations\<close>

lemma load_chars_simps [simp, kmem_simps]:
  "load_chars h Null = Inl NullDeref"
  "chars h a = None \<Longrightarrow> load_chars h (Ptr a) = Inl UseAfterFree"
  "chars h a = Some bs \<Longrightarrow> load_chars h (Ptr a) = Inr bs"
  by (simp_all add: load_chars_def)

lemma load_chars_Inr: "load_chars h p = Inr bs \<longleftrightarrow> (\<exists>a. p = Ptr a \<and> chars h a = Some bs)"
  by (auto simp: load_chars_def split: cptr.splits option.splits)

lemma store_chars_simps [simp, kmem_simps]:
  "store_chars h Null bs = Inl NullDeref"
  "chars h a = Some old \<Longrightarrow> store_chars h (Ptr a) bs = Inr (h\<lparr>chars := (chars h)(a \<mapsto> bs)\<rparr>)"
  by (simp_all add: store_chars_def)

lemma kfree_chars_simps [simp, kmem_simps]:
  "kfree_chars h Null = Inr h"
  "chars h a = None \<Longrightarrow> kfree_chars h (Ptr a) = Inl BadFree"
  "chars h a = Some [] \<Longrightarrow> kfree_chars h (Ptr a) = Inr h"
  "chars h a = Some (x # xs) \<Longrightarrow> kfree_chars h (Ptr a) = Inr (h\<lparr>chars := (chars h)(a := None)\<rparr>)"
  by (simp_all add: kfree_chars_def)

lemma kfree_chars_nonempty:
  "chars h a = Some bs \<Longrightarrow> bs \<noteq> [] \<Longrightarrow>
   kfree_chars h (Ptr a) = Inr (h\<lparr>chars := (chars h)(a := None)\<rparr>)"
  by (cases bs) auto

subsection \<open>Counting blocks\<close>

definition blocks :: "kmem \<Rightarrow> nat" where
  "blocks h = card (dom (chars h))"

lemma blocks_simps [simp]: "blocks (h\<lparr>ents := x\<rparr>) = blocks h" "blocks (h\<lparr>cbufs := y\<rparr>) = blocks h"
  by (simp_all add: blocks_def)

lemma blocks_new: "finite_heap h \<Longrightarrow> fresh h a \<Longrightarrow> blocks (h\<lparr>chars := (chars h)(a \<mapsto> v)\<rparr>) = blocks h + 1"
  by (simp add: blocks_def finite_heap_def fresh_def domIff)

lemma blocks_replace: "chars h a = Some v \<Longrightarrow> blocks (h\<lparr>chars := (chars h)(a \<mapsto> v')\<rparr>) = blocks h"
  by (simp add: blocks_def insert_absorb domI)

lemma blocks_free: "finite_heap h \<Longrightarrow> chars h a = Some v \<Longrightarrow> blocks (h\<lparr>chars := (chars h)(a := None)\<rparr>) + 1 = blocks h"
proof -
  assume "finite_heap h" "chars h a = Some v"
  then have "Suc (card (dom (chars h) - {a})) = card (dom (chars h))"
    by (intro card_Suc_Diff1) (auto simp: finite_heap_def)
  moreover have "dom ((chars h)(a := None)) = dom (chars h) - {a}" by auto
  ultimately show ?thesis by (simp only: blocks_def) simp
qed

lemma blocks_move:
  assumes "finite_heap h" "chars h a0 = Some v" "a = a0 \<or> fresh h a"
  shows "blocks (h\<lparr>chars := (chars h)(a0 := None, a \<mapsto> v')\<rparr>) = blocks h"
proof -
  let ?h = "h\<lparr>chars := (chars h)(a0 := None)\<rparr>"
  have "finite (dom (chars ?h))" "a \<notin> dom (chars ?h)" using assms by (auto simp: finite_heap_def fresh_def)
  then have "blocks (?h\<lparr>chars := (chars ?h)(a \<mapsto> v')\<rparr>) = blocks ?h + 1" by (simp add: blocks_def)
  then show ?thesis using blocks_free[OF assms(1,2)] by simp
qed

end
