(* ===== verification/Circular_Buffer.thy ===== *)
theory Circular_Buffer
  imports Kernel_Heap
begin

text \<open>
  \<open>aesd-char-driver/aesd-circular-buffer.c\<close>: the ring of the ten most recent write commands.
  The ring refines a bounded history (\<open>keep_last\<close>), and the search for a file position refines
  the walk over the sizes of the stored commands (\<open>locate\<close>).
\<close>

subsection \<open>Operations\<close>

text \<open>An array access \<open>buffer->entry[i]\<close>.\<close>

definition entry_at :: "aesd_circular_buffer \<Rightarrow> u8 \<Rightarrow> aesd_buffer_entry res" where
  "entry_at b i =
     (if unat i < length (entry b) then Inr (entry b ! unat i) else Inl OutOfBounds)"

definition advance_out_offs :: "aesd_circular_buffer \<Rightarrow> aesd_circular_buffer" where
  "advance_out_offs b =
     (let b1 = b\<lparr>out_offs := out_offs b + 1\<rparr>
      in if 10 \<le> out_offs b1 then b1\<lparr>out_offs := 0\<rparr> else b1)"

definition advance_in_offs :: "aesd_circular_buffer \<Rightarrow> aesd_circular_buffer" where
  "advance_in_offs b =
     (let b1 = b\<lparr>in_offs := in_offs b + 1\<rparr>
      in if 10 \<le> in_offs b1 then b1\<lparr>in_offs := 0\<rparr> else b1)"

text \<open>
  The search loop. Its state is the buffer, whose \<open>out_offs\<close> it moves, the end of the entry
  before (\<open>total_end_entry\<close>) and \<open>loop_count\<close>. \<open>None\<close> is a loop that never ends.
\<close>

partial_function (option) find_loop ::
    "size_t \<Rightarrow> u8 \<Rightarrow> aesd_circular_buffer \<Rightarrow> size_t \<Rightarrow> int
     \<Rightarrow> (aesd_circular_buffer \<times> (u8 \<times> size_t) option) res option" where
  "find_loop char_offset restore_out_offs b total_end_entry loop_count =
     (case entry_at b (out_offs b) of
        Inl e \<Rightarrow> Some (Inl e)
      | Inr en \<Rightarrow>
          if esize en + total_end_entry \<le> char_offset then
            if int BUFFER_SIZE \<le> loop_count + 1 then
              Some (Inr ((advance_out_offs b)\<lparr>out_offs := restore_out_offs\<rparr>, None))
            else find_loop char_offset restore_out_offs (advance_out_offs b)
                   (esize en + total_end_entry) (loop_count + 1)
          else if total_end_entry \<le> char_offset then
            Some (Inr (b\<lparr>out_offs := restore_out_offs\<rparr>,
                       Some (out_offs b, char_offset - total_end_entry)))
          else find_loop char_offset restore_out_offs b
                 (esize en + total_end_entry) (loop_count + 1))"

definition aesd_circular_buffer_find_entry_offset_for_fpos ::
    "aesd_circular_buffer \<Rightarrow> size_t
     \<Rightarrow> (aesd_circular_buffer \<times> (u8 \<times> size_t) option) res option" where
  "aesd_circular_buffer_find_entry_offset_for_fpos b char_offset =
     find_loop char_offset (out_offs b) b 0 0"

text \<open>
  The debug print reads every stored string. Its value is what it prints: one string per slot
  (\<open>None\<close> for \<open>(null)\<close>) and the two offsets.
\<close>

definition print_slot :: "kmem \<Rightarrow> aesd_buffer_entry \<Rightarrow> string option res" where
  "print_slot h e =
     (if buffptr e = Null then Inr None
      else res_bind (load_chars h (buffptr e)) (\<lambda>bs.
           res_bind (c_string bs) (\<lambda>s. Inr (Some s))))"

fun print_slots :: "kmem \<Rightarrow> aesd_buffer_entry list \<Rightarrow> string option list res" where
  "print_slots h [] = Inr []"
| "print_slots h (e # es) =
     res_bind (print_slot h e) (\<lambda>s. res_bind (print_slots h es) (\<lambda>ss. Inr (s # ss)))"

definition aesd_print_circular_buffer ::
    "kmem \<Rightarrow> aesd_circular_buffer \<Rightarrow> (string option list \<times> u8 \<times> u8) res" where
  "aesd_print_circular_buffer h b =
     res_bind (print_slots h (take 10 (entry b))) (\<lambda>ss. Inr (ss, in_offs b, out_offs b))"

text \<open>
  The update part of \<open>aesd_circular_buffer_add_entry\<close>: the slot at \<open>in_offs\<close> is overwritten; if it
  was in use its old pointer is returned and \<open>out_offs\<close> moves on.
\<close>

definition store_entry ::
    "aesd_circular_buffer \<Rightarrow> cptr \<Rightarrow> size_t \<Rightarrow> (aesd_circular_buffer \<times> cptr) res" where
  "store_entry b p n =
     res_bind (entry_at b (in_offs b)) (\<lambda>old.
       let b1 = (if buffptr old \<noteq> Null then advance_out_offs b else b);
           return_buffer = (if buffptr old \<noteq> Null then buffptr old else Null);
           b2 = b1\<lparr>entry := (entry b1)[unat (in_offs b1) := \<lparr>buffptr = p, esize = n\<rparr>]\<rparr>
       in Inr (advance_in_offs b2, return_buffer))"

definition aesd_circular_buffer_add_entry ::
    "kmalloc \<Rightarrow> kmem \<Rightarrow> aesd_circular_buffer \<Rightarrow> aesd_buffer_entry
     \<Rightarrow> (kmem \<times> aesd_circular_buffer \<times> cptr) res" where
  "aesd_circular_buffer_add_entry km h b add_entry =
     res_bind (load_chars h (buffptr add_entry)) (\<lambda>bs.
     res_bind (c_strlen bs) (\<lambda>n.
       case kmalloc_chars km h n of (h1, return_buffer) \<Rightarrow>
       if return_buffer = Null then Inr (h1, b, Null)
       else
         res_bind (load_chars h1 (buffptr add_entry)) (\<lambda>bs1.
         res_bind (c_strlen bs1) (\<lambda>n1.
         res_bind (store_entry b (buffptr add_entry) (of_nat n1)) (\<lambda>(b1, ret).
         res_bind (aesd_print_circular_buffer h1 b1) (\<lambda>_. Inr (h1, b1, ret)))))))"

fun length_loop :: "aesd_buffer_entry list \<Rightarrow> size_t \<Rightarrow> size_t" where
  "length_loop [] acc = acc"
| "length_loop (e # es) acc = length_loop es (esize e + acc)"

definition get_aesd_buffer_length :: "aesd_circular_buffer \<Rightarrow> loff_t" where
  "get_aesd_buffer_length b = length_loop (take BUFFER_SIZE (entry b)) 0"

definition aesd_circular_buffer_init :: "aesd_circular_buffer \<Rightarrow> aesd_circular_buffer" where
  "aesd_circular_buffer_init b =
     \<lparr>entry = replicate AESDCHAR_MAX_WRITE_OPERATIONS_SUPPORTED null_entry,
      in_offs = 0, out_offs = 0, full = False\<rparr>"

text \<open>
  \<open>AESD_CIRCULAR_BUFFER_FOREACH\<close> visits the slots by index, in array order. The loop expression
  also forms the address of the slot after the last one, which is never dereferenced.
\<close>

definition AESD_CIRCULAR_BUFFER_FOREACH ::
    "(aesd_buffer_entry \<Rightarrow> 's \<Rightarrow> 's) \<Rightarrow> aesd_circular_buffer \<Rightarrow> 's \<Rightarrow> 's" where
  "AESD_CIRCULAR_BUFFER_FOREACH body b s =
     fold body (take AESDCHAR_MAX_WRITE_OPERATIONS_SUPPORTED (entry b)) s"

subsection \<open>The bounded history\<close>

text \<open>
  The specification of the ring: a list of at most \<open>n\<close> items, oldest first, that forgets its
  oldest item when a new one does not fit.
\<close>

definition keep_last :: "nat \<Rightarrow> 'a list \<Rightarrow> 'a list" where
  "keep_last n xs = drop (length xs - n) xs"

lemma length_keep_last [simp]: "length (keep_last n xs) = min n (length xs)"
  by (auto simp: keep_last_def)

lemma keep_last_id: "length xs \<le> n \<Longrightarrow> keep_last n xs = xs"
  by (simp add: keep_last_def)

lemma keep_last_snoc_full: "length xs = n \<Longrightarrow> 0 < n \<Longrightarrow> keep_last n (xs @ [x]) = tl xs @ [x]"
  by (cases xs) (auto simp: keep_last_def)

lemma keep_last_keep_last_snoc: "keep_last n (keep_last n xs @ [x]) = keep_last n (xs @ [x])"
proof (cases "length xs \<le> n")
  case False
  then have "Suc n - n = 1" and "length xs + 1 - n = Suc (length xs - n)" by auto
  then show ?thesis using False
    by (simp add: keep_last_def Suc_diff_le)
qed (simp add: keep_last_id)

lemma map_keep_last: "map f (keep_last n xs) = keep_last n (map f xs)"
  by (simp add: keep_last_def drop_map)

text \<open>What a client of a bounded history may rely on, whatever its representation.\<close>

locale bounded_history =
  fixes empty :: 'b
    and push :: "'b \<Rightarrow> 'e \<Rightarrow> 'b"
    and items :: "'b \<Rightarrow> 'e list"
    and invar :: "'b \<Rightarrow> bool"
    and item_ok :: "'e \<Rightarrow> bool"
    and cap :: nat
  assumes items_empty: "items empty = []"
    and invar_empty: "invar empty"
    and invar_push: "invar b \<Longrightarrow> item_ok e \<Longrightarrow> invar (push b e)"
    and items_push: "invar b \<Longrightarrow> item_ok e \<Longrightarrow> items (push b e) = keep_last cap (items b @ [e])"
begin

lemma run_invar:
  "invar b \<Longrightarrow> list_all item_ok es \<Longrightarrow> invar (foldl push b es)"
  by (induction es arbitrary: b) (auto simp: invar_push)

lemma run_items:
  assumes "invar b" and "list_all item_ok es" and "length (items b) \<le> cap"
  shows "items (foldl push b es) = keep_last cap (items b @ es)"
  using assms
proof (induction es rule: rev_induct)
  case Nil
  then show ?case by (simp add: keep_last_id)
next
  case (snoc e es)
  then have "invar (foldl push b es)" and "item_ok e" by (auto intro: run_invar)
  then have "items (push (foldl push b es) e) = keep_last cap (items (foldl push b es) @ [e])"
    by (rule items_push)
  also have "items (foldl push b es) = keep_last cap (items b @ es)"
    using snoc by simp
  finally show ?case by (simp add: keep_last_keep_last_snoc flip: append_assoc)
qed

lemma run_from_empty:
  "list_all item_ok es \<Longrightarrow> items (foldl push empty es) = keep_last cap es"
  using run_items[of empty es] by (simp add: invar_empty items_empty)

end

subsection \<open>Well-formed rings\<close>

definition cb_wf :: "aesd_circular_buffer \<Rightarrow> bool" where
  "cb_wf b \<longleftrightarrow>
     length (entry b) = 10 \<and> unat (in_offs b) < 10 \<and> unat (out_offs b) < 10 \<and>
     (\<forall>e\<in>set (entry b). buffptr e = Null \<longrightarrow> esize e = 0) \<and>
     (out_offs b = 0 \<and> (\<forall>i<10. buffptr (entry b ! i) = Null \<longleftrightarrow> unat (in_offs b) \<le> i) \<or>
      in_offs b = out_offs b \<and> (\<forall>i<10. buffptr (entry b ! i) \<noteq> Null))"

definition cb_list :: "aesd_circular_buffer \<Rightarrow> aesd_buffer_entry list" where
  "cb_list b = takeWhile (\<lambda>e. buffptr e \<noteq> Null) (rotate (unat (out_offs b)) (entry b))"

lemma cb_wf_length [simp]: "cb_wf b \<Longrightarrow> length (entry b) = 10"
  by (simp add: cb_wf_def)

lemma cb_wf_offs: "cb_wf b \<Longrightarrow> unat (in_offs b) < 10 \<and> unat (out_offs b) < 10"
  by (simp add: cb_wf_def)

lemma length_cb_list: "cb_wf b \<Longrightarrow> length (cb_list b) \<le> 10"
  using length_takeWhile_le[of "\<lambda>e. buffptr e \<noteq> Null" "rotate (unat (out_offs b)) (entry b)"]
  by (simp add: cb_list_def)

lemma cb_wf_cases [consumes 1, case_names filling full]:
  assumes "cb_wf b"
  obtains (filling) "out_offs b = 0" "unat (in_offs b) < 10"
      "\<forall>i<10. buffptr (entry b ! i) = Null \<longleftrightarrow> unat (in_offs b) \<le> i"
    | (full) "in_offs b = out_offs b" "unat (in_offs b) < 10" "\<forall>i<10. buffptr (entry b ! i) \<noteq> Null"
  using assms unfolding cb_wf_def by blast

lemma takeWhile_prefix:
  assumes "n \<le> length xs" "\<forall>i<n. P (xs ! i)" "n < length xs \<Longrightarrow> \<not> P (xs ! n)"
  shows "takeWhile P xs = take n xs"
  using assms by (metis order_le_less takeWhile_eq_take_P_nth length_take min.absorb2 nth_take
      takeWhile_eq_all_conv take_all in_set_conv_nth)

lemma cb_list_filling:
  assumes "cb_wf b" "out_offs b = 0"
    "\<forall>i<10. buffptr (entry b ! i) = Null \<longleftrightarrow> unat (in_offs b) \<le> i"
  shows "cb_list b = take (unat (in_offs b)) (entry b)"
proof -
  have "unat (in_offs b) < 10" "length (entry b) = 10" using assms(1) by (auto dest: cb_wf_offs)
  then have "takeWhile (\<lambda>e. buffptr e \<noteq> Null) (entry b) = take (unat (in_offs b)) (entry b)"
    using assms(3) by (intro takeWhile_prefix) auto
  then show ?thesis using assms(2) by (simp add: cb_list_def)
qed

lemma cb_list_full:
  assumes "cb_wf b" "\<forall>i<10. buffptr (entry b ! i) \<noteq> Null"
  shows "cb_list b = rotate (unat (out_offs b)) (entry b)"
proof -
  have "\<forall>e\<in>set (entry b). buffptr e \<noteq> Null"
    using assms by (auto simp: in_set_conv_nth)
  then show ?thesis by (simp add: cb_list_def takeWhile_eq_all_conv)
qed

subsection \<open>Storing an entry\<close>

lemma unat_succ_offs: "unat (w :: u8) < 10 \<Longrightarrow> unat (w + 1) = Suc (unat w)"
  by (simp add: unat_word_ariths)

lemma advance_in_offs_simps [simp]:
  "entry (advance_in_offs b) = entry b"
  "out_offs (advance_in_offs b) = out_offs b"
  by (simp_all add: advance_in_offs_def Let_def)

lemma advance_out_offs_simps [simp]:
  "entry (advance_out_offs b) = entry b"
  "in_offs (advance_out_offs b) = in_offs b"
  "(advance_out_offs b)\<lparr>out_offs := x\<rparr> = b\<lparr>out_offs := x\<rparr>"
  by (simp_all add: advance_out_offs_def Let_def)

lemma unat_wrap_offs:
  fixes w :: u8
  assumes "unat w < 10"
  shows "unat (if 10 \<le> w + 1 then 0 else w + 1) = Suc (unat w) mod 10"
  using assms by (auto simp: word_le_nat_alt unat_succ_offs mod_Suc)

lemma unat_advance_in_offs:
  "unat (in_offs b) < 10 \<Longrightarrow> unat (in_offs (advance_in_offs b)) = Suc (unat (in_offs b)) mod 10"
  using unat_wrap_offs[of "in_offs b"] by (simp add: advance_in_offs_def split: if_splits)

lemma unat_advance_out_offs:
  "unat (out_offs b) < 10 \<Longrightarrow> unat (out_offs (advance_out_offs b)) = Suc (unat (out_offs b)) mod 10"
  using unat_wrap_offs[of "out_offs b"] by (simp add: advance_out_offs_def split: if_splits)

lemma rotate_Suc_update:
  assumes "k < length xs"
  shows "rotate (Suc k mod length xs) (xs[k := e]) = tl (rotate k xs) @ [e]"
proof (cases "Suc k = length xs")
  case True
  then have "drop k xs = [xs ! k]" using assms by (metis Cons_nth_drop_Suc drop_all order_refl)
  with True assms show ?thesis
    by (simp add: rotate_drop_take upd_conv_take_nth_drop)
next
  case False
  with assms have "Suc k < length xs" by simp
  with assms show ?thesis
    by (simp add: rotate_drop_take drop_Suc tl_drop take_Suc_conv_app_nth flip: drop_Suc)
qed

definition cb_push :: "aesd_circular_buffer \<Rightarrow> aesd_buffer_entry \<Rightarrow> aesd_circular_buffer" where
  "cb_push b e =
     (case store_entry b (buffptr e) (esize e) of Inl _ \<Rightarrow> b | Inr (b', _) \<Rightarrow> b')"

lemma store_entry_filling:
  fixes p :: cptr and n :: size_t
  assumes wf: "cb_wf b" and out: "out_offs b = 0" and p: "p \<noteq> Null"
    and slots: "\<forall>i<10. buffptr (entry b ! i) = Null \<longleftrightarrow> unat (in_offs b) \<le> i"
  defines "e \<equiv> \<lparr>buffptr = p, esize = n\<rparr>"
  obtains b' where "store_entry b p n = Inr (b', Null)" "cb_wf b'" "cb_list b' = cb_list b @ [e]"
proof
  define k where "k = unat (in_offs b)"
  have k: "k < 10" and len: "length (entry b) = 10" using wf by (auto simp: k_def dest: cb_wf_offs)
  define b' where "b' = advance_in_offs (b\<lparr>entry := (entry b)[k := e]\<rparr>)"
  have in': "unat (in_offs b') = Suc k mod 10"
    using k unat_advance_in_offs[of "b\<lparr>entry := (entry b)[k := e]\<rparr>"] by (simp add: b'_def k_def)
  have ent': "entry b' = (entry b)[k := e]" "out_offs b' = 0" using out by (simp_all add: b'_def)
  show "store_entry b p n = Inr (b', Null)"
    using k len slots by (simp add: store_entry_def entry_at_def b'_def e_def k_def)
  have len': "length (entry b') = 10" using len by (simp add: ent')
  have null': "\<forall>i<10. buffptr (entry b' ! i) = Null \<longleftrightarrow> Suc k \<le> i"
    using k len slots p by (auto simp: ent' nth_list_update e_def k_def)
  have size0: "\<forall>x\<in>set (entry b'). buffptr x = Null \<longrightarrow> esize x = 0"
    using wf p set_update_subset_insert[of "entry b" k e]
    by (fastforce simp: cb_wf_def ent' e_def)
  show wf': "cb_wf b'"
  proof (cases "Suc k = 10")
    case True
    then have "in_offs b' = out_offs b'" "\<forall>i<10. buffptr (entry b' ! i) \<noteq> Null"
      using in' null' ent'(2) by (auto simp: unat_eq_zero)
    then show ?thesis using size0 len ent' by (simp add: cb_wf_def)
  next
    case False
    then show ?thesis using size0 len ent' k in' null' by (simp add: cb_wf_def)
  qed
  have "cb_list b' = takeWhile (\<lambda>e. buffptr e \<noteq> Null) (entry b')"
    by (simp add: cb_list_def ent')
  also have "\<dots> = take (Suc k) (entry b')"
    using null' k len' by (intro takeWhile_prefix) auto
  also have "\<dots> = take k (entry b) @ [e]"
    using k len by (simp add: ent' take_Suc_conv_app_nth)
  finally show "cb_list b' = cb_list b @ [e]"
    using cb_list_filling[OF wf out slots] by (simp add: k_def)
qed

lemma store_entry_full:
  fixes p :: cptr and n :: size_t
  assumes wf: "cb_wf b" and io: "in_offs b = out_offs b" and p: "p \<noteq> Null"
    and slots: "\<forall>i<10. buffptr (entry b ! i) \<noteq> Null"
  defines "e \<equiv> \<lparr>buffptr = p, esize = n\<rparr>"
  obtains b' where "store_entry b p n = Inr (b', buffptr (hd (cb_list b)))" "cb_wf b'"
    "cb_list b' = tl (cb_list b) @ [e]"
proof
  define k where "k = unat (out_offs b)"
  have k: "k < 10" and len: "length (entry b) = 10" using wf by (auto simp: k_def dest: cb_wf_offs)
  define b1 where "b1 = (advance_out_offs b)\<lparr>entry := (entry b)[k := e]\<rparr>"
  define b' where "b' = advance_in_offs b1"
  have in': "unat (in_offs b') = Suc k mod 10"
    using k io unat_advance_in_offs[of b1] by (simp add: b'_def b1_def k_def)
  have out': "unat (out_offs b') = Suc k mod 10"
    using k unat_advance_out_offs[of b] by (simp add: b'_def b1_def k_def)
  have ent': "entry b' = (entry b)[k := e]" by (simp_all add: b'_def b1_def)
  have nn: "\<forall>i<10. buffptr (entry b' ! i) \<noteq> Null"
    using k len slots p by (auto simp: ent' nth_list_update e_def)
  have hd: "hd (cb_list b) = entry b ! k"
    using cb_list_full[OF wf slots] k len by (subst hd_conv_nth) (auto simp: k_def nth_rotate)
  show "store_entry b p n = Inr (b', buffptr (hd (cb_list b)))"
  proof -
    have "entry_at b (in_offs b) = Inr (entry b ! k)"
      using k len io by (simp add: entry_at_def k_def)
    moreover have "buffptr (entry b ! k) \<noteq> Null" using slots k by blast
    moreover have "unat (in_offs b) = k" by (simp add: io k_def)
    ultimately show ?thesis by (simp add: store_entry_def hd b'_def b1_def e_def)
  qed
  have len': "length (entry b') = 10" using len by (simp add: ent')
  have "in_offs b' = out_offs b'" using in' out' by (simp only: word_unat_eq_iff)
  moreover have "\<forall>x\<in>set (entry b'). buffptr x \<noteq> Null"
    using nn len' by (metis in_set_conv_nth)
  moreover have "unat (in_offs b') < 10" "unat (out_offs b') < 10"
    by (simp_all add: in' out')
  ultimately show wf': "cb_wf b'"
    using nn len' unfolding cb_wf_def by blast
  have "cb_list b' = rotate (Suc k mod length (entry b)) ((entry b)[k := e])"
    using cb_list_full[OF wf' nn] out' len ent' by simp
  then show "cb_list b' = tl (cb_list b) @ [e]"
    using rotate_Suc_update[of k "entry b" e] cb_list_full[OF wf slots] k len by (simp add: k_def)
qed

text \<open>
  Storing into a well-formed ring never leaves the array, keeps the ring well-formed, and
  updates the bounded history; the pointer it returns is the one that fell out.
\<close>

lemma store_entry_spec:
  fixes p :: cptr and n :: size_t
  assumes wf: "cb_wf b" and p: "p \<noteq> Null"
  obtains b' where
    "store_entry b p n =
       Inr (b', if length (cb_list b) = 10 then buffptr (hd (cb_list b)) else Null)"
    "cb_wf b'" "cb_list b' = keep_last 10 (cb_list b @ [\<lparr>buffptr = p, esize = n\<rparr>])"
  using wf
proof (cases rule: cb_wf_cases)
  case filling
  have "length (cb_list b) < 10"
    using cb_list_filling[OF wf filling(1,3)] filling(2) by simp
  moreover obtain b' where "store_entry b p n = Inr (b', Null)" "cb_wf b'"
      "cb_list b' = cb_list b @ [\<lparr>buffptr = p, esize = n\<rparr>]"
    using store_entry_filling[OF wf filling(1) p filling(3)] by metis
  ultimately show ?thesis using that[of b'] by (simp add: keep_last_id)
next
  case full
  have "length (cb_list b) = 10"
    using cb_list_full[OF wf full(3)] wf by simp
  moreover obtain b' where "store_entry b p n = Inr (b', buffptr (hd (cb_list b)))" "cb_wf b'"
      "cb_list b' = tl (cb_list b) @ [\<lparr>buffptr = p, esize = n\<rparr>]"
    using store_entry_full[OF wf full(1) p full(3)] by metis
  ultimately show ?thesis using that[of b'] by (simp add: keep_last_snoc_full)
qed

lemma cb_push_spec:
  assumes "cb_wf b" "buffptr e \<noteq> Null"
  shows "cb_wf (cb_push b e)" "cb_list (cb_push b e) = keep_last 10 (cb_list b @ [e])"
proof -
  obtain b' where b': "store_entry b (buffptr e) (esize e) =
      Inr (b', if length (cb_list b) = 10 then buffptr (hd (cb_list b)) else Null)"
    "cb_wf b'" "cb_list b' = keep_last 10 (cb_list b @ [\<lparr>buffptr = buffptr e, esize = esize e\<rparr>])"
    by (rule store_entry_spec[OF assms])
  then have "cb_push b e = b'" by (simp add: cb_push_def)
  with b'(2,3) show "cb_wf (cb_push b e)" "cb_list (cb_push b e) = keep_last 10 (cb_list b @ [e])"
    by (cases e; simp)+
qed

lemma cb_wf_init: "cb_wf (aesd_circular_buffer_init b)"
  by (auto simp: cb_wf_def aesd_circular_buffer_init_def AESDCHAR_MAX_WRITE_OPERATIONS_SUPPORTED_def)

lemma cb_list_init: "cb_list (aesd_circular_buffer_init b) = []"
  by (simp add: cb_list_def aesd_circular_buffer_init_def AESDCHAR_MAX_WRITE_OPERATIONS_SUPPORTED_def)

interpretation ring: bounded_history "aesd_circular_buffer_init b0" cb_push cb_list cb_wf
    "\<lambda>e. buffptr e \<noteq> Null" 10 for b0
  by unfold_locales (auto simp: cb_wf_init cb_list_init cb_push_spec)

subsection \<open>Finding a file position\<close>

text \<open>The walk over the sizes of the stored entries that the search implements.\<close>

fun locate :: "nat list \<Rightarrow> nat \<Rightarrow> (nat \<times> nat) option" where
  "locate [] pos = None"
| "locate (n # ns) pos =
     (if pos < n then Some (0, pos) else map_option (apfst Suc) (locate ns (pos - n)))"

lemma locate_None: "locate ns pos = None \<longleftrightarrow> sum_list ns \<le> pos"
proof (induction ns arbitrary: pos)
  case (Cons n ns)
  then show ?case by (cases "pos < n") (simp_all add: le_diff_conv2 add.commute)
qed simp

lemma locate_Some:
  "locate ns pos = Some (k, off) \<longleftrightarrow>
     k < length ns \<and> off < ns ! k \<and> pos = sum_list (take k ns) + off"
proof (induction ns arbitrary: pos k)
  case (Cons n ns)
  show ?case
  proof (cases "pos < n")
    case True
    then show ?thesis by (cases k) auto
  next
    case pos: False
    show ?thesis
    proof (cases k)
      case (Suc j)
      have "locate (n # ns) pos = Some (k, off) \<longleftrightarrow> locate ns (pos - n) = Some (j, off)"
        using pos Suc by auto
      also have "\<dots> \<longleftrightarrow> j < length ns \<and> off < ns ! j \<and> pos - n = sum_list (take j ns) + off"
        by (rule Cons.IH)
      also have "pos - n = sum_list (take j ns) + off \<longleftrightarrow> pos = n + sum_list (take j ns) + off"
        using pos by linarith
      finally show ?thesis by (simp only: Suc length_Cons Suc_less_eq nth_Cons_Suc take_Suc_Cons sum_list.Cons)
    next
      case 0
      then show ?thesis using pos by simp
    qed
  qed
qed simp

lemma locate_concat:
  "locate (map length ss) pos = Some (k, off) \<Longrightarrow> drop pos (concat ss) = drop off (ss ! k) @ concat (drop (Suc k) ss)"
proof (induction ss arbitrary: pos k)
  case (Cons s ss)
  show ?case
  proof (cases "pos < length s")
    case True
    then show ?thesis using Cons.prems by auto
  next
    case False
    then obtain j where "locate (map length ss) (pos - length s) = Some (j, off)" "k = Suc j"
      using Cons.prems by auto
    then show ?thesis using Cons.IH False by simp
  qed
qed simp

definition slot_sizes :: "aesd_circular_buffer \<Rightarrow> nat list" where
  "slot_sizes b = map (unat \<circ> esize) (rotate (unat (out_offs b)) (entry b))"

lemma length_slot_sizes [simp]: "length (slot_sizes b) = length (entry b)"
  by (simp add: slot_sizes_def)

lemma slot_sizes_nth:
  assumes "length (entry b) = 10" "unat (out_offs b) < 10" "j < 10"
  shows "slot_sizes b ! j = unat (esize (entry b ! ((unat (out_offs b) + j) mod 10)))"
  using assms by (simp add: slot_sizes_def nth_rotate)

lemma advance_out_offs_eq:
  "advance_out_offs b = b\<lparr>out_offs := (if 10 \<le> out_offs b + 1 then 0 else out_offs b + 1)\<rparr>"
  by (simp add: advance_out_offs_def)

text \<open>
  The loop invariant of the search: after \<open>j\<close> rounds \<open>out_offs\<close> has moved \<open>j\<close> slots and
  \<open>total_end_entry\<close> is the total size of those slots, which does not exceed the position.
\<close>

lemma find_loop_unfold:
  assumes "entry_at (b\<lparr>out_offs := o'\<rparr>) o' = Inr en"
    and "unat (esize en + t) = unat (esize en) + unat t" and "unat t \<le> unat pos"
  shows "find_loop pos r (b\<lparr>out_offs := o'\<rparr>) t (int j) =
    (if unat (esize en) + unat t \<le> unat pos then
       if 9 \<le> j then Some (Inr (b\<lparr>out_offs := r\<rparr>, None))
       else find_loop pos r (b\<lparr>out_offs := if 10 \<le> o' + 1 then 0 else o' + 1\<rparr>)
              (esize en + t) (int j + 1)
     else Some (Inr (b\<lparr>out_offs := r\<rparr>, Some (o', pos - t))))"
proof -
  have "esize en + t \<le> pos \<longleftrightarrow> unat (esize en) + unat t \<le> unat pos" and "t \<le> pos"
    using assms(2,3) by (simp_all add: word_le_nat_alt)
  moreover have "int BUFFER_SIZE \<le> int j + 1 \<longleftrightarrow> 9 \<le> j"
    by (auto simp: BUFFER_SIZE_def)
  ultimately show ?thesis
    by (subst find_loop.simps) (simp add: assms(1) advance_out_offs_eq)
qed

lemma of_nat_diff_word:
  "unat (t :: size_t) \<le> unat pos \<Longrightarrow> of_nat (unat pos - unat t) = pos - t"
  by simp

lemma o_eq: "unat (w :: u8) = n \<Longrightarrow> of_nat n = w"
  by auto

lemma find_loop_facts:
  assumes len: "length (entry b) = 10" and o0: "unat (out_offs b) < 10"
    and sum: "sum_list (slot_sizes b) < 2 ^ 64"
    and j: "j < 10"
    and o: "unat o' = (unat (out_offs b) + j) mod 10"
    and t: "unat (t :: size_t) = sum_list (take j (slot_sizes b))"
  obtains en where
    "entry_at (b\<lparr>out_offs := o'\<rparr>) o' = Inr en"
    "drop j (slot_sizes b) = unat (esize en) # drop (Suc j) (slot_sizes b)"
    "unat (esize en + t) = sum_list (take (Suc j) (slot_sizes b))"
    "unat (esize en + t) = unat (esize en) + unat t"
proof
  let ?S = "slot_sizes b" and ?en = "entry b ! ((unat (out_offs b) + j) mod 10)"
  have S: "length ?S = 10" "?S ! j = unat (esize ?en)"
    using len o0 j by (simp_all add: slot_sizes_nth)
  show "entry_at (b\<lparr>out_offs := o'\<rparr>) o' = Inr ?en"
    using len o by (simp add: entry_at_def)
  show "drop j ?S = unat (esize ?en) # drop (Suc j) ?S"
    using S j by (metis Cons_nth_drop_Suc)
  have take: "sum_list (take (Suc j) ?S) = unat (esize ?en) + unat t"
    using S j t by (simp add: take_Suc_conv_app_nth)
  then have "unat (esize ?en) + unat t < 2 ^ 64"
    using sum sum_list_take_le[of "Suc j" ?S] by linarith
  then show "unat (esize ?en + t) = unat (esize ?en) + unat t"
    by (simp add: unat_word_ariths)
  then show "unat (esize ?en + t) = sum_list (take (Suc j) ?S)"
    using take by simp
qed

lemma find_loop_locate:
  assumes len: "length (entry b) = 10" and o0: "unat (out_offs b) < 10"
    and sum: "sum_list (slot_sizes b) < 2 ^ 64"
    and j: "j < 10" and pos: "sum_list (take j (slot_sizes b)) \<le> unat pos"
    and o: "unat o' = (unat (out_offs b) + j) mod 10"
    and t: "unat t = sum_list (take j (slot_sizes b))"
  shows "find_loop pos (out_offs b) (b\<lparr>out_offs := o'\<rparr>) t (int j) =
    Some (Inr (b, case locate (drop j (slot_sizes b)) (unat pos - unat t) of None \<Rightarrow> None
      | Some (k, off) \<Rightarrow> Some (of_nat ((unat (out_offs b) + j + k) mod 10), of_nat off)))"
  using j pos o t
proof (induction "9 - j" arbitrary: j o' t)
  case (0 j o' t)
  then have j: "9 \<le> j" "drop (Suc j) (slot_sizes b) = []" using len by auto
  obtain en where en: "entry_at (b\<lparr>out_offs := o'\<rparr>) o' = Inr en"
      "drop j (slot_sizes b) = unat (esize en) # drop (Suc j) (slot_sizes b)"
      "unat (esize en + t) = unat (esize en) + unat t"
    using find_loop_facts[OF len o0 sum 0(2,4,5)] by metis
  have t: "unat t \<le> unat pos" using 0 by simp
  show ?case
    using t j(1) o_eq[OF 0(4)]
    by (simp add: find_loop_unfold[OF en(1,3) t] en(2) j(2) of_nat_diff_word
        less_diff_conv2[OF t] not_le del: drop_eq_Nil)
next
  case (Suc m j o' t)
  obtain en where en: "entry_at (b\<lparr>out_offs := o'\<rparr>) o' = Inr en"
      "drop j (slot_sizes b) = unat (esize en) # drop (Suc j) (slot_sizes b)"
      "unat (esize en + t) = sum_list (take (Suc j) (slot_sizes b))"
      "unat (esize en + t) = unat (esize en) + unat t"
    using find_loop_facts[OF len o0 sum Suc(3,5,6)] by metis
  have t: "unat t \<le> unat pos" using Suc by simp
  show ?case
  proof (cases "unat (esize en) + unat t \<le> unat pos")
    case True
    have "unat (if 10 \<le> o' + 1 then 0 else o' + 1) = (unat (out_offs b) + Suc j) mod 10"
      using unat_wrap_offs[of o'] Suc(5) by (simp add: mod_Suc_eq)
    from Suc(1)[OF _ _ _ this en(3)] have "find_loop pos (out_offs b)
        (b\<lparr>out_offs := if 10 \<le> o' + 1 then 0 else o' + 1\<rparr>) (esize en + t) (int j + 1) =
      Some (Inr (b, case locate (drop (Suc j) (slot_sizes b)) (unat pos - unat (esize en + t)) of
        None \<Rightarrow> None
      | Some (k, off) \<Rightarrow> Some (of_nat ((unat (out_offs b) + Suc j + k) mod 10), of_nat off)))"
      using Suc(2) True en by (simp add: add.commute)
    then show ?thesis
      using True Suc(2) t
      by (simp add: find_loop_unfold[OF en(1,4) t] en(2,4) less_diff_conv2[OF t] diff_diff_eq
          add.commute[of "unat t"] split: option.split)
  next
    case False
    then show ?thesis
      using t o_eq[OF Suc(5)] 
      by (simp add: find_loop_unfold[OF en(1,4) t] en(2) of_nat_diff_word less_diff_conv2[OF t])
  qed
qed

text \<open>The search stops whatever the sizes are, even where their sum wraps around.\<close>

lemma find_loop_returns:
  assumes "length (entry b) = 10" "unat (out_offs b) < 10" "j < 10" "t \<le> pos"
  shows "\<exists>r. find_loop pos r0 b t (int j) = Some (Inr (b\<lparr>out_offs := r0\<rparr>, r))"
  using assms
proof (induction "9 - j" arbitrary: j b t)
  case 0
  then show ?case
    by (subst find_loop.simps) (auto simp: entry_at_def BUFFER_SIZE_def)
next
  case (Suc m)
  let ?en = "entry b ! unat (out_offs b)"
  have at: "entry_at b (out_offs b) = Inr ?en" using Suc.prems by (simp add: entry_at_def)
  have "\<exists>r. find_loop pos r0 (advance_out_offs b) (esize ?en + t) (int (Suc j)) =
      Some (Inr ((advance_out_offs b)\<lparr>out_offs := r0\<rparr>, r))" if "esize ?en + t \<le> pos"
    using Suc.hyps(2) Suc.prems that unat_advance_out_offs[of b] by (intro Suc.hyps(1)) auto
  then show ?case
    using Suc.prems Suc.hyps(2)
    by (subst find_loop.simps) (auto simp: at BUFFER_SIZE_def add.commute)
qed

lemma find_returns:
  assumes "length (entry b) = 10" "unat (out_offs b) < 10"
  shows "\<exists>r. aesd_circular_buffer_find_entry_offset_for_fpos b pos = Some (Inr (b, r))"
  using find_loop_returns[OF assms, of 0 0 pos "out_offs b"]
  by (simp add: aesd_circular_buffer_find_entry_offset_for_fpos_def)

lemma find_locate:
  assumes "length (entry b) = 10" "unat (out_offs b) < 10" "sum_list (slot_sizes b) < 2 ^ 64"
  shows "aesd_circular_buffer_find_entry_offset_for_fpos b pos =
    Some (Inr (b, case locate (slot_sizes b) (unat pos) of None \<Rightarrow> None
      | Some (k, off) \<Rightarrow> Some (of_nat ((unat (out_offs b) + k) mod 10), of_nat off)))"
  using find_loop_locate[OF assms, of 0 pos "out_offs b" 0] assms(2)
  by (simp add: aesd_circular_buffer_find_entry_offset_for_fpos_def split: option.split)

lemma locate_replicate_0: "locate (ns @ replicate k 0) pos = locate ns pos"
proof (induction ns arbitrary: pos)
  case Nil
  show ?case by (induction k) auto
qed auto

lemma dropWhile_replicate_null:
  assumes "cb_wf b"
  shows "dropWhile (\<lambda>e. buffptr e \<noteq> Null) (rotate (unat (out_offs b)) (entry b)) =
    replicate (10 - length (cb_list b)) null_entry"
  using assms
proof (cases rule: cb_wf_cases)
  case filling
  let ?k = "unat (in_offs b)"
  have "dropWhile (\<lambda>e. buffptr e \<noteq> Null) (entry b) = drop ?k (entry b)"
    using cb_list_filling[OF assms filling(1,3)] filling(1)
      dropWhile_eq_drop[of "\<lambda>e. buffptr e \<noteq> Null" "entry b"] filling(2) assms
    by (simp add: cb_list_def)
  moreover have "drop ?k (entry b) = replicate (10 - ?k) null_entry"
  proof (rule nth_equalityI)
    show "drop ?k (entry b) ! i = replicate (10 - ?k) null_entry ! i"
      if "i < length (drop ?k (entry b))" for i
    proof -
      have i: "?k + i < 10" using that assms by simp
      then have "buffptr (entry b ! (?k + i)) = Null" using filling(3) by simp
      moreover have "entry b ! (?k + i) \<in> set (entry b)" using i assms by simp
      ultimately have "entry b ! (?k + i) = null_entry"
        using assms by (cases "entry b ! (?k + i)") (auto simp: cb_wf_def)
      then show ?thesis using i assms by simp
    qed
  qed (use assms in simp)
  ultimately show ?thesis
    using cb_list_filling[OF assms filling(1,3)] filling(1,2) assms by simp
next
  case full
  then have "\<forall>e\<in>set (entry b). buffptr e \<noteq> Null"
    using assms by (metis cb_wf_length in_set_conv_nth)
  then have "dropWhile (\<lambda>e. buffptr e \<noteq> Null) (rotate (unat (out_offs b)) (entry b)) = []"
    by (simp add: dropWhile_eq_Nil_conv)
  moreover have "length (cb_list b) = 10" using cb_list_full[OF assms full(3)] assms by simp
  ultimately show ?thesis by simp
qed

lemma rotated_slots:
  "cb_wf b \<Longrightarrow> rotate (unat (out_offs b)) (entry b) =
     cb_list b @ replicate (10 - length (cb_list b)) null_entry"
  by (metis cb_list_def dropWhile_replicate_null takeWhile_dropWhile_id)

lemma slot_sizes_cb_list:
  "cb_wf b \<Longrightarrow> slot_sizes b =
     map (unat \<circ> esize) (cb_list b) @ replicate (10 - length (cb_list b)) 0"
  by (simp add: slot_sizes_def rotated_slots)

lemma entry_cases:
  assumes "cb_wf b" "e \<in> set (entry b)"
  shows "e = null_entry \<or> e \<in> set (cb_list b)"
proof -
  have "e \<in> set (rotate (unat (out_offs b)) (entry b))" using assms(2) by simp
  then show ?thesis by (auto simp only: rotated_slots[OF assms(1)] set_append set_replicate_conv_if split: if_splits)
qed

end
