(* ===== verification/Ring_Contents.thy ===== *)
theory Ring_Contents
  imports Circular_Buffer
begin

text \<open>
  The ring together with the heap: every stored entry points to its own live block that holds a
  NUL-terminated string whose length is the recorded size. Under this invariant the operations
  of \<open>aesd-circular-buffer.c\<close> are fault-free and act on the list of stored strings.
\<close>

subsection \<open>Contents and ownership\<close>

definition entry_string :: "kmem \<Rightarrow> aesd_buffer_entry \<Rightarrow> string" where
  "entry_string h e =
     (case buffptr e of Null \<Rightarrow> []
      | Ptr a \<Rightarrow> (case chars h a of None \<Rightarrow> [] | Some bs \<Rightarrow> takeWhile (\<lambda>c. c \<noteq> NUL) bs))"

definition entry_ok :: "kmem \<Rightarrow> aesd_buffer_entry \<Rightarrow> bool" where
  "entry_ok h e \<longleftrightarrow>
     (\<exists>a s r. buffptr e = Ptr a \<and> chars h a = Some (s @ NUL # r) \<and> NUL \<notin> set s \<and>
        length s < 2 ^ 31 \<and> esize e = of_nat (length s))"

definition cb_strings :: "kmem \<Rightarrow> aesd_circular_buffer \<Rightarrow> string list" where
  "cb_strings h b = map (entry_string h) (cb_list b)"

definition cb_mem :: "kmem \<Rightarrow> aesd_circular_buffer \<Rightarrow> bool" where
  "cb_mem h b \<longleftrightarrow>
     cb_wf b \<and> list_all (entry_ok h) (cb_list b) \<and> distinct (map buffptr (cb_list b))"

definition cb_addrs :: "aesd_circular_buffer \<Rightarrow> addr set" where
  "cb_addrs b = {a. Ptr a \<in> buffptr ` set (cb_list b)}"

lemma takeWhile_NUL: "NUL \<notin> set s \<Longrightarrow> takeWhile (\<lambda>c. c \<noteq> NUL) (s @ NUL # r) = s"
  by (induction s) auto

lemma entry_okE:
  assumes "entry_ok h e"
  obtains a s r where "buffptr e = Ptr a" "chars h a = Some (s @ NUL # r)" "NUL \<notin> set s"
    "length s < 2 ^ 31" "esize e = of_nat (length s)" "entry_string h e = s" "unat (esize e) = length s"
  using assms that unfolding entry_ok_def entry_string_def
  by (auto simp: takeWhile_NUL unat_of_nat_64)

lemma entry_ok_size: "entry_ok h e \<Longrightarrow> unat (esize e) = length (entry_string h e)"
  by (elim entry_okE) simp

lemma entry_ok_small: "entry_ok h e \<Longrightarrow> length (entry_string h e) < 2 ^ 31"
  by (elim entry_okE) simp

lemma entry_ok_no_NUL: "entry_ok h e \<Longrightarrow> NUL \<notin> set (entry_string h e)"
  by (elim entry_okE) simp

lemma cb_memD [dest]:
  assumes "cb_mem h b"
  shows "cb_wf b" "e \<in> set (cb_list b) \<Longrightarrow> entry_ok h e"
  using assms by (auto simp: cb_mem_def list_all_iff)

text \<open>Entries do not notice changes of blocks they do not own.\<close>

lemma entry_frame:
  assumes "entry_ok h e" and "\<And>a. buffptr e = Ptr a \<Longrightarrow> chars h' a = chars h a"
  shows "entry_ok h' e" "entry_string h' e = entry_string h e"
proof -
  from assms(1) obtain a where "buffptr e = Ptr a" by (elim entry_okE)
  with assms show "entry_ok h' e" "entry_string h' e = entry_string h e"
    by (simp_all add: entry_ok_def entry_string_def)
qed

lemma cb_mem_frame:
  assumes "cb_mem h b" and "\<And>a. a \<in> cb_addrs b \<Longrightarrow> chars h' a = chars h a"
  shows "cb_mem h' b" "cb_strings h' b = cb_strings h b"
proof -
  have "entry_ok h' e \<and> entry_string h' e = entry_string h e" if "e \<in> set (cb_list b)" for e
  proof -
    have "entry_ok h e" using assms(1) that by blast
    moreover have "chars h' a = chars h a" if "buffptr e = Ptr a" for a
      using assms(2) \<open>e \<in> set (cb_list b)\<close> that by (force simp: cb_addrs_def)
    ultimately show ?thesis by (blast intro: entry_frame)
  qed
  then show "cb_mem h' b" "cb_strings h' b = cb_strings h b"
    using assms(1) by (auto simp: cb_mem_def cb_strings_def list_all_iff)
qed

lemma cb_mem_upd:
  assumes "cb_mem h b" "a \<notin> cb_addrs b"
  shows "cb_mem (h\<lparr>chars := (chars h)(a := v)\<rparr>) b"
    "cb_strings (h\<lparr>chars := (chars h)(a := v)\<rparr>) b = cb_strings h b"
  by (rule cb_mem_frame[OF assms(1)]; use assms(2) in auto)+

lemma cb_addrs_live:
  assumes "cb_mem h b" "a \<in> cb_addrs b"
  obtains s r where "chars h a = Some (s @ NUL # r)"
proof -
  from assms(2) obtain e where "e \<in> set (cb_list b)" "buffptr e = Ptr a"
    by (auto simp: cb_addrs_def)
  then show ?thesis using assms(1) that by (metis cb_memD(2) cptr.inject entry_okE)
qed

subsection \<open>Sizes\<close>

lemma cb_mem_sizes:
  "cb_mem h b \<Longrightarrow> map (unat \<circ> esize) (cb_list b) = map length (cb_strings h b)"
  by (auto simp: cb_strings_def entry_ok_size)

lemma cb_mem_slot_sizes:
  "cb_mem h b \<Longrightarrow> slot_sizes b =
     map length (cb_strings h b) @ replicate (10 - length (cb_strings h b)) 0"
  by (subst slot_sizes_cb_list) (auto simp: cb_mem_sizes simp flip: cb_strings_def, simp add: cb_strings_def)

lemma length_cb_strings: "cb_mem h b \<Longrightarrow> length (cb_strings h b) \<le> 10"
  by (auto simp: cb_strings_def intro: length_cb_list)

lemma concat_cb_strings_bound:
  assumes "cb_mem h b"
  shows "length (concat (cb_strings h b)) \<le> 10 * 2 ^ 31"
proof -
  have "sum_list (map length (cb_strings h b)) \<le> length (map length (cb_strings h b)) * 2 ^ 31"
  proof (rule sum_list_le_bound)
    fix x assume "x \<in> set (map length (cb_strings h b))"
    then show "x \<le> 2 ^ 31"
      using assms entry_ok_small by (fastforce simp: cb_strings_def)
  qed
  also have "\<dots> \<le> 10 * 2 ^ 31"
    using length_cb_strings[OF assms] by simp
  finally show ?thesis by (simp add: length_concat)
qed

lemma slot_sizes_sum:
  "cb_mem h b \<Longrightarrow> sum_list (slot_sizes b) = length (concat (cb_strings h b))"
  by (simp add: cb_mem_slot_sizes length_concat)

subsection \<open>Searching\<close>

lemma find_strings:
  assumes "cb_mem h b"
  shows "aesd_circular_buffer_find_entry_offset_for_fpos b pos =
    Some (Inr (b, case locate (map length (cb_strings h b)) (unat pos) of None \<Rightarrow> None
      | Some (k, off) \<Rightarrow> Some (of_nat ((unat (out_offs b) + k) mod 10), of_nat off)))"
proof -
  have "sum_list (slot_sizes b) < 2 ^ 64"
    using concat_cb_strings_bound[OF assms] by (simp add: slot_sizes_sum[OF assms])
  moreover have "length (entry b) = 10" "unat (out_offs b) < 10"
    using cb_memD(1)[OF assms] cb_wf_offs by auto
  ultimately show ?thesis
    using find_locate[of b pos] by (simp only: cb_mem_slot_sizes[OF assms] locate_replicate_0)
qed

lemma cb_list_nth:
  assumes "cb_wf b" "k < length (cb_list b)"
  shows "cb_list b ! k = entry b ! ((unat (out_offs b) + k) mod 10)"
proof -
  have "k < 10" using assms length_cb_list[of b] by simp
  then have "rotate (unat (out_offs b)) (entry b) ! k = entry b ! ((unat (out_offs b) + k) mod 10)"
    using assms(1) by (simp add: nth_rotate)
  then show ?thesis using assms by (simp add: rotated_slots nth_append)
qed

text \<open>The slot the search returns, and the byte it points to.\<close>

lemma find_hit:
  assumes mem: "cb_mem h b" and loc: "locate (map length (cb_strings h b)) (unat pos) = Some (k, off)"
  defines "i \<equiv> of_nat ((unat (out_offs b) + k) mod 10) :: u8"
  shows "aesd_circular_buffer_find_entry_offset_for_fpos b pos = Some (Inr (b, Some (i, of_nat off)))"
    and "unat i < 10" and "entry_at b i = Inr (cb_list b ! k)" and "k < length (cb_list b)"
    and "entry_string h (cb_list b ! k) = cb_strings h b ! k" and "off < length (cb_strings h b ! k)"
    and "unat (of_nat off :: size_t) = off"
    and "drop (unat pos) (concat (cb_strings h b)) =
      drop off (cb_strings h b ! k) @ concat (drop (Suc k) (cb_strings h b))"
proof -
  show "aesd_circular_buffer_find_entry_offset_for_fpos b pos = Some (Inr (b, Some (i, of_nat off)))"
    using find_strings[OF mem, of pos] loc by (simp add: i_def)
  have k: "k < length (cb_list b)" "off < length (cb_strings h b ! k)"
    using loc by (auto simp: locate_Some cb_strings_def)
  then show "k < length (cb_list b)" "off < length (cb_strings h b ! k)" by auto
  have "(unat (out_offs b) + k) mod 10 < 2 ^ 8" by (rule less_trans[of _ 10]) simp_all
  then have ui: "unat i = (unat (out_offs b) + k) mod 10"
    by (simp add: i_def unat_of_nat)
  then show "unat i < 10" by simp
  show "entry_at b i = Inr (cb_list b ! k)"
    using cb_list_nth[OF cb_memD(1)[OF mem] k(1)] cb_memD(1)[OF mem] by (simp add: entry_at_def ui)
  show str: "entry_string h (cb_list b ! k) = cb_strings h b ! k"
    using k(1) by (simp add: cb_strings_def)
  have "length (cb_strings h b ! k) < 2 ^ 31"
    using entry_ok_small[OF cb_memD(2)[OF mem]] k(1) str by (metis nth_mem)
  then show "unat (of_nat off :: size_t) = off"
    using k(2) by (intro unat_of_nat_64) simp
  show "drop (unat pos) (concat (cb_strings h b)) =
      drop off (cb_strings h b ! k) @ concat (drop (Suc k) (cb_strings h b))"
    using loc by (rule locate_concat)
qed

subsection \<open>Printing and adding\<close>

lemma print_slots_ok:
  "\<forall>e\<in>set es. e = null_entry \<or> entry_ok h e \<Longrightarrow>
   print_slots h es = Inr (map (\<lambda>e. if buffptr e = Null then None else Some (entry_string h e)) es)"
proof (induction es)
  case (Cons e es)
  from Cons.prems consider "e = null_entry" | "entry_ok h e" by auto
  then have "print_slot h e = Inr (if buffptr e = Null then None else Some (entry_string h e))"
    by cases (auto simp: print_slot_def elim: entry_okE)
  with Cons show ?case by simp
qed simp

lemma print_ok:
  assumes "cb_mem h b"
  shows "aesd_print_circular_buffer h b =
    Inr (map (\<lambda>e. if buffptr e = Null then None else Some (entry_string h e)) (entry b),
         in_offs b, out_offs b)"
proof -
  have "\<forall>e\<in>set (entry b). e = null_entry \<or> entry_ok h e"
    using entry_cases cb_memD[OF assms] by blast
  then show ?thesis
    using cb_memD(1)[OF assms] by (simp add: aesd_print_circular_buffer_def print_slots_ok)
qed

lemma cb_addrs_disjoint_fresh:
  "cb_mem h b \<Longrightarrow> fresh h a \<or> chars h a = Some [] \<Longrightarrow> a \<notin> cb_addrs b"
  by (auto simp: fresh_def elim!: cb_addrs_live)

lemma keep_last_set: "set (keep_last n xs) \<subseteq> set xs"
  by (auto simp: keep_last_def dest: in_set_dropD)

lemma distinct_keep_last: "distinct xs \<Longrightarrow> distinct (keep_last n xs)"
  by (simp add: keep_last_def)

lemma add_entry_no_memory:
  assumes "buffptr e = Ptr a" "chars h a = Some (s @ NUL # r)" "NUL \<notin> set s" "km h (length s) = None"
  shows "aesd_circular_buffer_add_entry km h b e = Inr (h, b, Null)"
  using assms by (simp add: aesd_circular_buffer_add_entry_def kmalloc_chars_def)

lemma add_entry_stores:
  assumes km: "kmalloc_ok km" and mem: "cb_mem h b"
    and e: "buffptr e = Ptr a" "chars h a = Some (s @ NUL # r)" "NUL \<notin> set s" "length s < 2 ^ 31"
    and a: "a \<notin> cb_addrs b" and alloc: "km h (length s) = Some (a', bs)"
  defines "h' \<equiv> h\<lparr>chars := (chars h)(a' \<mapsto> bs)\<rparr>"
  obtains b' where
    "aesd_circular_buffer_add_entry km h b e =
       Inr (h', b', if length (cb_list b) = 10 then buffptr (hd (cb_list b)) else Null)"
    "cb_mem h' b'" "cb_strings h' b' = keep_last 10 (cb_strings h b @ [s])"
    "cb_list b' = keep_last 10 (cb_list b @ [\<lparr>buffptr = Ptr a, esize = of_nat (length s)\<rparr>])"
proof -
  let ?e = "\<lparr>buffptr = Ptr a, esize = of_nat (length s)\<rparr> :: aesd_buffer_entry"
  have a': "fresh h a' \<or> chars h a' = Some []" using kmalloc_okD(4)[OF km alloc] by blast
  have live: "a' \<noteq> a" using a' e(2) by (auto simp: fresh_def)
  have mem': "cb_mem h' b" "cb_strings h' b = cb_strings h b"
    using cb_mem_upd[OF mem cb_addrs_disjoint_fresh[OF mem a']] by (simp_all add: h'_def)
  obtain b' where b': "store_entry b (Ptr a) (of_nat (length s)) =
      Inr (b', if length (cb_list b) = 10 then buffptr (hd (cb_list b)) else Null)"
    "cb_wf b'" "cb_list b' = keep_last 10 (cb_list b @ [?e])"
    using store_entry_spec[OF cb_memD(1)[OF mem], of "Ptr a" "of_nat (length s)"] by blast
  have eok: "entry_ok h' ?e" "entry_string h' ?e = s"
    using e live by (auto simp: entry_ok_def entry_string_def h'_def takeWhile_NUL)
  have "list_all (entry_ok h') (cb_list b @ [?e])"
    using mem' eok by (auto simp: cb_mem_def)
  moreover have "distinct (map buffptr (cb_list b @ [?e]))"
    using mem a by (auto simp: cb_mem_def cb_addrs_def)
  ultimately have memb': "cb_mem h' b'"
    using b'(2) keep_last_set[of 10 "cb_list b @ [?e]"]
    by (simp add: cb_mem_def b'(3) map_keep_last distinct_keep_last list_all_iff) blast
  have str: "cb_strings h' b' = keep_last 10 (cb_strings h b @ [s])"
    using eok(2) by (simp add: cb_strings_def[of h' b'] b'(3) map_keep_last mem'(2)
        flip: cb_strings_def)
  have "aesd_circular_buffer_add_entry km h b e =
      Inr (h', b', if length (cb_list b) = 10 then buffptr (hd (cb_list b)) else Null)"
    using e live b'(1) print_ok[OF memb']
    by (simp add: aesd_circular_buffer_add_entry_def kmalloc_chars_def alloc h'_def)
  then show ?thesis using that memb' str b'(3) by blast
qed

text \<open>Which blocks the ring owns after an entry was added.\<close>

lemma cb_addrs_added:
  assumes "cb_mem h b" "cb_list b' = keep_last 10 (cb_list b @ [\<lparr>buffptr = Ptr a, esize = n\<rparr>])"
    "a \<notin> cb_addrs b"
  shows "cb_addrs b' =
    insert a (if length (cb_list b) = 10 then {x \<in> cb_addrs b. Ptr x \<noteq> buffptr (hd (cb_list b))}
              else cb_addrs b)"
proof (cases "length (cb_list b) = 10")
  case True
  then obtain e es where es: "cb_list b = e # es" by (cases "cb_list b") auto
  then have "buffptr e \<notin> buffptr ` set es"
    using assms(1) by (auto simp: cb_mem_def)
  moreover have "cb_list b' = es @ [\<lparr>buffptr = Ptr a, esize = n\<rparr>]"
    using keep_last_snoc_full[OF True] es by (simp add: assms(2))
  ultimately show ?thesis
    using True by (auto simp: cb_addrs_def es)
next
  case False
  then have "length (cb_list b) < 10"
    using length_cb_list[OF cb_memD(1)[OF assms(1)]] by simp
  then show ?thesis using False assms(2) by (auto simp: cb_addrs_def keep_last_id)
qed

subsection \<open>The total size\<close>

lemma length_loop_sum: "length_loop es acc = acc + of_nat (sum_list (map (unat \<circ> esize) es))"
  by (induction es acc rule: length_loop.induct) (simp_all add: algebra_simps)

lemma sum_list_rotate: "sum_list (rotate n xs) = (sum_list xs :: nat)"
proof (induction n)
  case (Suc n)
  have "sum_list (rotate1 ys) = sum_list ys" for ys :: "nat list" by (cases ys) auto
  then show ?case using Suc by simp
qed simp

lemma get_aesd_buffer_length_strings:
  assumes "cb_mem h b"
  shows "get_aesd_buffer_length b = of_nat (length (concat (cb_strings h b)))"
proof -
  have "sum_list (map (unat \<circ> esize) (entry b)) = sum_list (slot_sizes b)"
    unfolding slot_sizes_def rotate_map[symmetric] by (rule sum_list_rotate[symmetric])
  then show ?thesis
    using cb_memD(1)[OF assms] slot_sizes_sum[OF assms]
    by (simp add: get_aesd_buffer_length_def length_loop_sum BUFFER_SIZE_def)
qed

subsection \<open>Properties of the ring\<close>

text \<open>
  C12: \<open>aesd_circular_buffer_find_entry_offset_for_fpos\<close> returns the slot and offset of the byte at
  the given position of the concatenation of the stored strings, oldest first, or nothing when
  the position is past the end; it leaves the buffer as it was.
\<close>

theorem find_entry_offset_correct:
  assumes "cb_mem h b"
  shows "\<exists>r. aesd_circular_buffer_find_entry_offset_for_fpos b pos = Some (Inr (b, r)) \<and>
    (case r of
       None \<Rightarrow> length (concat (cb_strings h b)) \<le> unat pos
     | Some (i, off) \<Rightarrow>
         unat pos < length (concat (cb_strings h b)) \<and> unat i < 10 \<and>
         unat off < length (entry_string h (entry b ! unat i)) \<and>
         entry_string h (entry b ! unat i) ! unat off = concat (cb_strings h b) ! unat pos)"
proof (cases "locate (map length (cb_strings h b)) (unat pos)")
  case None
  then have "aesd_circular_buffer_find_entry_offset_for_fpos b pos = Some (Inr (b, None))"
    using find_strings[OF assms, of pos] by simp
  moreover have "length (concat (cb_strings h b)) \<le> unat pos"
    using None by (simp add: locate_None length_concat)
  ultimately show ?thesis by simp
next
  case (Some ko)
  then obtain k off where loc: "locate (map length (cb_strings h b)) (unat pos) = Some (k, off)"
    by (cases ko) auto
  note hit = find_hit[OF assms loc]
  let ?i = "of_nat ((unat (out_offs b) + k) mod 10) :: u8"
  have lt: "unat pos < length (concat (cb_strings h b))"
    using loc locate_None[of "map length (cb_strings h b)" "unat pos"]
    by (simp add: length_concat not_le[symmetric])
  have str: "entry_string h (entry b ! unat ?i) = cb_strings h b ! k"
    using hit(3,5) by (simp add: entry_at_def split: if_splits)
  have "concat (cb_strings h b) ! unat pos = (cb_strings h b ! k) ! off"
    using hit(6,8) lt by (metis append_Cons hd_append2 hd_drop_conv_nth drop_eq_Nil linorder_not_less)
  then show ?thesis using hit lt str by auto
qed

text \<open>
  C20: the search ends and restores \<open>out_offs\<close> for every ring of ten slots and every position, even
  when the recorded sizes are arbitrary and their sum wraps around.
\<close>

theorem find_entry_offset_terminates:
  assumes "length (entry b) = 10" "unat (out_offs b) < 10"
  shows "\<exists>r. aesd_circular_buffer_find_entry_offset_for_fpos b pos = Some (Inr (b, r))"
  by (rule find_returns[OF assms])

text \<open>
  C13: adding an entry whose block holds a string stores exactly that string as the newest command,
  keeps the ten newest, and returns the pointer that fell out of a full ring, or null.
\<close>

theorem add_entry_keeps_last_ten:
  assumes "kmalloc_ok km" "cb_mem h b" "buffptr e = Ptr a" "chars h a = Some (s @ NUL # r)"
    "NUL \<notin> set s" "length s < 2 ^ 31" "a \<notin> cb_addrs b" "km h (length s) \<noteq> None"
  shows "\<exists>h' b'. aesd_circular_buffer_add_entry km h b e =
      Inr (h', b', if length (cb_list b) = 10 then buffptr (hd (cb_list b)) else Null) \<and>
    cb_mem h' b' \<and> cb_strings h' b' = keep_last 10 (cb_strings h b @ [s])"
proof -
  obtain a' bs where al: "km h (length s) = Some (a', bs)" using assms(8) by auto
  show ?thesis by (rule add_entry_stores[OF assms(1-7) al]) blast
qed

text \<open>
  The scratch buffer of \<open>aesd_circular_buffer_add_entry\<close> is leaked by every call that stores an
  entry: it stays allocated, is in no slot of the ring and is not the pointer returned.
\<close>

lemma add_entry_leaks:
  assumes "kmalloc_ok km" "cb_mem h b" "buffptr e = Ptr a" "chars h a = Some (s @ NUL # r)"
    "NUL \<notin> set s" "length s < 2 ^ 31" "a \<notin> cb_addrs b" "km h (length s) \<noteq> None"
  shows "\<exists>h' b' p a'. aesd_circular_buffer_add_entry km h b e = Inr (h', b', p) \<and>
    chars h' a' \<noteq> None \<and> (fresh h a' \<or> s = []) \<and> a' \<notin> cb_addrs b' \<and> p \<noteq> Ptr a'"
proof -
  obtain a' bs where al: "km h (length s) = Some (a', bs)" using assms(8) by auto
  have f: "fresh h a' \<or> chars h a' = Some [] \<and> s = []" using kmalloc_okD(4)[OF assms(1) al] by auto
  define h' where "h' = h\<lparr>chars := (chars h)(a' \<mapsto> bs)\<rparr>"
  obtain b' where b': "aesd_circular_buffer_add_entry km h b e =
       Inr (h', b', if length (cb_list b) = 10 then buffptr (hd (cb_list b)) else Null)"
    "cb_list b' = keep_last 10 (cb_list b @ [\<lparr>buffptr = Ptr a, esize = of_nat (length s)\<rparr>])"
    unfolding h'_def by (rule add_entry_stores[OF assms(1-7) al])
  have a': "a' \<notin> cb_addrs b" "a' \<noteq> a"
    using cb_addrs_disjoint_fresh[OF assms(2), of a'] f assms(4) by (auto simp: fresh_def)
  have "Ptr a' \<noteq> buffptr (hd (cb_list b))" if "length (cb_list b) = 10"
    using a'(1) that by (cases "cb_list b") (auto simp: cb_addrs_def)
  moreover have "a' \<notin> cb_addrs b'" using cb_addrs_added[OF assms(2) b'(2) assms(7)] a' by auto
  ultimately show ?thesis
    using b'(1) f by (intro exI[of _ h'] exI[of _ b'] exI[of _ "if length (cb_list b) = 10 then buffptr (hd (cb_list b)) else Null"]
        exI[of _ a']) (auto simp: h'_def)
qed

text \<open>
  C14: from an initialised ring, any sequence of stored entries leaves exactly the last ten of them,
  oldest first, in a well-formed ring.
\<close>

theorem ring_holds_last_ten:
  assumes "list_all (\<lambda>e. buffptr e \<noteq> Null) es"
  shows "cb_wf (foldl cb_push (aesd_circular_buffer_init b0) es) \<and>
    cb_list (foldl cb_push (aesd_circular_buffer_init b0) es) = keep_last 10 es"
  using ring.run_invar[OF ring.invar_empty assms] ring.run_from_empty[OF assms] by blast

text \<open>
  \<open>get_aesd_buffer_length\<close> is the total length of the stored commands; it cannot overflow.
\<close>

lemma get_aesd_buffer_length_total:
  assumes "cb_mem h b"
  shows "unat (get_aesd_buffer_length b) = length (concat (cb_strings h b)) \<and>
    0 \<le> sint (get_aesd_buffer_length b)"
proof -
  have "length (concat (cb_strings h b)) < 2 ^ 63" using concat_cb_strings_bound[OF assms] by simp
  then show ?thesis
    by (simp add: get_aesd_buffer_length_strings[OF assms] unat_of_nat_64 signed_of_nat signed_take_bit_int_eq_self)
qed

text \<open>
  The iteration macro visits the ten slots in array order: rotated to start at \<open>out_offs\<close>, these
  are the stored entries, oldest first and each once, followed by empty slots.
\<close>

lemma foreach_visits_stored:
  assumes "cb_wf b"
  shows "rotate (unat (out_offs b)) (AESD_CIRCULAR_BUFFER_FOREACH (\<lambda>e es. es @ [e]) b []) =
    cb_list b @ replicate (10 - length (cb_list b)) null_entry"
proof -
  have "fold (\<lambda>e es. es @ [e]) xs acc = acc @ xs" for xs acc :: "aesd_buffer_entry list"
    by (induction xs arbitrary: acc) auto
  then have "AESD_CIRCULAR_BUFFER_FOREACH (\<lambda>e es. es @ [e]) b [] = entry b"
    using assms by (simp add: AESD_CIRCULAR_BUFFER_FOREACH_def AESDCHAR_MAX_WRITE_OPERATIONS_SUPPORTED_def)
  then show ?thesis by (simp add: rotated_slots[OF assms])
qed

end
