(* ===== verification/Aesd_Driver.thy ===== *)
theory Aesd_Driver
  imports Ring_Contents Ioctl_Encoding
begin

text \<open>
  \<open>aesd-char-driver/main.c\<close>: the file operations of \<open>/dev/aesdchar\<close> and the module's init and
  cleanup. The state is the kernel heap and the one \<open>struct aesd_dev\<close>. What the kernel decides
  (whether a lock attempt is interrupted, what the allocator does, whether a copy to or from user
  space succeeds, where a seek goes) is an argument of each operation.
\<close>

subsection \<open>State\<close>

text \<open>
  A \<open>struct aesd_buffer_entry *\<close> is null, a block of its own, or the address of slot \<open>i\<close> of the
  ring at an address: \<open>&buffer->entry[i]\<close>.
\<close>

datatype entry_ptr = ENull | EPtr addr | EIn addr u8

record aesd_dev =
  buffer :: cptr
  buffer_entry :: cptr
  read_entry :: entry_ptr
  end_of_packet :: cint
  first_packet :: cint
  lock :: bool

record kstate =
  mem :: kmem
  dev :: aesd_dev

datatype dev_ptr = NoDev | TheDev

record kfile =
  private_data :: dev_ptr
  f_pos :: loff_t

definition load_cbuf :: "kmem \<Rightarrow> cptr \<Rightarrow> aesd_circular_buffer res" where
  "load_cbuf h p =
     (case p of Null \<Rightarrow> Inl NullDeref
      | Ptr a \<Rightarrow> (case cbufs h a of None \<Rightarrow> Inl UseAfterFree | Some b \<Rightarrow> Inr b))"

definition store_cbuf :: "kmem \<Rightarrow> cptr \<Rightarrow> aesd_circular_buffer \<Rightarrow> kmem" where
  "store_cbuf h p b =
     (case p of Null \<Rightarrow> h | Ptr a \<Rightarrow> h\<lparr>cbufs := (cbufs h)(a \<mapsto> b)\<rparr>)"

definition load_entry :: "kmem \<Rightarrow> cptr \<Rightarrow> aesd_buffer_entry res" where
  "load_entry h p =
     (case p of Null \<Rightarrow> Inl NullDeref
      | Ptr a \<Rightarrow> (case ents h a of None \<Rightarrow> Inl UseAfterFree | Some e \<Rightarrow> Inr e))"

definition store_entry_obj :: "kmem \<Rightarrow> cptr \<Rightarrow> aesd_buffer_entry \<Rightarrow> kmem" where
  "store_entry_obj h p e =
     (case p of Null \<Rightarrow> h | Ptr a \<Rightarrow> h\<lparr>ents := (ents h)(a \<mapsto> e)\<rparr>)"

subsection \<open>The mutex\<close>

text \<open>
  \<open>mutex_lock_interruptible\<close> that is not interrupted takes the lock. Each operation below runs
  while no other thread holds it, so finding it taken means the thread took it itself.
\<close>

definition mutex_lock :: "kstate \<Rightarrow> kstate res" where
  "mutex_lock s =
     (if lock (dev s) then Inl SelfDeadlock else Inr (s\<lparr>dev := (dev s)\<lparr>lock := True\<rparr>\<rparr>))"

definition mutex_unlock :: "kstate \<Rightarrow> kstate res" where
  "mutex_unlock s =
     (if lock (dev s) then Inr (s\<lparr>dev := (dev s)\<lparr>lock := False\<rparr>\<rparr>) else Inl BadUnlock)"

subsection \<open>open and release\<close>

definition aesd_open :: "kfile \<Rightarrow> kfile \<times> cint" where
  "aesd_open filp = (filp\<lparr>private_data := TheDev\<rparr>, 0)"

definition aesd_release :: "kfile \<Rightarrow> kfile \<times> cint" where
  "aesd_release filp = (filp, 0)"

subsection \<open>read\<close>

record read_env =
  r_interrupted :: bool
  r_kmalloc :: kmalloc
  r_copy_ok :: "string \<Rightarrow> bool"

text \<open>The labels \<open>free\<close> and \<open>exit\<close> of \<open>aesd_read\<close>: free the local buffer, unlock, return.\<close>

definition read_exit ::
    "kstate \<Rightarrow> cptr \<Rightarrow> kfile \<Rightarrow> ssize_t \<Rightarrow> string \<Rightarrow> (kstate \<times> kfile \<times> ssize_t \<times> string) res" where
  "read_exit s read_buffer filp retval out =
     res_bind (kfree_chars (mem s) read_buffer) (\<lambda>h.
     res_bind (mutex_unlock (s\<lparr>mem := h\<rparr>)) (\<lambda>s'. Inr (s', filp, retval, out)))"

text \<open>
  The part of \<open>aesd_read\<close> after an entry was found: \<open>e\<close> is \<open>*dev->read_entry\<close>. The source string
  and the copy are read by the debug prints as well.
\<close>

definition read_copy ::
    "read_env \<Rightarrow> kstate \<Rightarrow> kfile \<Rightarrow> aesd_buffer_entry \<Rightarrow> size_t
     \<Rightarrow> (kstate \<times> kfile \<times> ssize_t \<times> string) res" where
  "read_copy env s filp e rtn_byte =
     (let filp' = filp\<lparr>f_pos := f_pos filp + esize e - rtn_byte\<rparr>;
          retval = esize e - rtn_byte
      in case kmalloc_chars (r_kmalloc env) (mem s) (unat (retval * 8)) of (h, read_buffer) \<Rightarrow>
         if read_buffer = Null then read_exit (s\<lparr>mem := h\<rparr>) Null filp' retval []
         else
           res_bind (load_chars h read_buffer) (\<lambda>rb.
           res_bind (c_memset0 rb (unat (retval * 8))) (\<lambda>rb.
           res_bind (load_chars h (buffptr e)) (\<lambda>block.
           if length block < unat rtn_byte then Inl OutOfBounds else
           res_bind (c_string (drop (unat rtn_byte) block)) (\<lambda>_.
           res_bind (c_strncpy rb (drop (unat rtn_byte) block) (unat (esize e - rtn_byte))) (\<lambda>rb.
           res_bind (store_chars h read_buffer rb) (\<lambda>h.
           res_bind (c_strlen rb) (\<lambda>_.
           if length rb < unat (retval + 1) then Inl OutOfBounds
           else if r_copy_ok env (take (unat (retval + 1)) rb)
           then read_exit (s\<lparr>mem := h\<rparr>) read_buffer filp' retval (take (unat (retval + 1)) rb)
           else read_exit (s\<lparr>mem := h\<rparr>) read_buffer filp' (- EFAULT) []))))))))"

text \<open>
  The result is the new state, the file with its position, the return value and the bytes copied
  to the user's buffer. The argument \<open>count\<close> is not used by the code.
\<close>

definition aesd_read ::
    "read_env \<Rightarrow> kstate \<Rightarrow> kfile \<Rightarrow> size_t \<Rightarrow> (kstate \<times> kfile \<times> ssize_t \<times> string) res" where
  "aesd_read env s filp count =
     (if private_data filp = NoDev then Inl NullDeref
      else if r_interrupted env then Inr (s, filp, - ERESTARTSYS, [])
      else
        res_bind (mutex_lock s) (\<lambda>s.
        res_bind (load_cbuf (mem s) (buffer (dev s))) (\<lambda>b.
        case aesd_circular_buffer_find_entry_offset_for_fpos b (f_pos filp) of
          None \<Rightarrow> Inl Diverges
        | Some r \<Rightarrow> res_bind r (\<lambda>(b, found).
            let s = s\<lparr>mem := store_cbuf (mem s) (buffer (dev s)) b\<rparr> in
            case found of
              None \<Rightarrow> res_bind (mutex_unlock (s\<lparr>dev := (dev s)\<lparr>read_entry := ENull\<rparr>\<rparr>))
                       (\<lambda>s. Inr (s, filp, 0, []))
            | Some (i, rtn_byte) \<Rightarrow>
                (case buffer (dev s) of
                   Null \<Rightarrow> Inl NullDeref
                 | Ptr a \<Rightarrow> res_bind (entry_at b i) (\<lambda>e.
                     read_copy env (s\<lparr>dev := (dev s)\<lparr>read_entry := EIn a i\<rparr>\<rparr>) filp e rtn_byte))))))"

subsection \<open>write\<close>

record write_env =
  w_interrupted :: bool
  w_kmalloc :: kmalloc
  w_krealloc :: krealloc
  w_copy :: "nat \<Rightarrow> string option"

text \<open>\<open>exit\<close>: free the local buffer, unlock, return.\<close>

definition write_exit ::
    "kstate \<Rightarrow> cptr \<Rightarrow> kfile \<Rightarrow> ssize_t \<Rightarrow> (kstate \<times> kfile \<times> ssize_t) res" where
  "write_exit s write_buffer filp retval =
     res_bind (kfree_chars (mem s) write_buffer) (\<lambda>h.
     res_bind (mutex_unlock (s\<lparr>mem := h\<rparr>)) (\<lambda>s'. Inr (s', filp, retval)))"

text \<open>
  Memory for the command: a new zeroed block for the first packet, a larger one for a later
  packet. Returns the heap, the entry with its new \<open>buffptr\<close>, and \<open>new_length\<close>.
\<close>

definition write_alloc ::
    "write_env \<Rightarrow> kmem \<Rightarrow> aesd_dev \<Rightarrow> aesd_buffer_entry \<Rightarrow> nat
     \<Rightarrow> (kmem \<times> aesd_buffer_entry \<times> size_t) res" where
  "write_alloc env h d be len =
     (if first_packet d = 0 then
        let new_length = of_nat len + 1 :: size_t in
        case kmalloc_chars (w_kmalloc env) h (unat new_length) of (h, p) \<Rightarrow>
          res_bind (load_chars h p) (\<lambda>bs.
          res_bind (c_memset0 bs (unat new_length)) (\<lambda>bs.
          res_bind (store_chars h p bs) (\<lambda>h. Inr (h, be\<lparr>buffptr := p\<rparr>, new_length))))
      else
        let new_length = esize be + of_nat len + 1 in
        res_bind (krealloc_chars (w_kmalloc env) (w_krealloc env) h (buffptr be) (unat new_length))
          (\<lambda>(h, p). Inr (h, be\<lparr>buffptr := p\<rparr>, new_length)))"

text \<open>The end of a packet: move the entry into the ring and free the entry that fell out.\<close>

definition write_commit ::
    "write_env \<Rightarrow> kstate \<Rightarrow> kfile \<Rightarrow> aesd_buffer_entry \<Rightarrow> (kstate \<times> kfile) res" where
  "write_commit env s filp be =
     res_bind (load_cbuf (mem s) (buffer (dev s))) (\<lambda>b.
     res_bind (aesd_circular_buffer_add_entry (w_kmalloc env) (mem s) b be)
       (\<lambda>(h, b, buffer_to_free).
     let h = store_cbuf h (buffer (dev s)) b;
         filp = filp\<lparr>f_pos := f_pos filp + esize be\<rparr> in
     res_bind
       (if buffer_to_free = Null then Inr h
        else res_bind (load_chars h buffer_to_free) (\<lambda>bs.
             res_bind (c_string bs) (\<lambda>_. kfree_chars h buffer_to_free)))
       (\<lambda>h. Inr (s\<lparr>mem := h, dev := (dev s)\<lparr>first_packet := 0, end_of_packet := 0\<rparr>\<rparr>, filp))))"

text \<open>
  \<open>aesd_write\<close> after \<open>copy_from_user\<close>: \<open>wb\<close> are the bytes of \<open>write_buffer\<close>.
\<close>

definition write_packet ::
    "write_env \<Rightarrow> kstate \<Rightarrow> kfile \<Rightarrow> cptr \<Rightarrow> string \<Rightarrow> size_t \<Rightarrow> (kstate \<times> kfile \<times> ssize_t) res" where
  "write_packet env s filp write_buffer wb count =
     res_bind (c_strchr wb newline) (\<lambda>found.
     let d = (if found \<noteq> None then (dev s)\<lparr>end_of_packet := 1\<rparr> else dev s) in
     res_bind (load_entry (mem s) (buffer_entry d)) (\<lambda>be.
     res_bind (c_strlen wb) (\<lambda>len.
     res_bind (write_alloc env (mem s) d be len) (\<lambda>(h, be, new_length).
     if buffptr be = Null then
       write_exit (s\<lparr>mem := store_entry_obj h (buffer_entry d) be, dev := d\<rparr>) write_buffer filp (- ENOMEM)
     else
       res_bind (load_chars h (buffptr be)) (\<lambda>bs.
       res_bind (c_strcat bs wb) (\<lambda>bs.
       res_bind (store_chars h (buffptr be) bs) (\<lambda>h.
       res_bind (c_string bs) (\<lambda>_.
       let be = be\<lparr>esize := new_length\<rparr>;
           s = s\<lparr>mem := store_entry_obj h (buffer_entry d) be, dev := d\<lparr>first_packet := 1\<rparr>\<rparr> in
       if end_of_packet d = 1 then
         res_bind (write_commit env s filp be) (\<lambda>(s, filp). write_exit s write_buffer filp count)
       else write_exit s write_buffer filp count))))))))"

definition aesd_write ::
    "write_env \<Rightarrow> kstate \<Rightarrow> kfile \<Rightarrow> size_t \<Rightarrow> (kstate \<times> kfile \<times> ssize_t) res" where
  "aesd_write env s filp count =
     (if private_data filp = NoDev then Inl NullDeref
      else if w_interrupted env then Inr (s, filp, - ERESTARTSYS)
      else
        res_bind (mutex_lock s) (\<lambda>s.
        case kmalloc_chars (w_kmalloc env) (mem s) (unat (count * 8)) of (h, write_buffer) \<Rightarrow>
        let s = s\<lparr>mem := h\<rparr> in
        if write_buffer = Null then write_exit s Null filp (- ENOMEM)
        else
          res_bind (load_chars h write_buffer) (\<lambda>wb.
          res_bind (c_memset0 wb (unat (count * 8))) (\<lambda>wb.
          case w_copy env (unat count) of
            None \<Rightarrow> write_exit s write_buffer filp (- EFAULT)
          | Some bytes \<Rightarrow>
              res_bind (mem_write wb 0 bytes) (\<lambda>wb.
              res_bind (store_chars h write_buffer wb) (\<lambda>h.
              write_packet env (s\<lparr>mem := h\<rparr>) filp write_buffer wb count))))))"

subsection \<open>llseek\<close>

text \<open>
  \<open>fixed_size_llseek\<close> is a kernel routine: given the file, the offset, whence and the size, it
  returns the new position or a negative error, and the file it leaves behind.
\<close>

type_synonym llseek = "kfile \<Rightarrow> loff_t \<Rightarrow> cint \<Rightarrow> loff_t \<Rightarrow> loff_t \<times> kfile"

definition aesd_seek ::
    "llseek \<Rightarrow> kstate \<Rightarrow> kfile \<Rightarrow> loff_t \<Rightarrow> cint \<Rightarrow> (kfile \<times> loff_t) res" where
  "aesd_seek fixed_size_llseek s filp offset whence =
     (if private_data filp = NoDev then Inl NullDeref
      else
        res_bind (load_cbuf (mem s) (buffer (dev s))) (\<lambda>b.
        let buffer_size = get_aesd_buffer_length b in
        case fixed_size_llseek filp offset whence buffer_size of (requested_location, filp) \<Rightarrow>
          Inr (filp\<lparr>f_pos := requested_location\<rparr>, requested_location)))"

subsection \<open>ioctl\<close>

text \<open>
  The loop of \<open>aesd_adjust_file_offset\<close> that adds up the sizes of the commands before the wanted
  one. It indexes the array with \<open>out_offs + i\<close>, without reducing it modulo the array size; \<open>n\<close>
  is the number of rounds left, \<open>i\<close> the loop variable.
\<close>

fun offset_loop ::
    "nat \<Rightarrow> aesd_circular_buffer \<Rightarrow> u32 \<Rightarrow> u32 \<Rightarrow> nat \<Rightarrow> size_t \<Rightarrow> size_t res" where
  "offset_loop 0 b cmd_no cmd_offset i total_size = Inr total_size"
| "offset_loop (Suc n) b cmd_no cmd_offset i total_size =
     (let current_out_offs = out_offs b + of_nat i in
      if of_nat i \<noteq> cmd_no then
        res_bind (entry_at b current_out_offs) (\<lambda>e.
          offset_loop n b cmd_no cmd_offset (Suc i) (esize e + total_size))
      else Inr (total_size + ucast cmd_offset))"

definition adjust_fail :: "kstate \<Rightarrow> kfile \<Rightarrow> clong \<Rightarrow> (kstate \<times> kfile \<times> clong) res" where
  "adjust_fail s filp retval = res_bind (mutex_unlock s) (\<lambda>s'. Inr (s', filp, retval))"

definition aesd_adjust_file_offset ::
    "bool \<Rightarrow> kstate \<Rightarrow> kfile \<Rightarrow> u32 \<Rightarrow> u32 \<Rightarrow> (kstate \<times> kfile \<times> clong) res" where
  "aesd_adjust_file_offset interrupted s filp cmd_no cmd_offset =
     (if private_data filp = NoDev then Inl NullDeref
      else if 10 \<le> cmd_no then adjust_fail s filp (- EINVAL)
      else if interrupted then adjust_fail s filp (- ERESTARTSYS)
      else
        res_bind (mutex_lock s) (\<lambda>s.
        res_bind (load_cbuf (mem s) (buffer (dev s))) (\<lambda>b.
        let seeked_out_offs = ucast ((ucast (out_offs b) + cmd_no) mod 10) :: u8 in
        res_bind (entry_at b seeked_out_offs) (\<lambda>e.
        if buffptr e = Null then adjust_fail s filp (- EINVAL)
        else if esize e < ucast cmd_offset then adjust_fail s filp (- EINVAL)
        else res_bind (offset_loop 11 b cmd_no cmd_offset 0 0) (\<lambda>total_size.
             adjust_fail s (filp\<lparr>f_pos := total_size\<rparr>) 0)))))"

text \<open>
  The argument of the ioctl is what \<open>copy_from_user\<close> yields: the \<open>struct aesd_seekto\<close>, or
  \<open>None\<close> when the copy fails. \<open>retval\<close> is an \<open>int\<close>, so the result of the helper is truncated
  to 32 bits and sign-extended again.
\<close>

definition aesd_ioctl ::
    "bool \<Rightarrow> kstate \<Rightarrow> kfile \<Rightarrow> u32 \<Rightarrow> aesd_seekto option \<Rightarrow> (kstate \<times> kfile \<times> clong) res" where
  "aesd_ioctl interrupted s filp cmd arg =
     (if cmd = AESDCHAR_IOCSEEKTO then
        (case arg of
           None \<Rightarrow> Inr (s, filp, EFAULT)
         | Some seekto \<Rightarrow>
             res_bind (aesd_adjust_file_offset interrupted s filp (write_cmd seekto) (write_cmd_offset seekto))
               (\<lambda>(s, filp, r). Inr (s, filp, scast (ucast r :: cint))))
      else Inr (s, filp, - ENOTTY))"

subsection \<open>Module init and cleanup\<close>

text \<open>
  What the module registers with the kernel: the device-number region and the character device.
  \<open>i_region\<close> is the result of \<open>alloc_chrdev_region\<close>, \<open>i_cdev_add\<close> that of \<open>cdev_add\<close>.
\<close>

record module_state =
  kst :: kstate
  region :: bool
  cdev_live :: bool

record init_env =
  i_region :: cint
  i_cdev_add :: cint
  i_kmalloc :: kmalloc
  i_junk_cbuf :: aesd_circular_buffer
  i_junk_entry :: aesd_buffer_entry

definition zero_dev :: aesd_dev where
  "zero_dev = \<lparr>buffer = Null, buffer_entry = Null, read_entry = ENull, end_of_packet = 0,
     first_packet = 0, lock = False\<rparr>"

text \<open>
  \<open>kfree\<close> of the three pointers of the device. Freeing the address of slot 0 of a ring frees the
  ring, which starts there; the address of any other slot is not the start of a block.
\<close>

definition kfree_read_entry :: "kmem \<Rightarrow> entry_ptr \<Rightarrow> kmem res" where
  "kfree_read_entry h p =
     (case p of ENull \<Rightarrow> Inr h
      | EPtr a \<Rightarrow> (case ents h a of None \<Rightarrow> Inl BadFree
                  | Some _ \<Rightarrow> Inr (h\<lparr>ents := (ents h)(a := None)\<rparr>))
      | EIn a i \<Rightarrow> (case cbufs h a of None \<Rightarrow> Inl BadFree
                  | Some _ \<Rightarrow> if i = 0 then Inr (h\<lparr>cbufs := (cbufs h)(a := None)\<rparr>) else Inl BadFree))"

definition kfree_entry :: "kmem \<Rightarrow> cptr \<Rightarrow> kmem res" where
  "kfree_entry h p =
     (case p of Null \<Rightarrow> Inr h
      | Ptr a \<Rightarrow> (case ents h a of None \<Rightarrow> Inl BadFree
                 | Some _ \<Rightarrow> Inr (h\<lparr>ents := (ents h)(a := None)\<rparr>)))"

definition kfree_cbuf :: "kmem \<Rightarrow> cptr \<Rightarrow> kmem res" where
  "kfree_cbuf h p =
     (case p of Null \<Rightarrow> Inr h
      | Ptr a \<Rightarrow> (case cbufs h a of None \<Rightarrow> Inl BadFree
                 | Some _ \<Rightarrow> Inr (h\<lparr>cbufs := (cbufs h)(a := None)\<rparr>)))"

definition aesd_cleanup_module :: "module_state \<Rightarrow> module_state res" where
  "aesd_cleanup_module m =
     (let d = dev (kst m) in
      res_bind (kfree_read_entry (mem (kst m)) (read_entry d)) (\<lambda>h.
      res_bind (kfree_entry h (buffer_entry d)) (\<lambda>h.
      res_bind (kfree_cbuf h (buffer d)) (\<lambda>h.
      Inr (m\<lparr>kst := (kst m)\<lparr>mem := h\<rparr>, region := False, cdev_live := False\<rparr>)))))"

definition aesd_setup_cdev :: "init_env \<Rightarrow> module_state \<Rightarrow> module_state \<times> cint" where
  "aesd_setup_cdev env m =
     (if i_cdev_add env \<noteq> 0 then (m, i_cdev_add env) else (m\<lparr>cdev_live := True\<rparr>, 0))"

text \<open>
  \<open>kmalloc\<close> of the two structs, 168 and 16 bytes on a 64-bit target. What the new struct contains
  is the argument \<open>junk\<close>.
\<close>

definition kmalloc_cbuf :: "kmalloc \<Rightarrow> aesd_circular_buffer \<Rightarrow> kmem \<Rightarrow> kmem \<times> cptr" where
  "kmalloc_cbuf km junk h =
     (case km h 168 of None \<Rightarrow> (h, Null)
      | Some (a, _) \<Rightarrow> (h\<lparr>cbufs := (cbufs h)(a \<mapsto> junk)\<rparr>, Ptr a))"

definition kmalloc_entry :: "kmalloc \<Rightarrow> aesd_buffer_entry \<Rightarrow> kmem \<Rightarrow> kmem \<times> cptr" where
  "kmalloc_entry km junk h =
     (case km h 16 of None \<Rightarrow> (h, Null)
      | Some (a, _) \<Rightarrow> (h\<lparr>ents := (ents h)(a \<mapsto> junk)\<rparr>, Ptr a))"

definition entry_ptr_of :: "cptr \<Rightarrow> entry_ptr" where
  "entry_ptr_of p = (case p of Null \<Rightarrow> ENull | Ptr a \<Rightarrow> EPtr a)"

text \<open>
  \<open>goto fail\<close> returns \<open>result\<close>, which is then the non-negative value that
  \<open>alloc_chrdev_region\<close> returned.
\<close>

definition init_fail :: "module_state \<Rightarrow> cint \<Rightarrow> (module_state \<times> cint) res" where
  "init_fail m result = res_bind (aesd_cleanup_module m) (\<lambda>m. Inr (m, result))"

text \<open>The second half of \<open>aesd_init_module\<close>: zero the three structs, then add the device.\<close>

definition init_setup :: "init_env \<Rightarrow> module_state \<Rightarrow> cptr \<Rightarrow> cptr \<Rightarrow> cptr \<Rightarrow> (module_state \<times> cint) res" where
  "init_setup env m pb pe pr =
     (let h = mem (kst m) in
      res_bind (load_cbuf h pb) (\<lambda>b.
      let h = store_cbuf h pb (aesd_circular_buffer_init b);
          h = store_entry_obj h pe null_entry;
          h = store_entry_obj h pr null_entry;
          d = (dev (kst m))\<lparr>end_of_packet := 0, first_packet := 0\<rparr> in
      res_bind (load_cbuf h pb) (\<lambda>b.
      let h = store_cbuf h pb (b\<lparr>in_offs := 0, out_offs := 0\<rparr>);
          d = d\<lparr>lock := False\<rparr> in
      case aesd_setup_cdev env (m\<lparr>kst := \<lparr>mem = h, dev = d\<rparr>\<rparr>) of (m, result) \<Rightarrow>
      Inr (if result \<noteq> 0 then (m\<lparr>region := False\<rparr>, result) else (m, result)))))"

definition aesd_init_module :: "init_env \<Rightarrow> module_state \<Rightarrow> (module_state \<times> cint) res" where
  "aesd_init_module env m =
     (let result = i_region env in
      if sint result < 0 then Inr (m, result)
      else
        let m = m\<lparr>kst := (kst m)\<lparr>dev := zero_dev\<rparr>, region := True\<rparr> in
        case kmalloc_cbuf (i_kmalloc env) (i_junk_cbuf env) (mem (kst m)) of (h, pb) \<Rightarrow>
        let m = m\<lparr>kst := \<lparr>mem = h, dev = (dev (kst m))\<lparr>buffer := pb\<rparr>\<rparr>\<rparr> in
        if pb = Null then init_fail m result
        else case kmalloc_entry (i_kmalloc env) (i_junk_entry env) (mem (kst m)) of (h, pe) \<Rightarrow>
        let m = m\<lparr>kst := \<lparr>mem = h, dev = (dev (kst m))\<lparr>buffer_entry := pe\<rparr>\<rparr>\<rparr> in
        if pe = Null then init_fail m result
        else case kmalloc_entry (i_kmalloc env) (i_junk_entry env) (mem (kst m)) of (h, pr) \<Rightarrow>
        let m = m\<lparr>kst := \<lparr>mem = h, dev = (dev (kst m))\<lparr>read_entry := entry_ptr_of pr\<rparr>\<rparr>\<rparr> in
        if pr = Null then init_fail m result
        else init_setup env m pb pe pr)"

end
