(* ===== verification/Driver_Refinement.thy ===== *)
theory Driver_Refinement
  imports Aesd_Driver
begin

text \<open>
  The contract of the character device and the proof that \<open>main.c\<close> implements it. The abstract
  device is the list of the last ten commands, the command under construction and the size
  recorded for it; \<open>refines\<close> relates it to the driver's state.
\<close>

subsection \<open>The abstract device\<close>

record dev_spec =
  hist :: "string list"
  pending :: string
  psize :: nat

definition text_of :: "string \<Rightarrow> string" where
  "text_of bytes = takeWhile (\<lambda>c. c \<noteq> NUL) bytes"

text \<open>
  A write appends the bytes up to the first NUL to the pending command; a newline among them
  completes it. The second component is how far the file position moves: not at all for an
  incomplete command, and by the recorded size (one more than its length per write) for a
  complete one.
\<close>

definition spec_write :: "string \<Rightarrow> dev_spec \<Rightarrow> dev_spec \<times> nat" where
  "spec_write bytes d =
     (let t = text_of bytes; n = psize d + length t + 1 in
      if newline \<in> set t
      then (\<lparr>hist = keep_last 10 (hist d @ [pending d @ t]), pending = [], psize = 0\<rparr>, n)
      else (d\<lparr>pending := pending d @ t, psize := n\<rparr>, 0))"

text \<open>A read returns the rest of the command that holds the position.\<close>

definition spec_read :: "dev_spec \<Rightarrow> nat \<Rightarrow> string" where
  "spec_read d pos =
     (case locate (map length (hist d)) pos of None \<Rightarrow> [] | Some (k, off) \<Rightarrow> drop off (hist d ! k))"

subsection \<open>The refinement relation\<close>

definition pending_block ::
    "kmem \<Rightarrow> aesd_circular_buffer \<Rightarrow> aesd_buffer_entry \<Rightarrow> string \<Rightarrow> nat \<Rightarrow> bool" where
  "pending_block h b be p n \<longleftrightarrow>
     (\<exists>a r. buffptr be = Ptr a \<and> chars h a = Some (p @ NUL # r) \<and> NUL \<notin> set p \<and>
        newline \<notin> set p \<and> a \<notin> cb_addrs b \<and> unat (esize be) = n \<and>
        n = length (p @ NUL # r) \<and> n < 2 ^ 31)"

definition dev_core :: "kstate \<Rightarrow> aesd_circular_buffer \<Rightarrow> string \<Rightarrow> nat \<Rightarrow> bool" where
  "dev_core s b p n \<longleftrightarrow>
     finite_heap (mem s) \<and> end_of_packet (dev s) = 0 \<and> cb_mem (mem s) b \<and>
     (\<exists>a. buffer (dev s) = Ptr a \<and> cbufs (mem s) a = Some b) \<and>
     (\<exists>a be. buffer_entry (dev s) = Ptr a \<and> ents (mem s) a = Some be \<and>
        (if first_packet (dev s) = 0 then p = [] \<and> n = 0
         else first_packet (dev s) = 1 \<and> pending_block (mem s) b be p n))"

definition refines :: "kstate \<Rightarrow> dev_spec \<Rightarrow> bool" where
  "refines s d \<longleftrightarrow>
     \<not> lock (dev s) \<and> (\<exists>b. dev_core s b (pending d) (psize d) \<and> hist d = cb_strings (mem s) b)"

lemma refinesE:
  assumes "refines s d"
  obtains b where "\<not> lock (dev s)" "dev_core s b (pending d) (psize d)" "hist d = cb_strings (mem s) b"
  using assms by (auto simp: refines_def)

lemma dev_core_lock [simp]: "dev_core (s\<lparr>dev := (dev s)\<lparr>lock := v\<rparr>\<rparr>) b p n = dev_core s b p n"
  by (simp add: dev_core_def)

lemma dev_core_read_entry [simp]:
  "dev_core (s\<lparr>dev := (dev s)\<lparr>lock := v, read_entry := q\<rparr>\<rparr>) b p n = dev_core s b p n"
  by (simp add: dev_core_def)

lemma dev_coreE:
  assumes "dev_core s b p n"
  obtains ab ae be where "finite_heap (mem s)" "end_of_packet (dev s) = 0" "cb_mem (mem s) b"
    "buffer (dev s) = Ptr ab" "cbufs (mem s) ab = Some b"
    "buffer_entry (dev s) = Ptr ae" "ents (mem s) ae = Some be"
    "if first_packet (dev s) = 0 then p = [] \<and> n = 0
     else first_packet (dev s) = 1 \<and> pending_block (mem s) b be p n"
  using assms unfolding dev_core_def by blast

lemma load_cbuf_Ptr [simp]: "cbufs h a = Some b \<Longrightarrow> load_cbuf h (Ptr a) = Inr b"
  by (simp add: load_cbuf_def)

lemma load_entry_Ptr [simp]: "ents h a = Some e \<Longrightarrow> load_entry h (Ptr a) = Inr e"
  by (simp add: load_entry_def)

lemma store_cbuf_Ptr [simp]: "store_cbuf h (Ptr a) b = h\<lparr>cbufs := (cbufs h)(a \<mapsto> b)\<rparr>"
  by (simp add: store_cbuf_def)

lemma store_entry_obj_Ptr [simp]: "store_entry_obj h (Ptr a) e = h\<lparr>ents := (ents h)(a \<mapsto> e)\<rparr>"
  by (simp add: store_entry_obj_def)

text \<open>The ring's view of the heap is unaffected by the other two kinds of objects.\<close>

lemma cb_mem_ents [simp]:
  "cb_mem (h\<lparr>ents := x\<rparr>) b = cb_mem h b" "cb_mem (h\<lparr>cbufs := y\<rparr>) b = cb_mem h b"
  "cb_strings (h\<lparr>ents := x\<rparr>) b = cb_strings h b" "cb_strings (h\<lparr>cbufs := y\<rparr>) b = cb_strings h b"
  "pending_block (h\<lparr>ents := x\<rparr>) b be p n = pending_block h b be p n"
  "pending_block (h\<lparr>cbufs := y\<rparr>) b be p n = pending_block h b be p n"
proof -
  have "entry_ok (h\<lparr>ents := x\<rparr>) = entry_ok h" "entry_ok (h\<lparr>cbufs := y\<rparr>) = entry_ok h"
    "entry_string (h\<lparr>ents := x\<rparr>) = entry_string h" "entry_string (h\<lparr>cbufs := y\<rparr>) = entry_string h"
    by (auto simp: entry_ok_def entry_string_def fun_eq_iff split: cptr.split)
  then show "cb_mem (h\<lparr>ents := x\<rparr>) b = cb_mem h b" "cb_mem (h\<lparr>cbufs := y\<rparr>) b = cb_mem h b"
    "cb_strings (h\<lparr>ents := x\<rparr>) b = cb_strings h b" "cb_strings (h\<lparr>cbufs := y\<rparr>) b = cb_strings h b"
    by (simp_all add: cb_mem_def cb_strings_def)
  show "pending_block (h\<lparr>ents := x\<rparr>) b be p n = pending_block h b be p n"
    "pending_block (h\<lparr>cbufs := y\<rparr>) b be p n = pending_block h b be p n"
    by (simp_all add: pending_block_def)
qed

subsection \<open>The local write buffer\<close>

lemma padded_string:
  "0 < k \<Longrightarrow> \<exists>r. bs @ replicate k NUL = text_of bs @ NUL # r \<and> NUL \<notin> set (text_of bs)"
proof (induction bs)
  case Nil
  then show ?case by (cases k) (auto simp: text_of_def)
next
  case (Cons x bs)
  then show ?case by (auto simp: text_of_def)
qed

lemma text_of_no_NUL: "NUL \<notin> set (text_of bs)"
  by (auto simp: text_of_def dest: set_takeWhileD)

lemma text_of_length: "length (text_of bs) \<le> length bs"
  by (simp add: text_of_def length_takeWhile_le)

lemma unat_mult_8: "unat (c :: size_t) < 2 ^ 60 \<Longrightarrow> unat (c * 8) = 8 * unat c"
  by (simp add: unat_word_ariths)

subsection \<open>Memory for the command\<close>

text \<open>
  After the allocation step the entry owns a block that holds the pending text and has room for
  the new one. All live blocks other than the old pending block are untouched.
\<close>

lemma write_alloc_first:
  assumes km: "kmalloc_ok (w_kmalloc env)" "w_kmalloc env h (len + 1) \<noteq> None"
    and d: "first_packet d = 0"
  obtains h' a where
    "write_alloc env h d be len = Inr (h', be\<lparr>buffptr := Ptr a\<rparr>, of_nat (len + 1))"
    "h' = h\<lparr>chars := (chars h)(a \<mapsto> NUL # replicate len NUL)\<rparr>" "fresh h a"
proof -
  obtain a bs where a: "w_kmalloc env h (len + 1) = Some (a, bs)" using km(2) by auto
  have bs: "length bs = len + 1" "len + 1 < 2 ^ 31" "fresh h a" using kmalloc_okD[OF km(1) a] by auto
  have u: "unat (of_nat len + 1 :: size_t) = len + 1"
    using bs(2) unat_of_nat_64[of "len + 1"] by (simp add: add.commute)
  have "c_memset0 bs (len + 1) = Inr (replicate (len + 1) NUL)"
    using c_memset0_all[of bs] bs(1) by simp
  then have "write_alloc env h d be len =
      Inr (h\<lparr>chars := (chars h)(a \<mapsto> NUL # replicate len NUL)\<rparr>, be\<lparr>buffptr := Ptr a\<rparr>, of_nat (len + 1))"
    using d a u by (simp add: write_alloc_def kmalloc_chars_def)
  then show ?thesis using that bs(3) by blast
qed

lemma write_alloc_more:
  assumes kr: "krealloc_ok (w_krealloc env)" "\<And>a. w_krealloc env h a (n + len + 1) \<noteq> None"
    and d: "first_packet d = 1" and pb: "pending_block h b be p n"
  obtains h' a0 a r where
    "write_alloc env h d be len = Inr (h', be\<lparr>buffptr := Ptr a\<rparr>, of_nat (n + len + 1))"
    "buffptr be = Ptr a0" "a0 \<notin> cb_addrs b" "a = a0 \<or> fresh h a"
    "h' = h\<lparr>chars := (chars h)(a0 := None, a \<mapsto> p @ NUL # r)\<rparr>"
    "length (p @ NUL # r) = n + len + 1"
proof -
  obtain a0 r0 where pb': "buffptr be = Ptr a0" "chars h a0 = Some (p @ NUL # r0)" "a0 \<notin> cb_addrs b"
      "unat (esize be) = n" "n = length (p @ NUL # r0)"
    using pb by (auto simp: pending_block_def)
  define N old where "N = n + len + 1" and "old = p @ NUL # r0"
  obtain a bs where a: "w_krealloc env h a0 N = Some (a, bs)" using kr(2)[of a0] by (auto simp: N_def)
  have bs: "length bs = N" "a = a0 \<or> fresh h a" "N < 2 ^ 31" using krealloc_okD[OF kr(1) a] by auto
  have "of_nat n = esize be" using pb'(4) by auto
  then have e: "esize be + of_nat len + 1 = of_nat N" by (simp add: N_def)
  have u: "unat (of_nat N :: size_t) = N"
    using bs(3) by (intro unat_of_nat_64) simp
  have old: "take N old = old" "length old = n" "chars h a0 = Some old"
    using pb'(2,5) by (simp_all add: old_def N_def)
  have "write_alloc env h d be len =
      Inr (h\<lparr>chars := (chars h)(a0 := None, a \<mapsto> old @ drop n bs)\<rparr>, be\<lparr>buffptr := Ptr a\<rparr>, of_nat N)"
    using d by (simp add: write_alloc_def krealloc_chars_def e u a pb'(1) old)
  moreover have "old @ drop n bs = p @ NUL # (r0 @ drop n bs)" by (simp add: old_def)
  moreover have "length (p @ NUL # (r0 @ drop n bs)) = n + len + 1"
    using bs(1) pb'(5) by (simp add: N_def)
  ultimately show ?thesis using that pb' bs(2) unfolding N_def by metis
qed

text \<open>The kernel behaves as documented, has memory, and delivers the user's bytes.\<close>

definition write_env_ok :: "write_env \<Rightarrow> bool" where
  "write_env_ok env \<longleftrightarrow> kmalloc_ok (w_kmalloc env) \<and> krealloc_ok (w_krealloc env)"

definition write_env_available :: "write_env \<Rightarrow> bool" where
  "write_env_available env \<longleftrightarrow>
     kmalloc_available (w_kmalloc env) \<and> krealloc_available (w_krealloc env)"

text \<open>There is memory for a command of a given size.\<close>

definition append_memory :: "write_env \<Rightarrow> kmem \<Rightarrow> nat \<Rightarrow> bool" where
  "append_memory env h n \<longleftrightarrow> w_kmalloc env h n \<noteq> None \<and> (\<forall>a. w_krealloc env h a n \<noteq> None)"

lemma append_memory_available:
  "write_env_available env \<Longrightarrow> finite_heap h \<Longrightarrow> n < KMALLOC_MAX_SIZE \<Longrightarrow> append_memory env h n"
  by (simp add: append_memory_def write_env_available_def kmalloc_available_def krealloc_available_def)

lemma append_memory_bound: "write_env_ok env \<Longrightarrow> append_memory env h n \<Longrightarrow> n < 2 ^ 31"
  by (auto simp: append_memory_def write_env_ok_def dest: kmalloc_okD(2))

lemma write_alloc_spec:
  assumes env: "write_env_ok env" and fin: "finite_heap h" and mem: "cb_mem h b"
    and pend: "if first_packet d = 0 then p = [] \<and> n = 0
               else first_packet d = 1 \<and> pending_block h b be p n"
    and len: "append_memory env h (n + len + 1)"
  obtains h' a r where
    "write_alloc env h d be len = Inr (h', be\<lparr>buffptr := Ptr a\<rparr>, of_nat (n + len + 1))"
    "chars h' a = Some (p @ NUL # r)" "length (p @ NUL # r) = n + len + 1" "len \<le> length r"
    "NUL \<notin> set p" "newline \<notin> set p" "a \<notin> cb_addrs b" "ents h' = ents h" "cbufs h' = cbufs h"
    "finite_heap h'" "cb_mem h' b" "cb_strings h' b = cb_strings h b"
    "\<forall>x v. chars h x = Some v \<and> (first_packet d = 0 \<or> buffptr be \<noteq> Ptr x) \<longrightarrow>
       x \<noteq> a \<and> chars h' x = Some v"
    "blocks h' = blocks h + (if first_packet d = 0 then 1 else 0)"
proof (cases "first_packet d = 0")
  case True
  then have p: "p = []" "n = 0" using pend by auto
  have km: "kmalloc_ok (w_kmalloc env)" "w_kmalloc env h (len + 1) \<noteq> None"
    using env len p(2) by (simp_all add: write_env_ok_def append_memory_def)
  from write_alloc_first[OF km True, of be]
  obtain h' a where w: "write_alloc env h d be len = Inr (h', be\<lparr>buffptr := Ptr a\<rparr>, of_nat (len + 1))"
      "h' = h\<lparr>chars := (chars h)(a \<mapsto> NUL # replicate len NUL)\<rparr>" "fresh h a" by metis
  have a: "a \<notin> cb_addrs b" using cb_addrs_disjoint_fresh[OF mem] w(3) by blast
  show ?thesis
    by (rule that[of h' a "replicate len NUL"])
      (use w a fin p cb_mem_upd[OF mem a] True blocks_new[OF fin w(3)] in \<open>auto simp: fresh_def\<close>)
next
  case False
  then have p: "first_packet d = 1" "pending_block h b be p n" using pend by auto
  have kr: "krealloc_ok (w_krealloc env)" "\<And>a. w_krealloc env h a (n + len + 1) \<noteq> None"
    using env len by (simp_all add: write_env_ok_def append_memory_def)
  from write_alloc_more[OF kr p]
  obtain h' a0 a r where w: "write_alloc env h d be len = Inr (h', be\<lparr>buffptr := Ptr a\<rparr>, of_nat (n + len + 1))"
    "buffptr be = Ptr a0" "a0 \<notin> cb_addrs b" "a = a0 \<or> fresh h a"
    "h' = h\<lparr>chars := (chars h)(a0 := None, a \<mapsto> p @ NUL # r)\<rparr>"
    "length (p @ NUL # r) = n + len + 1" by metis
  have a: "a \<notin> cb_addrs b" using cb_addrs_disjoint_fresh[OF mem] w(3,4) by blast
  have pp: "NUL \<notin> set p" "newline \<notin> set p" "length p < n" using p(2) by (auto simp: pending_block_def)
  have mem0: "cb_mem (h\<lparr>chars := (chars h)(a0 := None)\<rparr>) b"
    "cb_strings (h\<lparr>chars := (chars h)(a0 := None)\<rparr>) b = cb_strings h b"
    using cb_mem_upd[OF mem w(3)] by auto
  have mem': "cb_mem h' b" "cb_strings h' b = cb_strings h b"
    using cb_mem_upd[OF mem0(1) a, of "Some (p @ NUL # r)"] mem0(2) by (auto simp: w(5))
  have fin': "finite_heap h'"
    using fin finite_heap_upd[of "h\<lparr>chars := (chars h)(a0 := None)\<rparr>" a "Some (p @ NUL # r)"]
      finite_heap_upd[of h a0 None] by (simp add: w(5))
  obtain v where "chars h a0 = Some v" using p(2) w(2) by (auto simp: pending_block_def)
  then have "blocks h' = blocks h" using blocks_move[OF fin _ w(4)] by (simp add: w(5))
  then show ?thesis
    by (intro that[of h' a r])
      (use False w a pp mem' fin' in \<open>auto simp: fresh_def\<close>)
qed

subsection \<open>Completing a command\<close>

text \<open>
  What \<open>add_entry\<close> does to the heap: a scratch block at \<open>a'\<close> that nobody frees, and the new ring.
\<close>

lemma add_entry_heap:
  assumes env: "write_env_ok env" "write_env_available env" and fin: "finite_heap h" and mem: "cb_mem h b"
    and be: "buffptr be = Ptr a" "chars h a = Some (t @ NUL # r)" "NUL \<notin> set t"
      "length t < KMALLOC_MAX_SIZE" "a \<notin> cb_addrs b"
  obtains a' bs b' where "aesd_circular_buffer_add_entry (w_kmalloc env) h b be =
       Inr (h\<lparr>chars := (chars h)(a' \<mapsto> bs)\<rparr>, b', if length (cb_list b) = 10 then buffptr (hd (cb_list b)) else Null)"
    "cb_mem (h\<lparr>chars := (chars h)(a' \<mapsto> bs)\<rparr>) b'"
    "cb_strings (h\<lparr>chars := (chars h)(a' \<mapsto> bs)\<rparr>) b' = keep_last 10 (cb_strings h b @ [t])"
    "cb_addrs b' = insert a (if length (cb_list b) = 10
       then {x \<in> cb_addrs b. Ptr x \<noteq> buffptr (hd (cb_list b))} else cb_addrs b)"
    "fresh h a' \<or> chars h a' = Some []" "t \<noteq> [] \<longrightarrow> blocks (h\<lparr>chars := (chars h)(a' \<mapsto> bs)\<rparr>) = blocks h + 1"
proof -
  have km: "kmalloc_ok (w_kmalloc env)" "kmalloc_available (w_kmalloc env)"
    using env by (auto simp: write_env_ok_def write_env_available_def)
  obtain a' bs where al: "w_kmalloc env h (length t) = Some (a', bs)"
    using kmalloc_availableE[OF km(2) fin be(4)] by blast
  have "length t < 2 ^ 31" using be(4) by (simp add: KMALLOC_MAX_SIZE_def)
  from add_entry_stores[OF km(1) mem be(1-3) this be(5) al]
  obtain b' where add: "aesd_circular_buffer_add_entry (w_kmalloc env) h b be =
       Inr (h\<lparr>chars := (chars h)(a' \<mapsto> bs)\<rparr>, b', if length (cb_list b) = 10 then buffptr (hd (cb_list b)) else Null)"
    "cb_mem (h\<lparr>chars := (chars h)(a' \<mapsto> bs)\<rparr>) b'"
    "cb_strings (h\<lparr>chars := (chars h)(a' \<mapsto> bs)\<rparr>) b' = keep_last 10 (cb_strings h b @ [t])"
    "cb_list b' = keep_last 10 (cb_list b @ [\<lparr>buffptr = Ptr a, esize = of_nat (length t)\<rparr>])"
    by metis
  show ?thesis
    by (rule that[OF add(1-3) cb_addrs_added[OF mem add(4) be(5)]])
      (use kmalloc_okD(3,4)[OF km(1) al] blocks_new[OF fin] in auto)
qed

lemma write_commit_spec:
  assumes env: "write_env_ok env" "write_env_available env" and fin: "finite_heap (mem s)"
    and mem: "cb_mem (mem s) b" and ring: "buffer (dev s) = Ptr ab" "cbufs (mem s) ab = Some b"
    and be: "buffptr be = Ptr a" "chars (mem s) a = Some (t @ NUL # r)" "NUL \<notin> set t"
      "length t < KMALLOC_MAX_SIZE" "a \<notin> cb_addrs b"
  obtains h' b' where
    "write_commit env s filp be =
       Inr (s\<lparr>mem := h', dev := (dev s)\<lparr>first_packet := 0, end_of_packet := 0\<rparr>\<rparr>,
            filp\<lparr>f_pos := f_pos filp + esize be\<rparr>)"
    "finite_heap h'" "cbufs h' = (cbufs (mem s))(ab \<mapsto> b')" "ents h' = ents (mem s)"
    "cb_mem h' b'" "cb_strings h' b' = keep_last 10 (cb_strings (mem s) b @ [t])"
    "\<forall>x v. chars (mem s) x = Some v \<and> v \<noteq> [] \<and> x \<notin> cb_addrs b \<and> x \<noteq> a \<longrightarrow>
       chars h' x = Some v \<and> x \<notin> cb_addrs b'"
    "t \<noteq> [] \<longrightarrow> blocks h' + (if length (cb_strings (mem s) b) = 10 then 1 else 0) = blocks (mem s) + 1"
proof -
  let ?h = "mem s"
  obtain a' bs b' where add': "aesd_circular_buffer_add_entry (w_kmalloc env) ?h b be =
       Inr (?h\<lparr>chars := (chars ?h)(a' \<mapsto> bs)\<rparr>, b', if length (cb_list b) = 10 then buffptr (hd (cb_list b)) else Null)"
    "cb_mem (?h\<lparr>chars := (chars ?h)(a' \<mapsto> bs)\<rparr>) b'"
    "cb_strings (?h\<lparr>chars := (chars ?h)(a' \<mapsto> bs)\<rparr>) b' = keep_last 10 (cb_strings ?h b @ [t])"
    "cb_addrs b' = insert a (if length (cb_list b) = 10
       then {x \<in> cb_addrs b. Ptr x \<noteq> buffptr (hd (cb_list b))} else cb_addrs b)"
    "fresh ?h a' \<or> chars ?h a' = Some []" "t \<noteq> [] \<longrightarrow> blocks (?h\<lparr>chars := (chars ?h)(a' \<mapsto> bs)\<rparr>) = blocks ?h + 1"
    by (rule add_entry_heap[OF env fin mem be])
  define h1 where "h1 = ?h\<lparr>chars := (chars ?h)(a' \<mapsto> bs)\<rparr>"
  note add = add'[folded h1_def] and addrs = add'(4)
  have fin1: "finite_heap h1" using fin by (simp add: h1_def finite_heap_def)
  have len: "length (cb_strings ?h b) = length (cb_list b)" by (simp add: cb_strings_def)
  have frame: "chars h1 x = Some v" if "chars ?h x = Some v" "v \<noteq> []" for x v
    using that add(5) by (auto simp: h1_def fresh_def)
  show ?thesis
  proof (cases "length (cb_list b) = 10")
    case False
    let ?h' = "h1\<lparr>cbufs := (cbufs ?h)(ab \<mapsto> b')\<rparr>"
    show ?thesis
      by (rule that[of ?h' b'])
        (use False ring add fin frame addrs add(6) len in \<open>simp_all add: write_commit_def h1_def finite_heap_def\<close>)
  next
    case True
    then have hd: "hd (cb_list b) \<in> set (cb_list b)" by (cases "cb_list b") auto
    from cb_memD(2)[OF mem this]
    obtain o' so ro where o': "buffptr (hd (cb_list b)) = Ptr o'" "chars ?h o' = Some (so @ NUL # ro)"
        "NUL \<notin> set so" by (elim entry_okE)
    have o4: "o' \<in> cb_addrs b"
      using imageI[OF hd, of buffptr] o'(1) by (simp add: cb_addrs_def)
    have o1: "chars h1 o' = Some (so @ NUL # ro)" using frame o'(2) by simp
    have no: "o' \<notin> cb_addrs b'" using addrs True o'(1) o4 be(5) by auto
    define h2 where "h2 = h1\<lparr>chars := (chars h1)(o' := None)\<rparr>"
    have mem2: "cb_mem h2 b'" "cb_strings h2 b' = cb_strings h1 b'"
      using cb_mem_upd[OF add(2) no, of None] by (simp_all add: h2_def)
    let ?h' = "h2\<lparr>cbufs := (cbufs ?h)(ab \<mapsto> b')\<rparr>"
    have "kfree_chars (h1\<lparr>cbufs := (cbufs ?h)(ab \<mapsto> b')\<rparr>) (Ptr o') = Inr ?h'"
      using o1 by (subst kfree_chars_nonempty) (auto simp: h2_def)
    then have run: "write_commit env s filp be =
       Inr (s\<lparr>mem := ?h', dev := (dev s)\<lparr>first_packet := 0, end_of_packet := 0\<rparr>\<rparr>,
            filp\<lparr>f_pos := f_pos filp + esize be\<rparr>)"
      using True ring add(1) o'(1,3) o1 by (simp add: write_commit_def h1_def)
    show ?thesis
    proof (rule that[of ?h' b'])
      show "\<forall>x v. chars ?h x = Some v \<and> v \<noteq> [] \<and> x \<notin> cb_addrs b \<and> x \<noteq> a \<longrightarrow>
          chars ?h' x = Some v \<and> x \<notin> cb_addrs b'"
        using frame o4 addrs by (auto simp: h2_def)
      show "t \<noteq> [] \<longrightarrow> blocks ?h' + (if length (cb_strings ?h b) = 10 then 1 else 0) = blocks ?h + 1"
        using blocks_free[OF fin1 o1] add(6) True len by (simp add: h2_def)
    qed (use run fin mem2 add in \<open>simp_all add: h2_def h1_def finite_heap_def\<close>)
  qed
qed

subsection \<open>A whole write\<close>

lemma write_exit_frees:
  assumes "lock (dev s)" "chars (mem s) w = Some wb" "wb \<noteq> []"
  shows "write_exit s (Ptr w) filp r =
    Inr (s\<lparr>mem := (mem s)\<lparr>chars := (chars (mem s))(w := None)\<rparr>, dev := (dev s)\<lparr>lock := False\<rparr>\<rparr>, filp, r)"
  using assms by (simp add: write_exit_def kfree_chars_nonempty mutex_unlock_def)

text \<open>
  The packet is in the local buffer at \<open>w\<close>; \<open>t\<close> is its text. Up to the test of
  \<open>end_of_packet\<close> the text joins the pending command in a block of the right size.
\<close>

definition appended ::
    "kstate \<Rightarrow> aesd_circular_buffer \<Rightarrow> string \<Rightarrow> nat \<Rightarrow> string \<Rightarrow> nat \<Rightarrow> kmem \<Rightarrow> aesd_buffer_entry \<Rightarrow> nat \<Rightarrow> bool" where
  "appended s b p n t w h be a \<longleftrightarrow>
     (\<exists>ae. buffer_entry (dev s) = Ptr ae \<and> ents h = (ents (mem s))(ae \<mapsto> be)) \<and> cbufs h = cbufs (mem s) \<and>
     buffptr be = Ptr a \<and> esize be = of_nat (n + length t + 1) \<and> n + length t + 1 < 2 ^ 31 \<and> a \<notin> cb_addrs b \<and>
     w \<noteq> a \<and> (\<exists>r. chars h a = Some ((p @ t) @ NUL # r) \<and> length ((p @ t) @ NUL # r) = n + length t + 1) \<and>
     (\<exists>q. chars h w = Some (t @ NUL # q)) \<and> NUL \<notin> set (p @ t) \<and> newline \<notin> set p \<and>
     finite_heap h \<and> cb_mem h b \<and> cb_strings h b = cb_strings (mem s) b \<and>
     blocks h = blocks (mem s) + (if n = 0 then 1 else 0)"

lemma write_packet_append:
  assumes env: "write_env_ok env" and core: "dev_core s b p n"
    and w: "chars (mem s) w = Some (t @ NUL # q)" "NUL \<notin> set t"
    and nw: "\<And>ae be. buffer_entry (dev s) = Ptr ae \<Longrightarrow> ents (mem s) ae = Some be \<Longrightarrow>
      first_packet (dev s) = 0 \<or> buffptr be \<noteq> Ptr w"
    and len: "append_memory env (mem s) (n + length t + 1)"
  defines "d \<equiv> (if newline \<in> set t then (dev s)\<lparr>end_of_packet := 1\<rparr> else dev s)"
  obtains h be a where
    "write_packet env s filp (Ptr w) (t @ NUL # q) count =
       (let s1 = s\<lparr>mem := h, dev := d\<lparr>first_packet := 1\<rparr>\<rparr> in
        if newline \<in> set t then
          res_bind (write_commit env s1 filp be) (\<lambda>(s, filp). write_exit s (Ptr w) filp count)
        else write_exit s1 (Ptr w) filp count)"
    "appended s b p n t w h be a"
proof -
  let ?h = "mem s"
  obtain ab ae be where c: "finite_heap ?h" "end_of_packet (dev s) = 0" "cb_mem ?h b"
    "buffer (dev s) = Ptr ab" "cbufs ?h ab = Some b" "buffer_entry (dev s) = Ptr ae" "ents ?h ae = Some be"
    "if first_packet (dev s) = 0 then p = [] \<and> n = 0
     else first_packet (dev s) = 1 \<and> pending_block ?h b be p n"
    using core by (rule dev_coreE)
  have fp: "first_packet d = first_packet (dev s)" by (simp add: d_def)
  obtain h' a r where al:
    "write_alloc env ?h d be (length t) = Inr (h', be\<lparr>buffptr := Ptr a\<rparr>, of_nat (n + length t + 1))"
    "chars h' a = Some (p @ NUL # r)" "length (p @ NUL # r) = n + length t + 1" "length t \<le> length r"
    "NUL \<notin> set p" "newline \<notin> set p" "a \<notin> cb_addrs b" "ents h' = ents ?h" "cbufs h' = cbufs ?h"
    "finite_heap h'" "cb_mem h' b" "cb_strings h' b = cb_strings ?h b"
    "\<forall>x v. chars ?h x = Some v \<and> (first_packet d = 0 \<or> buffptr be \<noteq> Ptr x) \<longrightarrow>
       x \<noteq> a \<and> chars h' x = Some v"
    "blocks h' = blocks ?h + (if first_packet d = 0 then 1 else 0)"
    by (rule write_alloc_spec[OF env c(1,3) c(8)[folded fp] len])
  define be' where "be' = be\<lparr>buffptr := Ptr a, esize := of_nat (n + length t + 1)\<rparr>"
  define bs where "bs = p @ t @ NUL # drop (length t) r"
  define h2 where "h2 = h'\<lparr>chars := (chars h')(a \<mapsto> bs), ents := (ents ?h)(ae \<mapsto> be')\<rparr>"
  have cat: "c_strcat (p @ NUL # r) (t @ NUL # q) = Inr bs" "c_string bs = Inr (p @ t)"
    using c_strcat_app[OF al(5) w(2) al(4)] al(5) w(2) c_string_app[of "p @ t"] by (simp_all add: bs_def)
  have mem2: "cb_mem h2 b" "cb_strings h2 b = cb_strings ?h b"
    using cb_mem_upd[OF al(11,7), of "Some bs"] al(12) by (simp_all add: h2_def)
  have "first_packet d = 0 \<longleftrightarrow> n = 0" using c(8) fp by (auto simp: pending_block_def split: if_splits)
  then have n2: "blocks h2 = blocks ?h + (if n = 0 then 1 else 0)"
    using blocks_replace[OF al(2), of bs] al(14) by (simp add: h2_def)
  show ?thesis
  proof (rule that[of h2 be' a])
    show "write_packet env s filp (Ptr w) (t @ NUL # q) count =
       (let s1 = s\<lparr>mem := h2, dev := d\<lparr>first_packet := 1\<rparr>\<rparr> in
        if newline \<in> set t then
          res_bind (write_commit env s1 filp be') (\<lambda>(s, filp). write_exit s (Ptr w) filp count)
        else write_exit s1 (Ptr w) filp count)"
      using w(2) c(2,6,7) al(1,2,8) cat by (cases "newline \<in> set t")
        (simp_all add: write_packet_def c_strchr_app h2_def be'_def d_def Let_def)
    show "appended s b p n t w h2 be' a"
      using c(1,6) al(3-7,9,10) w nw[OF c(6,7)] fp al(13) mem2 n2 append_memory_bound[OF env len]
      by (auto simp: appended_def h2_def bs_def be'_def finite_heap_def simp del: of_nat_add)
  qed
qed

text \<open>The blocks the abstract device needs: one for each command it keeps, and one for the pending text.\<close>

definition owned :: "dev_spec \<Rightarrow> nat" where
  "owned d = length (hist d) + (if psize d = 0 then 0 else 1)"

lemma cb_strings_length: "cb_mem h b \<Longrightarrow> length (cb_strings h b) \<le> 10"
  by (simp add: cb_mem_def cb_strings_def length_cb_list)

lemma packet_goes_on:
  assumes "appended s b p n t w h be a" "dev_core s b p n" "lock (dev s)" "newline \<notin> set t" "w \<notin> cb_addrs b"
  shows "\<exists>s'. write_exit (s\<lparr>mem := h, dev := (dev s)\<lparr>first_packet := 1\<rparr>\<rparr>) (Ptr w) filp count = Inr (s', filp, count) \<and>
    refines s' \<lparr>hist = cb_strings (mem s) b, pending = p @ t, psize = n + length t + 1\<rparr> \<and>
    blocks (mem s') + 1 = blocks (mem s) + (if n = 0 then 1 else 0)"
proof -
  note ap = assms(1)[unfolded appended_def]
  obtain ab where c: "buffer (dev s) = Ptr ab" "cbufs (mem s) ab = Some b" "end_of_packet (dev s) = 0"
    using assms(2) by (auto elim: dev_coreE)
  obtain q where q: "chars h w = Some (t @ NUL # q)" using ap by blast
  define s' where "s' = s\<lparr>mem := h\<lparr>chars := (chars h)(w := None)\<rparr>, dev := (dev s)\<lparr>first_packet := 1, lock := False\<rparr>\<rparr>"
  have run: "write_exit (s\<lparr>mem := h, dev := (dev s)\<lparr>first_packet := 1\<rparr>\<rparr>) (Ptr w) filp count = Inr (s', filp, count)"
    using assms(3) q by (simp add: write_exit_frees s'_def)
  have "unat (of_nat (n + length t + 1) :: size_t) = n + length t + 1"
    using ap by (intro unat_of_nat_64) simp
  then have "pending_block (mem s') b be (p @ t) (n + length t + 1)"
    using ap assms(4) by (auto simp: pending_block_def s'_def simp del: append_assoc of_nat_add)
  moreover have m: "cb_mem (mem s') b" "cb_strings (mem s') b = cb_strings (mem s) b"
    using ap cb_mem_upd[OF _ assms(5), of h None] by (simp_all add: s'_def)
  ultimately have "dev_core s' b (p @ t) (n + length t + 1)"
    using c ap by (auto simp: dev_core_def s'_def)
  moreover have "blocks (mem s') + 1 = blocks (mem s) + (if n = 0 then 1 else 0)"
    using blocks_free[OF _ q] ap by (simp add: s'_def)
  ultimately show ?thesis
    using run m(2) by (intro exI[of _ s']) (auto simp: refines_def s'_def)
qed

lemma packet_newline:
  assumes env: "write_env_ok env" "write_env_available env"
    and ap: "appended s b p n t w h be a" and core: "dev_core s b p n" "lock (dev s)" "newline \<in> set t"
    and w: "w \<notin> cb_addrs b" and len: "n + length t + 1 < KMALLOC_MAX_SIZE"
  defines "s1 \<equiv> s\<lparr>mem := h, dev := (dev s)\<lparr>end_of_packet := 1, first_packet := 1\<rparr>\<rparr>"
  shows "\<exists>s'. res_bind (write_commit env s1 filp be) (\<lambda>(s, filp). write_exit s (Ptr w) filp count) =
      Inr (s', filp\<lparr>f_pos := f_pos filp + of_nat (n + length t + 1)\<rparr>, count) \<and>
    refines s' \<lparr>hist = keep_last 10 (cb_strings (mem s) b @ [p @ t]), pending = [], psize = 0\<rparr> \<and>
    blocks (mem s') + 1 + (if length (cb_strings (mem s) b) = 10 then 1 else 0) = blocks (mem s) + (if n = 0 then 1 else 0) + 1"
proof -
  note ap = ap[unfolded appended_def]
  obtain ab where c: "buffer (dev s) = Ptr ab" "cbufs (mem s) ab = Some b" using core(1) by (auto elim: dev_coreE)
  obtain q r where q: "chars h w = Some (t @ NUL # q)" "chars h a = Some ((p @ t) @ NUL # r)" using ap by blast
  have pre: "finite_heap (mem s1)" "cb_mem (mem s1) b" "buffer (dev s1) = Ptr ab" "cbufs (mem s1) ab = Some b"
    "buffptr be = Ptr a" "chars (mem s1) a = Some ((p @ t) @ NUL # r)" "NUL \<notin> set (p @ t)"
    "length (p @ t) < KMALLOC_MAX_SIZE" "a \<notin> cb_addrs b"
    using c ap q(2) len by (auto simp: s1_def)
  obtain h' b' where cm: "write_commit env s1 filp be =
     Inr (s1\<lparr>mem := h', dev := (dev s1)\<lparr>first_packet := 0, end_of_packet := 0\<rparr>\<rparr>,
          filp\<lparr>f_pos := f_pos filp + esize be\<rparr>)"
    "finite_heap h'" "cbufs h' = (cbufs (mem s1))(ab \<mapsto> b')" "ents h' = ents (mem s1)"
    "cb_mem h' b'" "cb_strings h' b' = keep_last 10 (cb_strings (mem s1) b @ [p @ t])"
    "\<forall>x v. chars (mem s1) x = Some v \<and> v \<noteq> [] \<and> x \<notin> cb_addrs b \<and> x \<noteq> a \<longrightarrow> chars h' x = Some v \<and> x \<notin> cb_addrs b'"
    "p @ t \<noteq> [] \<longrightarrow> blocks h' + (if length (cb_strings (mem s1) b) = 10 then 1 else 0) = blocks (mem s1) + 1"
    by (rule write_commit_spec[OF env pre])
  have w': "chars h' w = Some (t @ NUL # q)" "w \<notin> cb_addrs b'" using cm(7) ap q(1) w by (auto simp: s1_def)
  define s' where "s' = s\<lparr>mem := h'\<lparr>chars := (chars h')(w := None)\<rparr>,
    dev := (dev s)\<lparr>first_packet := 0, end_of_packet := 0, lock := False\<rparr>\<rparr>"
  have m: "cb_mem (mem s') b'" "cb_strings (mem s') b' = keep_last 10 (cb_strings (mem s) b @ [p @ t])"
    using cm(5,6) ap cb_mem_upd[OF cm(5) w'(2), of None] by (simp_all add: s'_def s1_def)
  have "res_bind (write_commit env s1 filp be) (\<lambda>(s, filp). write_exit s (Ptr w) filp count) =
      Inr (s', filp\<lparr>f_pos := f_pos filp + of_nat (n + length t + 1)\<rparr>, count)"
    using core(2) cm(1) w'(1) ap by (simp add: write_exit_frees s'_def s1_def del: of_nat_add)
  moreover have "dev_core s' b' [] 0" using c ap cm(2-4) m(1) by (auto simp: dev_core_def s'_def s1_def)
  then have "refines s' \<lparr>hist = keep_last 10 (cb_strings (mem s) b @ [p @ t]), pending = [], psize = 0\<rparr>"
    using m(2) by (auto simp: refines_def s'_def)
  moreover have "p @ t \<noteq> []" using core(3) by auto
  then have "blocks (mem s') + 1 + (if length (cb_strings (mem s) b) = 10 then 1 else 0) =
      blocks (mem s) + (if n = 0 then 1 else 0) + 1"
    using blocks_free[OF cm(2) w'(1)] cm(8) ap by (simp add: s'_def s1_def)
  ultimately show ?thesis by blast
qed

lemma write_packet_refines:
  assumes env: "write_env_ok env" "write_env_available env" and core: "dev_core s b p n"
    and lock: "lock (dev s)" and w: "chars (mem s) w = Some (t @ NUL # q)" "NUL \<notin> set t" "w \<notin> cb_addrs b"
    and nw: "\<And>ae be. buffer_entry (dev s) = Ptr ae \<Longrightarrow> ents (mem s) ae = Some be \<Longrightarrow>
      first_packet (dev s) = 0 \<or> buffptr be \<noteq> Ptr w"
    and len: "n + length t + 1 < KMALLOC_MAX_SIZE"
  defines "step \<equiv> (if newline \<in> set t
      then (\<lparr>hist = keep_last 10 (cb_strings (mem s) b @ [p @ t]), pending = [], psize = 0\<rparr>, n + length t + 1)
      else (\<lparr>hist = cb_strings (mem s) b, pending = p @ t, psize = n + length t + 1\<rparr>, 0))"
  shows "\<exists>s'. write_packet env s filp (Ptr w) (t @ NUL # q) count =
      Inr (s', filp\<lparr>f_pos := f_pos filp + of_nat (snd step)\<rparr>, count) \<and> refines s' (fst step) \<and>
    blocks (mem s') + 1 + (length (cb_strings (mem s) b) + (if n = 0 then 0 else 1)) =
      blocks (mem s) + owned (fst step) + (if newline \<in> set t then 1 else 0)"
proof -
  have fin: "finite_heap (mem s)" "length (cb_strings (mem s) b) \<le> 10"
    using core cb_strings_length by (auto elim: dev_coreE)
  let ?d = "if newline \<in> set t then (dev s)\<lparr>end_of_packet := 1\<rparr> else dev s"
  obtain h be a where run: "write_packet env s filp (Ptr w) (t @ NUL # q) count =
       (let s1 = s\<lparr>mem := h, dev := ?d\<lparr>first_packet := 1\<rparr>\<rparr> in
        if newline \<in> set t then
          res_bind (write_commit env s1 filp be) (\<lambda>(s, filp). write_exit s (Ptr w) filp count)
        else write_exit s1 (Ptr w) filp count)"
    and ap: "appended s b p n t w h be a"
    by (rule write_packet_append[OF env(1) core w(1,2) nw append_memory_available[OF env(2) fin(1) len]])
  show ?thesis
  proof (cases "newline \<in> set t")
    case False
    then show ?thesis using run packet_goes_on[OF ap core lock False w(3), of filp count] by (auto simp: step_def owned_def)
  next
    case True
    obtain s' where "write_packet env s filp (Ptr w) (t @ NUL # q) count =
        Inr (s', filp\<lparr>f_pos := f_pos filp + of_nat (snd step)\<rparr>, count)" "refines s' (fst step)"
      "blocks (mem s') + 1 + (if length (cb_strings (mem s) b) = 10 then 1 else 0) = blocks (mem s) + (if n = 0 then 1 else 0) + 1"
      using packet_newline[OF env ap core lock True w(3) len, of filp count] run True by (auto simp: step_def)
    then show ?thesis using True fin(2)
      by (intro exI[of _ s']) (cases "length (cb_strings (mem s) b) = 10"; auto simp: owned_def step_def keep_last_def)
  qed
qed

text \<open>Taking the lock and filling the local buffer.\<close>

lemma write_prologue:
  assumes km: "kmalloc_ok (w_kmalloc env)" "w_kmalloc env (mem s) (8 * unat count) \<noteq> None"
    and free: "\<not> lock (dev s)" "\<not> w_interrupted env" "private_data filp = TheDev"
    and count: "0 < unat count"
    and copy: "w_copy env (unat count) = Some bytes" "length bytes = unat count"
  obtains w s1 q where "aesd_write env s filp count =
      write_packet env s1 filp (Ptr w) (text_of bytes @ NUL # q) count"
    "s1 = s\<lparr>mem := (mem s)\<lparr>chars := (chars (mem s))(w \<mapsto> text_of bytes @ NUL # q)\<rparr>,
       dev := (dev s)\<lparr>lock := True\<rparr>\<rparr>" "fresh (mem s) w"
proof -
  let ?n = "8 * unat count"
  obtain w bs where al: "w_kmalloc env (mem s) ?n = Some (w, bs)" using km(2) by auto
  have bs: "length bs = ?n" "fresh (mem s) w" using kmalloc_okD(1,3)[OF km(1) al] count by auto
  have n: "unat (count * 8) = ?n" using kmalloc_okD(2)[OF km(1) al] by (intro unat_mult_8) simp
  have "0 < ?n - unat count" using count by simp
  from padded_string[OF this, of bytes] obtain q where q:
    "bytes @ replicate (?n - unat count) NUL = text_of bytes @ NUL # q" by blast
  have wr: "mem_write (replicate ?n NUL) 0 bytes = Inr (text_of bytes @ NUL # q)"
    using q by (subst mem_write_0) (simp_all add: copy(2))
  have "c_memset0 bs ?n = Inr (replicate ?n NUL)" using c_memset0_all[of bs] bs(1) by simp
  then have "aesd_write env s filp count = write_packet env
      (s\<lparr>mem := (mem s)\<lparr>chars := (chars (mem s))(w \<mapsto> text_of bytes @ NUL # q)\<rparr>,
        dev := (dev s)\<lparr>lock := True\<rparr>\<rparr>) filp (Ptr w) (text_of bytes @ NUL # q) count"
    using free al copy(1) wr by (cases s) (simp add: aesd_write_def mutex_lock_def n kmalloc_chars_def)
  then show ?thesis using that bs(2) by blast
qed

lemma dev_core_new_block:
  assumes "dev_core s b p n" "fresh (mem s) w"
  shows "dev_core (s\<lparr>mem := (mem s)\<lparr>chars := (chars (mem s))(w := v)\<rparr>, dev := (dev s)\<lparr>lock := l\<rparr>\<rparr>) b p n"
    (is "dev_core ?s b p n")
    and "cb_strings ((mem s)\<lparr>chars := (chars (mem s))(w := v)\<rparr>) b = cb_strings (mem s) b"
    and "w \<notin> cb_addrs b"
proof -
  have mem: "cb_mem (mem s) b" using assms(1) by (simp add: dev_core_def)
  then show w: "w \<notin> cb_addrs b" using cb_addrs_disjoint_fresh assms(2) by blast
  show "cb_strings ((mem s)\<lparr>chars := (chars (mem s))(w := v)\<rparr>) b = cb_strings (mem s) b"
    by (rule cb_mem_upd[OF mem w])
  have pb: "pending_block (mem ?s) b be p n" if "pending_block (mem s) b be p n" for be
    using that assms(2) unfolding pending_block_def fresh_def by force
  show "dev_core ?s b p n"
    using assms(1) cb_mem_upd(1)[OF mem w, of v] pb unfolding dev_core_def by (auto split: if_splits)
qed

lemma write_start:
  assumes "refines s d" and km: "kmalloc_ok (w_kmalloc env)" "w_kmalloc env (mem s) (8 * unat count) \<noteq> None"
    and free: "\<not> w_interrupted env" "private_data filp = TheDev" and count: "0 < unat count"
    and copy: "w_copy env (unat count) = Some bytes" "length bytes = unat count"
  obtains w s1 q b where
    "aesd_write env s filp count = write_packet env s1 filp (Ptr w) (text_of bytes @ NUL # q) count"
    "dev_core s1 b (pending d) (psize d)" "lock (dev s1)"
    "chars (mem s1) w = Some (text_of bytes @ NUL # q)" "w \<notin> cb_addrs b"
    "cb_strings (mem s1) b = hist d"
    "\<forall>ae be. buffer_entry (dev s1) = Ptr ae \<longrightarrow> ents (mem s1) ae = Some be \<longrightarrow>
       first_packet (dev s1) = 0 \<or> buffptr be \<noteq> Ptr w"
    "s1 = s\<lparr>mem := (mem s)\<lparr>chars := (chars (mem s))(w \<mapsto> text_of bytes @ NUL # q)\<rparr>,
       dev := (dev s)\<lparr>lock := True\<rparr>\<rparr>" "fresh (mem s) w"
proof -
  obtain b where d: "\<not> lock (dev s)" "dev_core s b (pending d) (psize d)" "hist d = cb_strings (mem s) b"
    using assms(1) by (rule refinesE)
  obtain w s1 q where pro: "aesd_write env s filp count =
      write_packet env s1 filp (Ptr w) (text_of bytes @ NUL # q) count"
    "s1 = s\<lparr>mem := (mem s)\<lparr>chars := (chars (mem s))(w \<mapsto> text_of bytes @ NUL # q)\<rparr>,
       dev := (dev s)\<lparr>lock := True\<rparr>\<rparr>" "fresh (mem s) w"
    by (rule write_prologue[OF km d(1) free count copy])
  note nb = dev_core_new_block[OF d(2) pro(3)]
  have core: "dev_core s1 b (pending d) (psize d)" using nb(1) by (simp add: pro(2))
  have nw: "\<forall>ae be. buffer_entry (dev s1) = Ptr ae \<longrightarrow> ents (mem s1) ae = Some be \<longrightarrow>
       first_packet (dev s1) = 0 \<or> buffptr be \<noteq> Ptr w"
    using d(2) pro(3) unfolding dev_core_def pending_block_def fresh_def
    by (auto simp: pro(2) split: if_splits)
  have w: "lock (dev s1)" "chars (mem s1) w = Some (text_of bytes @ NUL # q)"
    "cb_strings (mem s1) b = hist d" using nb(2) d(3) by (simp_all add: pro(2))
  show ?thesis by (rule that[OF pro(1) core w(1,2) nb(3) w(3) nw pro(2,3)])
qed

lemma spec_write_cases:
  "spec_write bytes d = (if newline \<in> set (text_of bytes)
      then (\<lparr>hist = keep_last 10 (hist d @ [pending d @ text_of bytes]), pending = [], psize = 0\<rparr>,
            psize d + length (text_of bytes) + 1)
      else (\<lparr>hist = hist d, pending = pending d @ text_of bytes,
            psize = psize d + length (text_of bytes) + 1\<rparr>, 0))"
  by (cases d) (auto simp: spec_write_def Let_def)

lemma write_call_blocks:
  assumes "refines s d" and env: "write_env_ok env" "write_env_available env"
    and free: "\<not> w_interrupted env" "private_data filp = TheDev"
    and count: "0 < unat count" "8 * unat count < KMALLOC_MAX_SIZE"
    and copy: "w_copy env (unat count) = Some bytes" "length bytes = unat count"
    and len: "psize d + length (text_of bytes) + 1 < KMALLOC_MAX_SIZE"
  shows "\<exists>s'. aesd_write env s filp count =
      Inr (s', filp\<lparr>f_pos := f_pos filp + of_nat (snd (spec_write bytes d))\<rparr>, count) \<and>
    refines s' (fst (spec_write bytes d)) \<and>
    blocks (mem s') + owned d =
      blocks (mem s) + owned (fst (spec_write bytes d)) + (if newline \<in> set (text_of bytes) then 1 else 0)"
proof -
  have km: "kmalloc_ok (w_kmalloc env)" "w_kmalloc env (mem s) (8 * unat count) \<noteq> None"
    using env count(2) assms(1)
    by (auto simp: write_env_ok_def write_env_available_def refines_def dev_core_def kmalloc_available_def)
  obtain w s1 q b where st:
    "aesd_write env s filp count = write_packet env s1 filp (Ptr w) (text_of bytes @ NUL # q) count"
    "dev_core s1 b (pending d) (psize d)" "lock (dev s1)"
    "chars (mem s1) w = Some (text_of bytes @ NUL # q)" "w \<notin> cb_addrs b"
    "cb_strings (mem s1) b = hist d"
    "\<forall>ae be. buffer_entry (dev s1) = Ptr ae \<longrightarrow> ents (mem s1) ae = Some be \<longrightarrow>
       first_packet (dev s1) = 0 \<or> buffptr be \<noteq> Ptr w"
    "s1 = s\<lparr>mem := (mem s)\<lparr>chars := (chars (mem s))(w \<mapsto> text_of bytes @ NUL # q)\<rparr>,
       dev := (dev s)\<lparr>lock := True\<rparr>\<rparr>" "fresh (mem s) w"
    by (rule write_start[OF assms(1) km free count(1) copy])
  have "finite_heap (mem s)" using assms(1) by (auto simp: refines_def dev_core_def)
  then have "blocks (mem s1) = blocks (mem s) + 1" using blocks_new st(9) by (simp add: st(8))
  moreover have "owned d = length (cb_strings (mem s1) b) + (if psize d = 0 then 0 else 1)"
    by (simp add: owned_def st(6))
  moreover have sw: "spec_write bytes d = (if newline \<in> set (text_of bytes)
      then (\<lparr>hist = keep_last 10 (cb_strings (mem s1) b @ [pending d @ text_of bytes]), pending = [], psize = 0\<rparr>,
            psize d + length (text_of bytes) + 1)
      else (\<lparr>hist = cb_strings (mem s1) b, pending = pending d @ text_of bytes,
            psize = psize d + length (text_of bytes) + 1\<rparr>, 0))"
    unfolding spec_write_cases st(6) ..
  note write_packet_refines[OF env st(2-4) text_of_no_NUL st(5) st(7)[rule_format] len,
      where filp = filp and count = count, folded sw st(1)]
  ultimately show ?thesis by auto
qed

lemma write_call:
  assumes "refines s d" and env: "write_env_ok env" "write_env_available env"
    and free: "\<not> w_interrupted env" "private_data filp = TheDev"
    and count: "0 < unat count" "8 * unat count < KMALLOC_MAX_SIZE"
    and copy: "w_copy env (unat count) = Some bytes" "length bytes = unat count"
    and len: "psize d + length (text_of bytes) + 1 < KMALLOC_MAX_SIZE"
  shows "\<exists>s'. aesd_write env s filp count =
      Inr (s', filp\<lparr>f_pos := f_pos filp + of_nat (snd (spec_write bytes d))\<rparr>, count) \<and>
    refines s' (fst (spec_write bytes d))"
  using write_call_blocks[OF assms] by blast

text \<open>
  C3: \<open>aesd_write\<close> of a non-empty packet implements the abstract write: it returns \<open>count\<close>,
  frees the local buffer, leaves the mutex free, moves the file position by the amount the
  abstract write says, and the driver's state again represents the abstract device.
\<close>

theorem aesd_write_refines:
  assumes "refines s d" and env: "write_env_ok env" "write_env_available env"
    and free: "\<not> w_interrupted env" "private_data filp = TheDev"
    and count: "0 < unat count" "8 * unat count < KMALLOC_MAX_SIZE"
    and copy: "w_copy env (unat count) = Some bytes" "length bytes = unat count"
    and len: "psize d + length (text_of bytes) + 1 < KMALLOC_MAX_SIZE"
  shows "\<exists>s'. aesd_write env s filp count =
      Inr (s', filp\<lparr>f_pos := f_pos filp + of_nat (snd (spec_write bytes d))\<rparr>, count) \<and>
    refines s' (fst (spec_write bytes d))"
  by (rule write_call[OF assms])

end
