(* ===== verification/Driver_Read.thy ===== *)
theory Driver_Read
  imports Driver_Refinement
begin

text \<open>
  \<open>aesd_read\<close> against the abstract device: one call returns the rest of the command that holds the
  file position, and repeated calls return the rest of the whole history, command by command.
\<close>

subsection \<open>Environment of a read\<close>

text \<open>The kernel has memory for the local buffer and every copy to user space succeeds.\<close>

definition read_env_good :: "read_env \<Rightarrow> bool" where
  "read_env_good env \<longleftrightarrow> kmalloc_ok (r_kmalloc env) \<and> kmalloc_available (r_kmalloc env) \<and>
     \<not> r_interrupted env \<and> (\<forall>bs. r_copy_ok env bs)"

text \<open>Commands that fit the local buffer, eight bytes per character.\<close>

definition readable :: "dev_spec \<Rightarrow> bool" where
  "readable d \<longleftrightarrow> list_all (\<lambda>c. 8 * length c < KMALLOC_MAX_SIZE) (hist d)"

subsection \<open>The copy\<close>

lemma strncpy_rest:
  assumes "NUL \<notin> set s" "off < length s" "length rb = 8 * (length s - off)"
    "list_all (\<lambda>c. c = NUL) rb"
  shows "\<exists>rb'. c_strncpy rb (drop off (s @ NUL # r)) (length s - off) = Inr rb' \<and>
    length rb' = 8 * (length s - off) \<and> take (Suc (length s - off)) rb' = drop off s @ [NUL] \<and>
    c_strlen rb' = Inr (length s - off)"
proof -
  let ?n = "length s - off"
  obtain rb2 where rb2: "drop ?n rb = NUL # rb2"
  proof (cases "drop ?n rb")
    case Nil
    then show ?thesis using assms(2,3) by simp
  next
    case (Cons x xs)
    then have "x \<in> set rb" by (metis in_set_dropD list.set_intros(1))
    then show ?thesis using Cons that assms(4) by (auto simp: list_all_iff)
  qed
  have no: "NUL \<notin> set (drop off s)" using assms(1) by (auto dest: in_set_dropD)
  have "strncpy_bytes ?n (drop off s @ NUL # r) = Inr (drop off s)"
    using strncpy_bytes_within[OF no, of ?n "NUL # r"] by simp
  moreover have "drop off (s @ NUL # r) = drop off s @ NUL # r" using assms(2) by simp
  ultimately have "c_strncpy rb (drop off (s @ NUL # r)) ?n = Inr (drop off s @ NUL # rb2)"
    using assms(3) rb2 by (simp add: c_strncpy_def mem_write_0)
  moreover have "length (drop off s @ NUL # rb2) = length rb"
    using arg_cong[OF rb2, of length] assms(3) by simp
  ultimately show ?thesis using no assms(3) by simp
qed

lemma read_copy_spec:
  assumes km: "kmalloc_ok (r_kmalloc env)" "r_kmalloc env (mem s) (8 * (length t - off)) = Some (w, bs)"
    and lock: "lock (dev s)"
    and e: "buffptr e = Ptr a" "chars (mem s) a = Some (t @ NUL # r)" "NUL \<notin> set t" "length t < 2 ^ 31"
      "esize e = of_nat (length t)"
    and off: "off < length t"
  defines "n \<equiv> of_nat (length t - off) :: size_t" and "out \<equiv> drop off t @ [NUL]"
  shows "read_copy env s filp e (of_nat off) =
      (let s' = s\<lparr>mem := (mem s)\<lparr>chars := (chars (mem s))(w := None)\<rparr>, dev := (dev s)\<lparr>lock := False\<rparr>\<rparr>;
           filp' = filp\<lparr>f_pos := f_pos filp + n\<rparr> in
       Inr (if r_copy_ok env out then (s', filp', n, out) else (s', filp', - EFAULT, [])))"
    and "fresh (mem s) w"
proof -
  let ?k = "length t - off"
  have n: "esize e - of_nat off = n" using off e(5) by (simp add: n_def of_nat_diff)
  have un: "unat n = ?k" "unat (n * 8) = 8 * ?k" "unat (n + 1) = Suc ?k"
  proof -
    have "?k < 2 ^ 60" using e(4) by simp
    then show "unat n = ?k" using unat_of_nat_64[of ?k] by (simp add: n_def)
    then show "unat (n * 8) = 8 * ?k" using unat_mult_8[of n] \<open>?k < 2 ^ 60\<close> by simp
    have "n + 1 = of_nat (Suc ?k)" by (simp add: n_def)
    then show "unat (n + 1) = Suc ?k" using unat_of_nat_64[of "Suc ?k"] e(4) by (simp del: of_nat_Suc)
  qed
  have uo: "unat (of_nat off :: size_t) = off" using off e(4) by (intro unat_of_nat_64) simp
  have al: "length bs = 8 * ?k" "fresh (mem s) w" using kmalloc_okD(1,3)[OF km] off by auto
  then have wa: "w \<noteq> a" using e(2) by (auto simp: fresh_def)
  have z: "c_memset0 bs (8 * ?k) = Inr (replicate (8 * ?k) NUL)" using c_memset0_all[of bs] al(1) by simp
  obtain rb where rb: "c_strncpy (replicate (8 * ?k) NUL) (drop off (t @ NUL # r)) ?k = Inr rb"
      "length rb = 8 * ?k" "take (Suc ?k) rb = out" "c_strlen rb = Inr ?k"
    using strncpy_rest[OF e(3) off, of "replicate (8 * ?k) NUL" r] by (auto simp: out_def list_all_iff)
  have ne: "rb \<noteq> []" "Suc ?k \<le> length rb" using rb(2) off by auto
  have str: "c_string (drop off (t @ NUL # r)) = Inr (drop off t)"
  proof -
    have "NUL \<notin> set (drop off t)" using e(3) by (auto dest: in_set_dropD)
    then show ?thesis using off c_string_app[of "drop off t" r] by simp
  qed
  show "read_copy env s filp e (of_nat off) =
      (let s' = s\<lparr>mem := (mem s)\<lparr>chars := (chars (mem s))(w := None)\<rparr>, dev := (dev s)\<lparr>lock := False\<rparr>\<rparr>;
           filp' = filp\<lparr>f_pos := f_pos filp + n\<rparr> in
       Inr (if r_copy_ok env out then (s', filp', n, out) else (s', filp', - EFAULT, [])))"
    using km(2) wa e(1,2) z str rb ne lock off
    by (simp add: read_copy_def Let_def n add_diff_eq[symmetric] un uo kmalloc_chars_def read_exit_def
        kfree_chars_nonempty mutex_unlock_def)
  show "fresh (mem s) w" by (rule al(2))
qed

subsection \<open>One call\<close>

lemma dev_core_cong:
  assumes "mem s' = mem s" "buffer (dev s') = buffer (dev s)" "buffer_entry (dev s') = buffer_entry (dev s)"
    "end_of_packet (dev s') = end_of_packet (dev s)" "first_packet (dev s') = first_packet (dev s)"
  shows "dev_core s' b p n = dev_core s b p n"
  unfolding dev_core_def assms ..

text \<open>Nothing at the position: no bytes, no movement.\<close>

lemma read_past_end:
  assumes core: "dev_core s b p n" and free: "\<not> lock (dev s)" "\<not> r_interrupted env" "private_data filp = TheDev"
    and loc: "locate (map length (cb_strings (mem s) b)) (unat (f_pos filp)) = None"
  shows "aesd_read env s filp count = Inr (s\<lparr>dev := (dev s)\<lparr>read_entry := ENull\<rparr>\<rparr>, filp, 0, [])"
proof -
  obtain ab where c: "cb_mem (mem s) b" "buffer (dev s) = Ptr ab" "cbufs (mem s) ab = Some b"
    using core by (auto elim: dev_coreE)
  have "aesd_circular_buffer_find_entry_offset_for_fpos b (f_pos filp) = Some (Inr (b, None))"
    using find_strings[OF c(1), of "f_pos filp"] loc by simp
  moreover have "(mem s)\<lparr>cbufs := (cbufs (mem s))(ab \<mapsto> b)\<rparr> = mem s"
    using c(3) by (simp add: fun_upd_idem)
  ultimately show ?thesis
    using c(2,3) free by (cases s) (simp add: aesd_read_def mutex_lock_def mutex_unlock_def)
qed

text \<open>
  A hit at slot \<open>k\<close>, offset \<open>off\<close>: what remains is \<open>read_copy\<close> on the entry found, with
  \<open>read_entry\<close> set to the address of its slot.
\<close>

lemma read_hit:
  assumes core: "dev_core s b p n" and free: "\<not> lock (dev s)" "\<not> r_interrupted env" "private_data filp = TheDev"
    and loc: "locate (map length (cb_strings (mem s) b)) (unat (f_pos filp)) = Some (k, off)"
  obtains a ab i t r where
    "aesd_read env s filp count = read_copy env
       (s\<lparr>dev := (dev s)\<lparr>lock := True, read_entry := EIn ab i\<rparr>\<rparr>) filp (cb_list b ! k) (of_nat off)"
    "buffer (dev s) = Ptr ab" "unat i = (unat (out_offs b) + k) mod 10"
    "buffptr (cb_list b ! k) = Ptr a" "chars (mem s) a = Some (t @ NUL # r)" "NUL \<notin> set t"
    "length t < 2 ^ 31" "esize (cb_list b ! k) = of_nat (length t)" "off < length t"
    "cb_strings (mem s) b ! k = t" "k < length (cb_strings (mem s) b)"
proof -
  obtain ab where c: "cb_mem (mem s) b" "buffer (dev s) = Ptr ab" "cbufs (mem s) ab = Some b"
    using core by (auto elim: dev_coreE)
  note hit = find_hit[OF c(1) loc]
  let ?i = "of_nat ((unat (out_offs b) + k) mod 10) :: u8"
  have "entry_ok (mem s) (cb_list b ! k)" using cb_memD(2)[OF c(1)] hit(4) by simp
  then obtain a t r where e: "buffptr (cb_list b ! k) = Ptr a" "chars (mem s) a = Some (t @ NUL # r)"
      "NUL \<notin> set t" "length t < 2 ^ 31" "esize (cb_list b ! k) = of_nat (length t)"
      "entry_string (mem s) (cb_list b ! k) = t" by (elim entry_okE)
  have same: "(mem s)\<lparr>cbufs := (cbufs (mem s))(ab \<mapsto> b)\<rparr> = mem s"
    using c(3) by (simp add: fun_upd_idem)
  have run: "aesd_read env s filp count = read_copy env
       (s\<lparr>dev := (dev s)\<lparr>lock := True, read_entry := EIn ab ?i\<rparr>\<rparr>) filp (cb_list b ! k) (of_nat off)"
    using c(2,3) free hit(1,3) same by (cases s) (simp add: aesd_read_def mutex_lock_def)
  have i: "unat ?i = (unat (out_offs b) + k) mod 10" by (simp add: unat_of_nat)
  have t: "cb_strings (mem s) b ! k = t" "off < length t" "k < length (cb_strings (mem s) b)"
    using hit(4,5,6) e(6) by (simp_all add: cb_strings_def)
  show ?thesis by (rule that[OF run c(2) i e(1-5) t(2,1,3)])
qed

lemma read_call_hit:
  assumes "refines s d" "read_env_good env" "readable d" "private_data filp = TheDev"
    and loc: "locate (map length (hist d)) (unat (f_pos filp)) = Some (k, off)"
  defines "out \<equiv> drop off (hist d ! k)"
  shows "\<exists>s' a i. aesd_read env s filp count =
      Inr (s', filp\<lparr>f_pos := f_pos filp + of_nat (length out)\<rparr>, of_nat (length out), out @ [NUL]) \<and>
    out \<noteq> [] \<and> refines s' d \<and> mem s' = mem s \<and> buffer (dev s') = Ptr a \<and> read_entry (dev s') = EIn a i"
proof -
  obtain b where d: "\<not> lock (dev s)" "dev_core s b (pending d) (psize d)" "hist d = cb_strings (mem s) b"
    using assms(1) by (rule refinesE)
  have env: "\<not> r_interrupted env" "kmalloc_ok (r_kmalloc env)" "kmalloc_available (r_kmalloc env)"
    "\<And>bs. r_copy_ok env bs" using assms(2) by (auto simp: read_env_good_def)
  obtain a ab i t r where hit:
    "aesd_read env s filp count = read_copy env
       (s\<lparr>dev := (dev s)\<lparr>lock := True, read_entry := EIn ab i\<rparr>\<rparr>) filp (cb_list b ! k) (of_nat off)"
    "buffer (dev s) = Ptr ab" "unat i = (unat (out_offs b) + k) mod 10"
    "buffptr (cb_list b ! k) = Ptr a" "chars (mem s) a = Some (t @ NUL # r)" "NUL \<notin> set t"
    "length t < 2 ^ 31" "esize (cb_list b ! k) = of_nat (length t)" "off < length t"
    "cb_strings (mem s) b ! k = t" "k < length (cb_strings (mem s) b)"
    by (rule read_hit[OF d(2,1) env(1) assms(4) loc[unfolded d(3)]])
  have out: "out = drop off t" using hit(10) by (simp add: out_def d(3))
  have "8 * length t < KMALLOC_MAX_SIZE" using assms(3) hit(10,11) by (auto simp: readable_def list_all_length d(3))
  then have sz: "8 * (length t - off) < KMALLOC_MAX_SIZE" by simp
  have fin: "finite_heap (mem s)" using d(2) by (simp add: dev_core_def)
  obtain w bs where al: "r_kmalloc env (mem s) (8 * (length t - off)) = Some (w, bs)"
    by (rule kmalloc_availableE[OF env(3) fin sz])
  let ?s = "s\<lparr>dev := (dev s)\<lparr>lock := True, read_entry := EIn ab i\<rparr>\<rparr>"
  have pre: "r_kmalloc env (mem ?s) (8 * (length t - off)) = Some (w, bs)" "lock (dev ?s)"
    "chars (mem ?s) a = Some (t @ NUL # r)" using al hit(5) by simp_all
  note rc = read_copy_spec[OF env(2) pre(1,2) hit(4) pre(3) hit(6-9)]
  define s' where "s' = ?s\<lparr>dev := (dev ?s)\<lparr>lock := False\<rparr>\<rparr>"
  have "(mem s)\<lparr>chars := (chars (mem s))(w := None)\<rparr> = mem s" using rc(2) by (simp add: fresh_def fun_upd_idem)
  then have run: "aesd_read env s filp count =
      Inr (s', filp\<lparr>f_pos := f_pos filp + of_nat (length out)\<rparr>, of_nat (length out), out @ [NUL])"
    using rc(1) env(4) hit(1) by (simp add: out s'_def)
  have "dev_core s' b (pending d) (psize d)"
    using d(2) by (rule iffD1[OF dev_core_cong, rotated -1]) (simp_all add: s'_def)
  then have "refines s' d" using d(3) by (auto simp: refines_def s'_def)
  then show ?thesis using run hit(2,9) by (intro exI[of _ s'] exI[of _ ab] exI[of _ i]) (simp add: out s'_def)
qed

lemma read_call:
  assumes "refines s d" "read_env_good env" "readable d" "private_data filp = TheDev"
  defines "out \<equiv> spec_read d (unat (f_pos filp))"
  shows "\<exists>s'. aesd_read env s filp count =
      Inr (s', filp\<lparr>f_pos := f_pos filp + of_nat (length out)\<rparr>, of_nat (length out),
           if out = [] then [] else out @ [NUL]) \<and> refines s' d \<and> mem s' = mem s \<and>
    (if out = [] then read_entry (dev s') = ENull
     else \<exists>a i. buffer (dev s') = Ptr a \<and> read_entry (dev s') = EIn a i)"
proof (cases "locate (map length (hist d)) (unat (f_pos filp))")
  case None
  obtain b where d: "\<not> lock (dev s)" "dev_core s b (pending d) (psize d)" "hist d = cb_strings (mem s) b"
    using assms(1) by (rule refinesE)
  have "dev_core (s\<lparr>dev := (dev s)\<lparr>read_entry := ENull\<rparr>\<rparr>) b (pending d) (psize d)"
    using d(2) by (subst dev_core_cong[where s = s]) simp_all
  moreover have "\<not> r_interrupted env" using assms(2) by (simp add: read_env_good_def)
  ultimately show ?thesis
    using read_past_end[OF d(2,1) _ assms(4), of env count] None d(1,3)
    by (auto simp: out_def spec_read_def refines_def)
next
  case (Some ko)
  then obtain k off where loc: "locate (map length (hist d)) (unat (f_pos filp)) = Some (k, off)"
    by (cases ko) auto
  then have "out = drop off (hist d ! k)" by (simp add: out_def spec_read_def)
  then show ?thesis using read_call_hit[OF assms(1-4) loc, of count] by auto
qed

text \<open>
  C4: a read that is not interrupted and has memory returns exactly what the abstract device
  returns: the rest of the command that holds the file position, and its length. The position
  advances by that length, the mutex is free again and the device represents the same history.
  The bytes copied to the user are one more than the return value, the extra one a NUL; the heap is
  as it was before the call.
\<close>

theorem aesd_read_refines:
  assumes "refines s d" "read_env_good env" "readable d" "private_data filp = TheDev"
  defines "out \<equiv> spec_read d (unat (f_pos filp))"
  shows "\<exists>s'. aesd_read env s filp count =
      Inr (s', filp\<lparr>f_pos := f_pos filp + of_nat (length out)\<rparr>, of_nat (length out),
           if out = [] then [] else out @ [NUL]) \<and> refines s' d \<and> mem s' = mem s"
  using read_call[OF assms(1-4), of count] unfolding out_def by blast

end
