(* ===== verification/Driver_Errors.thy ===== *)
theory Driver_Errors
  imports Driver_Read
begin

text \<open>
  The other branches of \<open>aesd_read\<close> and \<open>aesd_write\<close>: interruption, failed copies and failed
  allocations, and the inputs on which the code leaves C's defined behaviour.
\<close>

subsection \<open>Failures of write before the packet is taken\<close>

lemma write_no_buffer:
  assumes "\<not> lock (dev s)" "\<not> w_interrupted env" "private_data filp = TheDev"
    "w_kmalloc env (mem s) (unat (count * 8)) = None"
  shows "aesd_write env s filp count = Inr (s, filp, - ENOMEM)"
  using assms
  by (cases s) (simp add: aesd_write_def mutex_lock_def mutex_unlock_def kmalloc_chars_def write_exit_def)

lemma write_copy_fails:
  assumes ok: "kmalloc_ok (w_kmalloc env)" and "\<not> lock (dev s)" "\<not> w_interrupted env"
    "private_data filp = TheDev"
    and al: "w_kmalloc env (mem s) (unat (count * 8)) = Some (w, bs)" and pos: "0 < unat (count * 8)"
    and "w_copy env (unat count) = None"
  shows "aesd_write env s filp count = Inr (s, filp, - EFAULT)"
proof -
  have bs: "length bs = unat (count * 8)" "fresh (mem s) w" using kmalloc_okD(1,3)[OF ok al] pos by auto
  then have z: "c_memset0 bs (unat (count * 8)) = Inr (replicate (unat (count * 8)) NUL)"
    using c_memset0_all[of bs] by simp
  have ne: "bs \<noteq> []" using bs(1) pos by auto
  have "(chars (mem s))(w := None) = chars (mem s)" using bs(2) by (simp add: fresh_def fun_upd_idem)
  then show ?thesis
    using assms z ne
    by (cases s) (simp add: aesd_write_def mutex_lock_def mutex_unlock_def kmalloc_chars_def
        write_exit_def kfree_chars_nonempty)
qed

lemma write_failure:
  assumes "kmalloc_ok (w_kmalloc env)" "\<not> lock (dev s)" "private_data filp = TheDev"
    "0 < unat (count * 8)"
    "w_interrupted env \<or> w_kmalloc env (mem s) (unat (count * 8)) = None \<or> w_copy env (unat count) = None"
  shows "aesd_write env s filp count = Inr (s, filp,
    if w_interrupted env then - ERESTARTSYS
    else if w_kmalloc env (mem s) (unat (count * 8)) = None then - ENOMEM else - EFAULT)"
proof (cases "w_interrupted env")
  case True
  then show ?thesis using assms(3) by (simp add: aesd_write_def)
next
  case intr: False
  show ?thesis
  proof (cases "w_kmalloc env (mem s) (unat (count * 8))")
    case None
    then show ?thesis using write_no_buffer[OF assms(2) intr assms(3) None] intr by simp
  next
    case (Some wb)
    then obtain w bs where al: "w_kmalloc env (mem s) (unat (count * 8)) = Some (w, bs)" by (cases wb) auto
    then have "w_copy env (unat count) = None" using assms(5) intr by simp
    then show ?thesis using write_copy_fails[OF assms(1,2) intr assms(3) al assms(4)] al intr by simp
  qed
qed

text \<open>
  C19: a write that fails before it has taken the packet (interrupted while waiting for the lock, no
  memory for the local buffer, or a fault while copying from user space) returns the matching
  negative error and leaves heap, device, mutex and file position exactly as they were.
\<close>

theorem aesd_write_failure_atomic:
  assumes "kmalloc_ok (w_kmalloc env)" "\<not> lock (dev s)" "private_data filp = TheDev"
    "0 < unat (count * 8)"
    "w_interrupted env \<or> w_kmalloc env (mem s) (unat (count * 8)) = None \<or> w_copy env (unat count) = None"
  shows "aesd_write env s filp count = Inr (s, filp,
    if w_interrupted env then - ERESTARTSYS
    else if w_kmalloc env (mem s) (unat (count * 8)) = None then - ENOMEM else - EFAULT)"
  by (rule write_failure[OF assms])

subsection \<open>A write of no bytes\<close>

text \<open>
  \<open>write(fd, buf, 0)\<close> asks for an empty block and then searches it for a newline: the search
  reads past the block.
\<close>

lemma aesd_write_zero_length:
  assumes "kmalloc_ok (w_kmalloc env)" "\<not> lock (dev s)" "\<not> w_interrupted env"
    "private_data filp = TheDev" "w_kmalloc env (mem s) 0 = Some (w, bs)" "w_copy env 0 = Some []"
  shows "aesd_write env s filp 0 = Inl OutOfBounds"
proof -
  have "bs = []" using kmalloc_okD(1)[OF assms(1,5)] by simp
  then show ?thesis
    using assms(2-6)
    by (cases s) (simp add: aesd_write_def mutex_lock_def kmalloc_chars_def c_memset0_def mem_write_def
        write_packet_def)
qed

subsection \<open>Failed allocations while the packet is stored\<close>

text \<open>
  When the allocation for the first packet of a command fails, \<open>memset\<close> runs on the null
  pointer before the test for it.
\<close>

lemma aesd_write_first_alloc_null:
  assumes "refines s d" "first_packet (dev s) = 0"
    and km: "kmalloc_ok (w_kmalloc env)" "w_kmalloc env (mem s) (8 * unat count) \<noteq> None"
    and free: "\<not> w_interrupted env" "private_data filp = TheDev" and count: "0 < unat count"
    and copy: "w_copy env (unat count) = Some bytes" "length bytes = unat count"
    and none: "\<And>h. w_kmalloc env h (length (text_of bytes) + 1) = None"
  shows "aesd_write env s filp count = Inl NullDeref"
proof -
  obtain w s1 q b where st:
    "aesd_write env s filp count = write_packet env s1 filp (Ptr w) (text_of bytes @ NUL # q) count"
    "dev_core s1 b (pending d) (psize d)" "lock (dev s1)"
    "s1 = s\<lparr>mem := (mem s)\<lparr>chars := (chars (mem s))(w \<mapsto> text_of bytes @ NUL # q)\<rparr>,
       dev := (dev s)\<lparr>lock := True\<rparr>\<rparr>"
    by (rule write_start[OF assms(1) km free count copy])
  obtain ae be where c: "buffer_entry (dev s1) = Ptr ae" "ents (mem s1) ae = Some be"
    using st(2) by (auto elim: dev_coreE)
  have fp: "first_packet (dev s1) = 0" using assms(2) by (simp add: st(4))
  have "length (text_of bytes) + 1 < 2 ^ 64"
    using text_of_length[of bytes] copy(2) km by (auto dest!: kmalloc_okD(2))
  then have u: "unat (of_nat (length (text_of bytes)) + 1 :: size_t) = length (text_of bytes) + 1"
    using unat_of_nat_64[of "length (text_of bytes) + 1"] by (simp add: add.commute)
  have n: "w_kmalloc env h (Suc (length (text_of bytes))) = None" for h using none[of h] by simp
  show ?thesis
    using c fp u n text_of_no_NUL[of bytes]
    by (simp add: st(1) write_packet_def c_strchr_app Let_def write_alloc_def kmalloc_chars_def)
qed

text \<open>
  When the reallocation for a later packet fails, \<open>-ENOMEM\<close> is returned and the mutex is free,
  but the entry's pointer is overwritten with null: the packets received so far stay allocated with
  no pointer to them, and the state represents no abstract device any more.
\<close>

theorem aesd_write_realloc_loses_command:
  assumes "refines s d" "first_packet (dev s) \<noteq> 0"
    and km: "kmalloc_ok (w_kmalloc env)" "w_kmalloc env (mem s) (8 * unat count) \<noteq> None"
    and free: "\<not> w_interrupted env" "private_data filp = TheDev" and count: "0 < unat count"
    and copy: "w_copy env (unat count) = Some bytes" "length bytes = unat count"
    and none: "\<And>h a n. w_krealloc env h a n = None"
  shows "\<exists>s' ae be a r. aesd_write env s filp count = Inr (s', filp, - ENOMEM) \<and> \<not> lock (dev s') \<and>
    buffer_entry (dev s') = Ptr ae \<and> ents (mem s') ae = Some be \<and> buffptr be = Null \<and>
    chars (mem s') a = Some (pending d @ NUL # r) \<and> (\<forall>d'. \<not> refines s' d')"
proof -
  obtain w s1 q b where st:
    "aesd_write env s filp count = write_packet env s1 filp (Ptr w) (text_of bytes @ NUL # q) count"
    "dev_core s1 b (pending d) (psize d)" "lock (dev s1)"
    "chars (mem s1) w = Some (text_of bytes @ NUL # q)" "w \<notin> cb_addrs b"
    "cb_strings (mem s1) b = hist d"
    "\<forall>ae be. buffer_entry (dev s1) = Ptr ae \<longrightarrow> ents (mem s1) ae = Some be \<longrightarrow>
       first_packet (dev s1) = 0 \<or> buffptr be \<noteq> Ptr w"
    "s1 = s\<lparr>mem := (mem s)\<lparr>chars := (chars (mem s))(w \<mapsto> text_of bytes @ NUL # q)\<rparr>,
       dev := (dev s)\<lparr>lock := True\<rparr>\<rparr>"
    by (rule write_start[OF assms(1) km free count copy])
  have fp: "first_packet (dev s1) \<noteq> 0" using assms(2) by (simp add: st(8))
  obtain ae be where c: "buffer_entry (dev s1) = Ptr ae" "ents (mem s1) ae = Some be"
      "pending_block (mem s1) b be (pending d) (psize d)"
    using st(2) fp by (auto elim: dev_coreE)
  then obtain a r where a: "buffptr be = Ptr a" "chars (mem s1) a = Some (pending d @ NUL # r)" "a \<noteq> w"
    using st(7) fp by (auto simp: pending_block_def)
  define be' where "be' = be\<lparr>buffptr := Null\<rparr>"
  define dv where "dv = (if newline \<in> set (text_of bytes) then (dev s1)\<lparr>end_of_packet := 1\<rparr> else dev s1)"
  define s' where "s' = s1\<lparr>mem := (mem s1)\<lparr>ents := (ents (mem s1))(ae \<mapsto> be'), chars := (chars (mem s1))(w := None)\<rparr>,
    dev := dv\<lparr>lock := False\<rparr>\<rparr>"
  have "aesd_write env s filp count = Inr (s', filp, - ENOMEM)"
    using c fp a st(3,4) none text_of_no_NUL[of bytes]
    by (simp add: st(1) write_packet_def c_strchr_app Let_def write_alloc_def krealloc_chars_def
        write_exit_def mutex_unlock_def kfree_chars_nonempty s'_def be'_def dv_def)
  moreover have "\<not> refines s' d'" for d'
    using fp c(1) by (auto simp: refines_def dev_core_def pending_block_def s'_def be'_def dv_def)
  ultimately show ?thesis
    using a(2,3) c(1) by (intro exI[of _ s'] exI[of _ ae] exI[of _ be'] exI[of _ a] exI[of _ r])
      (simp add: s'_def be'_def dv_def)
qed

lemma write_commit_no_memory:
  assumes ring: "buffer (dev s) = Ptr ab" "cbufs (mem s) ab = Some b"
    and be: "buffptr be = Ptr a" "chars (mem s) a = Some (t @ NUL # r)" "NUL \<notin> set t"
    and none: "w_kmalloc env (mem s) (length t) = None"
  shows "write_commit env s filp be = Inr (s\<lparr>dev := (dev s)\<lparr>first_packet := 0, end_of_packet := 0\<rparr>\<rparr>,
    filp\<lparr>f_pos := f_pos filp + esize be\<rparr>)"
proof -
  have "aesd_circular_buffer_add_entry (w_kmalloc env) (mem s) b be = Inr (mem s, b, Null)"
    using add_entry_no_memory[of be a "mem s" t r "w_kmalloc env"] be none by simp
  moreover have "(mem s)\<lparr>cbufs := (cbufs (mem s))(ab \<mapsto> b)\<rparr> = mem s"
    using ring(2) by (simp add: fun_upd_idem)
  ultimately show ?thesis using ring by (simp add: write_commit_def)
qed

text \<open>
  \<open>aesd_circular_buffer_add_entry\<close> allocates a scratch buffer for its return value; when that
  fails it stores nothing. The write that completes a command then reports success and moves the
  file position, while the history is unchanged: the command is dropped.
\<close>

theorem aesd_write_drops_command:
  assumes "refines s d" and env: "write_env_ok env"
    and first: "w_kmalloc env (mem s) (8 * unat count) \<noteq> None"
    and free: "\<not> w_interrupted env" "private_data filp = TheDev" and count: "0 < unat count"
    and copy: "w_copy env (unat count) = Some bytes" "length bytes = unat count"
    and nl: "newline \<in> set (text_of bytes)"
    and app: "\<And>h. finite_heap h \<Longrightarrow> append_memory env h (psize d + length (text_of bytes) + 1)"
    and none: "\<And>h. w_kmalloc env h (length (pending d @ text_of bytes)) = None"
  shows "\<exists>s'. aesd_write env s filp count =
      Inr (s', filp\<lparr>f_pos := f_pos filp + of_nat (psize d + length (text_of bytes) + 1)\<rparr>, count) \<and>
    refines s' (d\<lparr>pending := [], psize := 0\<rparr>)"
proof -
  have km: "kmalloc_ok (w_kmalloc env)" using env by (simp add: write_env_ok_def)
  obtain w s1 q b where st:
    "aesd_write env s filp count = write_packet env s1 filp (Ptr w) (text_of bytes @ NUL # q) count"
    "dev_core s1 b (pending d) (psize d)" "lock (dev s1)"
    "chars (mem s1) w = Some (text_of bytes @ NUL # q)" "w \<notin> cb_addrs b"
    "cb_strings (mem s1) b = hist d"
    "\<forall>ae be. buffer_entry (dev s1) = Ptr ae \<longrightarrow> ents (mem s1) ae = Some be \<longrightarrow>
       first_packet (dev s1) = 0 \<or> buffptr be \<noteq> Ptr w"
    by (rule write_start[OF assms(1) km first free count copy])
  obtain ab where c: "buffer (dev s1) = Ptr ab" "cbufs (mem s1) ab = Some b" "finite_heap (mem s1)"
    using st(2) by (auto elim: dev_coreE)
  let ?t = "text_of bytes" and ?d = "(dev s1)\<lparr>end_of_packet := 1\<rparr>"
  obtain h2 be a where run: "write_packet env s1 filp (Ptr w) (?t @ NUL # q) count =
       (let s2 = s1\<lparr>mem := h2, dev := (if newline \<in> set ?t then ?d else dev s1)\<lparr>first_packet := 1\<rparr>\<rparr> in
        if newline \<in> set ?t then
          res_bind (write_commit env s2 filp be) (\<lambda>(s, filp). write_exit s (Ptr w) filp count)
        else write_exit s2 (Ptr w) filp count)"
    and app': "appended s1 b (pending d) (psize d) ?t w h2 be a"
    by (rule write_packet_append[OF env st(2,4) text_of_no_NUL st(7)[rule_format] app[OF c(3)]])
  note ap = app'[unfolded appended_def]
  obtain r v where rv: "chars h2 a = Some ((pending d @ ?t) @ NUL # r)" "chars h2 w = Some v" "v \<noteq> []" using ap by auto
  let ?s2 = "s1\<lparr>mem := h2, dev := ?d\<lparr>first_packet := 1\<rparr>\<rparr>"
  have cm: "write_commit env ?s2 filp be = Inr (?s2\<lparr>dev := (dev ?s2)\<lparr>first_packet := 0, end_of_packet := 0\<rparr>\<rparr>,
      filp\<lparr>f_pos := f_pos filp + esize be\<rparr>)"
    by (rule write_commit_no_memory[where a = a and t = "pending d @ ?t" and ab = ab and b = b and r = r])
      (use c ap rv(1) none in simp_all)
  define s' where "s' = s1\<lparr>mem := h2\<lparr>chars := (chars h2)(w := None)\<rparr>,
    dev := (dev s1)\<lparr>end_of_packet := 0, first_packet := 0, lock := False\<rparr>\<rparr>"
  have run: "aesd_write env s filp count = Inr (s', filp\<lparr>f_pos := f_pos filp + esize be\<rparr>, count)"
    using st(1,3) run rv(2,3) nl cm by (simp add: write_exit_frees s'_def)
  have mem': "cb_mem (mem s') b" "cb_strings (mem s') b = cb_strings (mem s1) b"
    using ap cb_mem_upd[OF _ st(5), of h2 None] by (simp_all add: s'_def)
  then have "dev_core s' b [] 0" using c ap by (auto simp: dev_core_def s'_def)
  then show ?thesis
    using run st(6) mem'(2) ap by (intro exI[of _ s']) (auto simp: refines_def s'_def simp del: of_nat_add)
qed

subsection \<open>Failures of read\<close>

text \<open>
  When the local buffer of a read cannot be allocated, nothing is copied to the user, yet the
  call returns the positive length of the rest of the command and moves the file position past it.
\<close>

lemma aesd_read_no_memory:
  assumes "refines s d" "\<not> r_interrupted env" "private_data filp = TheDev"
    and none: "\<And>h n. r_kmalloc env h n = None"
  defines "out \<equiv> spec_read d (unat (f_pos filp))"
  shows "\<exists>s'. aesd_read env s filp count =
      Inr (s', filp\<lparr>f_pos := f_pos filp + of_nat (length out)\<rparr>, of_nat (length out), []) \<and> refines s' d"
proof -
  obtain b where d: "\<not> lock (dev s)" "dev_core s b (pending d) (psize d)" "hist d = cb_strings (mem s) b"
    using assms(1) by (rule refinesE)
  show ?thesis
  proof (cases "locate (map length (hist d)) (unat (f_pos filp))")
    case None
    have "dev_core (s\<lparr>dev := (dev s)\<lparr>read_entry := ENull\<rparr>\<rparr>) b (pending d) (psize d)"
      using d(2) by (subst dev_core_cong[where s = s]) simp_all
    then show ?thesis
      using read_past_end[OF d(2,1) assms(2,3), of count] None d(1,3)
      by (auto simp: out_def spec_read_def refines_def)
  next
    case (Some ko)
    then obtain k off where loc: "locate (map length (hist d)) (unat (f_pos filp)) = Some (k, off)"
      by (cases ko) auto
    obtain a ab i t r where hit:
      "aesd_read env s filp count = read_copy env
         (s\<lparr>dev := (dev s)\<lparr>lock := True, read_entry := EIn ab i\<rparr>\<rparr>) filp (cb_list b ! k) (of_nat off)"
      "buffer (dev s) = Ptr ab" "unat i = (unat (out_offs b) + k) mod 10"
      "buffptr (cb_list b ! k) = Ptr a" "chars (mem s) a = Some (t @ NUL # r)" "NUL \<notin> set t"
      "length t < 2 ^ 31" "esize (cb_list b ! k) = of_nat (length t)" "off < length t"
      "cb_strings (mem s) b ! k = t" "k < length (cb_strings (mem s) b)"
      by (rule read_hit[OF d(2,1) assms(2,3) loc[unfolded d(3)]])
    have out: "out = drop off t" using loc hit(10) by (simp add: out_def spec_read_def d(3))
    let ?s' = "s\<lparr>dev := (dev s)\<lparr>lock := False, read_entry := EIn ab i\<rparr>\<rparr>"
    have n: "of_nat (length t) - of_nat off = (of_nat (length out) :: size_t)"
      using hit(9) by (simp add: out of_nat_diff)
    have "aesd_read env s filp count =
        Inr (?s', filp\<lparr>f_pos := f_pos filp + of_nat (length out)\<rparr>, of_nat (length out), [])"
      using hit(1,8) none
      by (cases s) (simp add: read_copy_def Let_def kmalloc_chars_def read_exit_def mutex_unlock_def
          add_diff_eq[symmetric] n)
    moreover have "dev_core ?s' b (pending d) (psize d)"
      using d(2) by (subst dev_core_cong[where s = s]) simp_all
    ultimately show ?thesis using d(1,3) by (auto simp: refines_def)
  qed
qed

end
