(* ===== verification/Driver_Seek.thy ===== *)
theory Driver_Seek
  imports Driver_Read
begin

text \<open>
  Moving the file position: \<open>aesd_seek\<close> and the ioctl \<open>AESDCHAR_IOCSEEKTO\<close>
  (\<open>aesd_adjust_file_offset\<close>), against positions in the concatenation of the stored commands.
\<close>

subsection \<open>The loop of the ioctl\<close>

lemma unat_widen:
  "unat (ucast (w :: u8) :: u32) = unat w" "unat (ucast (v :: u32) :: size_t) = unat v"
proof -
  have "unat w < 2 ^ 8" "unat v < 2 ^ 32" using unsigned_less[of w] unsigned_less[of v] by simp_all
  then show "unat (ucast w :: u32) = unat w" "unat (ucast v :: size_t) = unat v"
    by (simp_all add: unsigned_ucast_eq take_bit_nat_eq_self)
qed

lemma unat_slot: "unat (o' :: u8) + i < 256 \<Longrightarrow> unat (o' + of_nat i) = unat o' + i"
  by (simp add: unat_word_ariths unat_of_nat)

lemma of_nat_neq_u32: "i < 2 ^ 32 \<Longrightarrow> c < 2 ^ 32 \<Longrightarrow> (of_nat i \<noteq> (of_nat c :: u32)) = (i \<noteq> c)"
  by (simp add: word_unat_eq_iff unat_of_nat)

text \<open>As long as the indices stay inside the array the loop adds up the sizes.\<close>

lemma offset_loop_sum:
  assumes "length (entry b) = 10" "unat (out_offs b) + c \<le> 10" "i \<le> c" "c < i + n"
  shows "offset_loop n b (of_nat c) cmd_offset i acc =
    Inr (acc + sum_list (map (\<lambda>j. esize (entry b ! (unat (out_offs b) + j))) [i..<c]) + ucast cmd_offset)"
  using assms(3,4)
proof (induction n arbitrary: i acc)
  case (Suc n)
  show ?case
  proof (cases "i = c")
    case False
    then have i: "i < c" "unat (out_offs b) + i < 10" using Suc.prems assms(2) by auto
    have ne: "of_nat i \<noteq> (of_nat c :: u32)" using of_nat_neq_u32[of i c] i assms(2) by simp
    have at: "entry_at b (out_offs b + of_nat i) = Inr (entry b ! (unat (out_offs b) + i))"
      using i assms(1) by (simp add: entry_at_def unat_slot)
    have "offset_loop n b (of_nat c) cmd_offset (Suc i) (esize (entry b ! (unat (out_offs b) + i)) + acc) =
      Inr (esize (entry b ! (unat (out_offs b) + i)) + acc +
        sum_list (map (\<lambda>j. esize (entry b ! (unat (out_offs b) + j))) [Suc i..<c]) + ucast cmd_offset)"
      using Suc.prems i by (intro Suc.IH) auto
    then show ?thesis using ne at i(1) by (simp add: upt_conv_Cons algebra_simps)
  qed simp
qed simp

text \<open>When the wanted command lies behind the end of the array the loop runs off it.\<close>

lemma offset_loop_out_of_bounds:
  assumes "length (entry b) = 10" "unat (out_offs b) \<le> 10" "10 < unat (out_offs b) + c" "c < 10"
    "unat (out_offs b) + i \<le> 10" "10 < unat (out_offs b) + i + n"
  shows "offset_loop n b (of_nat c) cmd_offset i acc = Inl OutOfBounds"
  using assms(5,6)
proof (induction n arbitrary: i acc)
  case (Suc n)
  have ne: "of_nat i \<noteq> (of_nat c :: u32)" using of_nat_neq_u32[of i c] assms(3,4) Suc.prems by simp
  have u: "unat (out_offs b + of_nat i) = unat (out_offs b) + i" using Suc.prems by (simp add: unat_slot)
  show ?case
  proof (cases "unat (out_offs b) + i = 10")
    case True
    then show ?thesis using ne u assms(1) by (simp add: entry_at_def)
  next
    case False
    then show ?thesis using ne u assms(1) Suc by (simp add: entry_at_def)
  qed
qed simp

lemma slots_sum_strings:
  assumes mem: "cb_mem h b" and c: "c \<le> length (cb_strings h b)" "unat (out_offs b) + c \<le> 10"
  shows "sum_list (map (\<lambda>j. esize (entry b ! (unat (out_offs b) + j))) [0..<c]) =
    of_nat (length (concat (take c (cb_strings h b))))"
  using c
proof (induction c)
  case (Suc c)
  then have k: "c < length (cb_list b)" by (simp add: cb_strings_def)
  have "cb_list b ! c = entry b ! (unat (out_offs b) + c)"
    using cb_list_nth[OF cb_memD(1)[OF mem] k] Suc.prems(2) by simp
  moreover have "entry_ok h (cb_list b ! c)" using cb_memD(2)[OF mem] k by simp
  then have "esize (cb_list b ! c) = of_nat (length (cb_strings h b ! c))"
    using k by (auto simp: cb_strings_def elim: entry_okE)
  ultimately show ?case using Suc by (simp add: take_Suc_conv_app_nth)
qed simp

subsection \<open>The ioctl\<close>

definition ring_offs :: "kstate \<Rightarrow> nat" where
  "ring_offs s = (case load_cbuf (mem s) (buffer (dev s)) of Inl _ \<Rightarrow> 0 | Inr b \<Rightarrow> unat (out_offs b))"

definition seek_cmd :: "u32 \<Rightarrow> u32 \<Rightarrow> aesd_seekto" where
  "seek_cmd c off = \<lparr>write_cmd = c, write_cmd_offset = off\<rparr>"

text \<open>The entry a command number selects, or an empty slot.\<close>

lemma seek_slot:
  assumes mem: "cb_mem h b" and c: "c < 10"
  defines "i \<equiv> ucast ((ucast (out_offs b) + of_nat c :: u32) mod 10) :: u8"
  shows "c < length (cb_strings h b) \<Longrightarrow> entry_at b i = Inr (cb_list b ! c)"
    and "length (cb_strings h b) \<le> c \<Longrightarrow> entry_at b i = Inr null_entry"
proof -
  have wf: "cb_wf b" "unat (out_offs b) < 10" using cb_memD(1)[OF mem] cb_wf_offs by auto
  have "unat (ucast (out_offs b) + of_nat c :: u32) = unat (out_offs b) + c"
    using wf(2) c by (simp add: unat_word_ariths unat_of_nat unat_widen)
  then have "unat ((ucast (out_offs b) + of_nat c :: u32) mod 10) = (unat (out_offs b) + c) mod 10"
    by (simp add: unat_mod)
  then have ui: "unat i = (unat (out_offs b) + c) mod 10"
    by (simp add: i_def unsigned_ucast_eq take_bit_nat_eq_self)
  then have at: "entry_at b i = Inr (entry b ! ((unat (out_offs b) + c) mod 10))"
    using wf(1) by (simp add: entry_at_def)
  have "rotate (unat (out_offs b)) (entry b) ! c = entry b ! ((unat (out_offs b) + c) mod 10)"
    using wf(1) c by (simp add: nth_rotate)
  then have slot: "entry b ! ((unat (out_offs b) + c) mod 10) =
      (cb_list b @ replicate (10 - length (cb_list b)) null_entry) ! c"
    by (simp add: rotated_slots[OF wf(1)])
  show "c < length (cb_strings h b) \<Longrightarrow> entry_at b i = Inr (cb_list b ! c)"
    using at slot by (simp add: cb_strings_def nth_append)
  show "length (cb_strings h b) \<le> c \<Longrightarrow> entry_at b i = Inr null_entry"
    using at slot c by (simp add: cb_strings_def nth_append)
qed

text \<open>The helper with the lock taken, up to its two checks.\<close>

lemma adjust_locked:
  assumes core: "dev_core s b p n" and free: "\<not> lock (dev s)" "private_data filp = TheDev"
    and c: "c < 10"
  shows "aesd_adjust_file_offset False s filp (of_nat c) cmd_offset =
    (let strs = cb_strings (mem s) b in
     if length strs \<le> c \<or> length (strs ! c) < unat cmd_offset then Inr (s, filp, - EINVAL)
     else res_bind (offset_loop 11 b (of_nat c) cmd_offset 0 0)
            (\<lambda>total_size. Inr (s, filp\<lparr>f_pos := total_size\<rparr>, 0)))"
proof -
  obtain ab where d: "cb_mem (mem s) b" "buffer (dev s) = Ptr ab" "cbufs (mem s) ab = Some b"
    using core by (auto elim: dev_coreE)
  have c10: "\<not> 10 \<le> (of_nat c :: u32)" using c by (simp add: word_le_nat_alt unat_of_nat)
  note slot = seek_slot[OF d(1) c]
  show ?thesis
  proof (cases "c < length (cb_strings (mem s) b)")
    case True
    then have k: "c < length (cb_list b)" by (simp add: cb_strings_def)
    then have "entry_ok (mem s) (cb_list b ! c)" using cb_memD(2)[OF d(1)] by simp
    then have e: "buffptr (cb_list b ! c) \<noteq> Null" "unat (esize (cb_list b ! c)) = length (cb_strings (mem s) b ! c)"
      using k by (auto simp: cb_strings_def elim: entry_okE)
    have "esize (cb_list b ! c) < ucast cmd_offset \<longleftrightarrow> length (cb_strings (mem s) b ! c) < unat cmd_offset"
      by (simp add: word_less_nat_alt e(2) unat_widen)
    then show ?thesis
      using True slot(1)[OF True] e(1) c10 d(2,3) free
      by (cases s) (auto simp: aesd_adjust_file_offset_def mutex_lock_def mutex_unlock_def adjust_fail_def Let_def
          res_bind_def split: sum.split)
  next
    case False
    then show ?thesis
      using slot(2) c10 d(2,3) free
      by (cases s) (simp add: aesd_adjust_file_offset_def mutex_lock_def mutex_unlock_def adjust_fail_def Let_def)
  qed
qed

lemma refines_ring_offs:
  assumes "refines s d"
  obtains b where "\<not> lock (dev s)" "dev_core s b (pending d) (psize d)" "hist d = cb_strings (mem s) b"
    "ring_offs s = unat (out_offs b)" "cb_mem (mem s) b"
proof -
  obtain b where d: "\<not> lock (dev s)" "dev_core s b (pending d) (psize d)" "hist d = cb_strings (mem s) b"
    using assms by (rule refinesE)
  have "ring_offs s = unat (out_offs b)" "cb_mem (mem s) b"
    using d(2) by (auto simp: ring_offs_def elim!: dev_coreE)
  then show ?thesis using that d by blast
qed

lemma ioctl_seekto:
  "aesd_ioctl i s filp AESDCHAR_IOCSEEKTO (Some (seek_cmd c off)) =
     res_bind (aesd_adjust_file_offset i s filp c off)
       (\<lambda>(s, filp, r). Inr (s, filp, scast (ucast r :: cint)))"
  by (simp add: aesd_ioctl_def seek_cmd_def)

text \<open>
  C17: \<open>AESDCHAR_IOCSEEKTO\<close> with the number of a stored command and an offset up to its length moves
  the file to that byte of the concatenation of the stored commands, provided the command lies
  before the end of the array; once the ring has wrapped and the commands before it do not, the
  loop, which does not reduce its index modulo the array size, reads outside the array.
\<close>

theorem aesd_ioctl_seek:
  assumes "refines s d" "private_data filp = TheDev" "c < length (hist d)" "off \<le> length (hist d ! c)"
  shows "aesd_ioctl False s filp AESDCHAR_IOCSEEKTO (Some (seek_cmd (of_nat c) (of_nat off))) =
    (if ring_offs s + c \<le> 10
     then Inr (s, filp\<lparr>f_pos := of_nat (length (concat (take c (hist d))) + off)\<rparr>, 0)
     else Inl OutOfBounds)"
proof -
  obtain b where d: "\<not> lock (dev s)" "dev_core s b (pending d) (psize d)" "hist d = cb_strings (mem s) b"
      "ring_offs s = unat (out_offs b)" "cb_mem (mem s) b"
    using assms(1) by (rule refines_ring_offs)
  have c: "c < 10" using assms(3) length_cb_strings[OF d(5)] by (simp add: d(3))
  have "entry_ok (mem s) (cb_list b ! c)"
    using assms(3) cb_memD(2)[OF d(5)] by (simp add: d(3) cb_strings_def)
  then have "length (hist d ! c) < 2 ^ 31"
    using entry_ok_small assms(3) by (fastforce simp: d(3) cb_strings_def)
  then have u: "unat (of_nat off :: u32) = off" "ucast (of_nat off :: u32) = (of_nat off :: size_t)"
    using assms(4) by (simp_all add: unat_of_nat word_unat_eq_iff unat_widen)
  have wf: "length (entry b) = 10" "unat (out_offs b) \<le> 10" using cb_memD(1)[OF d(5)] cb_wf_offs by fastforce+
  have le: "length (cb_strings (mem s) b ! c) \<ge> off" "c < length (cb_strings (mem s) b)"
    using assms(3,4) by (simp_all add: d(3))
  note adj = adjust_locked[OF d(2,1) assms(2) c, of "of_nat off"]
  show ?thesis
  proof (cases "ring_offs s + c \<le> 10")
    case True
    then have "offset_loop 11 b (of_nat c) (of_nat off) 0 0 =
        Inr (of_nat (length (concat (take c (cb_strings (mem s) b))) + off))"
      using offset_loop_sum[OF wf(1), of c 0 11 "of_nat off" 0] c
        slots_sum_strings[OF d(5), of c] le(2) by (simp add: d(4) u)
    then show ?thesis using True le by (simp add: ioctl_seekto adj u d(3) del: of_nat_add)
  next
    case False
    then have "offset_loop 11 b (of_nat c) (of_nat off) 0 0 = Inl OutOfBounds"
      using wf c by (intro offset_loop_out_of_bounds) (simp_all add: d(4))
    then show ?thesis using False le by (simp add: ioctl_seekto adj u)
  qed
qed

text \<open>
  A command number below ten that is not stored, or an offset beyond the command, is refused
  with \<open>-EINVAL\<close>; device and file are unchanged and the mutex is free again.
\<close>

lemma aesd_ioctl_refuses:
  assumes "refines s d" "private_data filp = TheDev" "c < 10"
    "length (hist d) \<le> c \<or> length (hist d ! c) < unat off"
  shows "aesd_ioctl False s filp AESDCHAR_IOCSEEKTO (Some (seek_cmd (of_nat c) off)) = Inr (s, filp, - EINVAL)"
proof -
  obtain b where d: "\<not> lock (dev s)" "dev_core s b (pending d) (psize d)" "hist d = cb_strings (mem s) b"
    using assms(1) by (rule refinesE)
  show ?thesis
    using assms(4) adjust_locked[OF d(2,1) assms(2,3), of off] by (simp add: ioctl_seekto d(3) Let_def)
qed

text \<open>
  A command number of ten or more, and an interrupted wait for the lock, reach the label that
  unlocks the mutex without having locked it: the mutex of another thread is released, or a free
  mutex is unlocked.
\<close>

lemma aesd_ioctl_unlocks_foreign_lock:
  assumes "private_data filp = TheDev" "10 \<le> c \<or> interrupted"
  shows "aesd_ioctl interrupted s filp AESDCHAR_IOCSEEKTO (Some (seek_cmd c off)) =
    (if lock (dev s)
     then Inr (s\<lparr>dev := (dev s)\<lparr>lock := False\<rparr>\<rparr>, filp, if 10 \<le> c then - EINVAL else - ERESTARTSYS)
     else Inl BadUnlock)"
  using assms by (auto simp: ioctl_seekto aesd_adjust_file_offset_def adjust_fail_def mutex_unlock_def)

subsection \<open>llseek\<close>

text \<open>
  The documented behaviour of the kernel's \<open>fixed_size_llseek\<close>: the target is the offset, from the
  start, the current position or the end; a target inside the file becomes the position and is
  returned, any other gives \<open>-EINVAL\<close> and leaves the file alone. A query of the position
  (\<open>SEEK_CUR\<close> with offset 0) is not constrained.
\<close>

definition seek_target :: "kfile \<Rightarrow> loff_t \<Rightarrow> cint \<Rightarrow> int \<Rightarrow> int option" where
  "seek_target filp offset whence sz =
     (if whence = 0 then Some (sint offset)
      else if whence = 1 then Some (sint (f_pos filp) + sint offset)
      else if whence = 2 then Some (sz + sint offset) else None)"

definition seek_result :: "kfile \<Rightarrow> loff_t \<Rightarrow> cint \<Rightarrow> loff_t \<Rightarrow> loff_t \<times> kfile" where
  "seek_result filp offset whence sz =
     (case seek_target filp offset whence (sint sz) of
        None \<Rightarrow> (- EINVAL, filp)
      | Some t \<Rightarrow> if 0 \<le> t \<and> t \<le> sint sz then (of_int t, filp\<lparr>f_pos := of_int t\<rparr>) else (- EINVAL, filp))"

definition llseek_ok :: "llseek \<Rightarrow> bool" where
  "llseek_ok ll \<longleftrightarrow> (\<forall>filp offset whence sz. \<not> (whence = 1 \<and> offset = 0) \<longrightarrow>
     ll filp offset whence sz = seek_result filp offset whence sz)"

text \<open>
  With a kernel that behaves so, \<open>aesd_seek\<close> accepts exactly the targets from 0 to the total
  length of the stored commands and moves the file there; for every other target it returns
  \<open>-EINVAL\<close> and also stores it as the file position.
\<close>

theorem aesd_seek_total:
  assumes "refines s d" "llseek_ok ll" "private_data filp = TheDev" "\<not> (whence = 1 \<and> offset = 0)"
  defines "sz \<equiv> int (length (concat (hist d)))"
  shows "aesd_seek ll s filp offset whence =
    (case seek_target filp offset whence sz of
       None \<Rightarrow> Inr (filp\<lparr>f_pos := - EINVAL\<rparr>, - EINVAL)
     | Some t \<Rightarrow> if 0 \<le> t \<and> t \<le> sz then Inr (filp\<lparr>f_pos := of_int t\<rparr>, of_int t)
                else Inr (filp\<lparr>f_pos := - EINVAL\<rparr>, - EINVAL))"
proof -
  obtain b where d: "\<not> lock (dev s)" "dev_core s b (pending d) (psize d)" "hist d = cb_strings (mem s) b"
    using assms(1) by (rule refinesE)
  then obtain ab where c: "cb_mem (mem s) b" "buffer (dev s) = Ptr ab" "cbufs (mem s) ab = Some b"
    by (auto elim: dev_coreE)
  have "length (concat (hist d)) < 2 ^ 63" using concat_cb_strings_bound[OF c(1)] by (simp add: d(3))
  then have sz: "sint (get_aesd_buffer_length b) = sz"
    using get_aesd_buffer_length_strings[OF c(1)]
    by (simp add: d(3) sz_def signed_of_nat signed_take_bit_int_eq_self)
  have "ll filp offset whence (get_aesd_buffer_length b) = seek_result filp offset whence (get_aesd_buffer_length b)"
    using assms(2,4) by (simp add: llseek_ok_def)
  then show ?thesis
    using assms(3) c by (simp add: aesd_seek_def Let_def seek_result_def sz split: option.split)
qed

end
