(* ===== verification/Driver_Module.thy ===== *)
theory Driver_Module
  imports Driver_Read
begin

text \<open>
  Loading and unloading the module: \<open>aesd_init_module\<close> establishes the refinement relation with
  an empty device, and \<open>aesd_cleanup_module\<close> releases what it allocated as long as no read has
  moved \<open>read_entry\<close> into the ring.
\<close>

lemma kmalloc_cbuf_Some:
  "km h 168 = Some (a, bs) \<Longrightarrow> kmalloc_cbuf km junk h = (h\<lparr>cbufs := (cbufs h)(a \<mapsto> junk)\<rparr>, Ptr a)"
  by (simp add: kmalloc_cbuf_def)

lemma kmalloc_entry_Some:
  "km h 16 = Some (a, bs) \<Longrightarrow> kmalloc_entry km junk h = (h\<lparr>ents := (ents h)(a \<mapsto> junk)\<rparr>, Ptr a)"
  by (simp add: kmalloc_entry_def)

text \<open>The state after the three allocations and the zeroing succeeded.\<close>

definition loaded :: "kmem \<Rightarrow> addr \<Rightarrow> addr \<Rightarrow> addr \<Rightarrow> kstate" where
  "loaded h ab ae ar =
     \<lparr>mem = h\<lparr>cbufs := (cbufs h)(ab \<mapsto> aesd_circular_buffer_init \<lparr>entry = [], in_offs = 0, out_offs = 0, full = False\<rparr>),
             ents := (ents h)(ae \<mapsto> null_entry, ar \<mapsto> null_entry)\<rparr>,
      dev = zero_dev\<lparr>buffer := Ptr ab, buffer_entry := Ptr ae, read_entry := EPtr ar\<rparr>\<rparr>"

lemma init_cb_eq: "aesd_circular_buffer_init b = aesd_circular_buffer_init b'"
  by (simp add: aesd_circular_buffer_init_def)

lemma init_run:
  assumes al: "i_kmalloc env (mem (kst m)) 168 = Some (ab, bs1)"
    "i_kmalloc env (h1 \<lparr>cbufs := (cbufs h1)(ab \<mapsto> i_junk_cbuf env)\<rparr>) 16 = Some (ae, bs2)"
    "i_kmalloc env (h1 \<lparr>cbufs := (cbufs h1)(ab \<mapsto> i_junk_cbuf env), ents := (ents h1)(ae \<mapsto> i_junk_entry env)\<rparr>) 16
       = Some (ar, bs3)" "h1 = mem (kst m)"
    and reg: "\<not> sint (i_region env) < 0"
  shows "aesd_init_module env m =
    Inr (if i_cdev_add env = 0
         then (m\<lparr>kst := loaded (mem (kst m)) ab ae ar, region := True, cdev_live := True\<rparr>, 0)
         else (m\<lparr>kst := loaded (mem (kst m)) ab ae ar, region := False\<rparr>, i_cdev_add env))"
proof (cases m)
  case (fields k r c)
  show ?thesis
    using al reg
    by (simp add: fields aesd_init_module_def kmalloc_cbuf_def kmalloc_entry_def init_setup_def
        aesd_setup_cdev_def loaded_def entry_ptr_of_def zero_dev_def Let_def aesd_circular_buffer_init_def)
qed

subsection \<open>Loading\<close>

definition empty_device :: dev_spec where
  "empty_device = \<lparr>hist = [], pending = [], psize = 0\<rparr>"

lemma loaded_refines:
  assumes "finite_heap h"
  shows "refines (loaded h ab ae ar) empty_device"
proof -
  let ?b = "aesd_circular_buffer_init \<lparr>entry = [], in_offs = 0, out_offs = 0, full = False\<rparr>"
  have "cb_mem (mem (loaded h ab ae ar)) ?b" "cb_strings (mem (loaded h ab ae ar)) ?b = []"
    by (simp_all add: cb_mem_def cb_strings_def cb_wf_init cb_list_init)
  moreover have "finite_heap (mem (loaded h ab ae ar))" using assms by (simp add: loaded_def finite_heap_def)
  ultimately show ?thesis
    by (auto simp: refines_def dev_core_def loaded_def zero_dev_def empty_device_def)
qed

text \<open>The three allocations on a heap with memory, and that their blocks are distinct new ones.\<close>

lemma init_allocs:
  assumes "kmalloc_ok (i_kmalloc env)" "kmalloc_available (i_kmalloc env)" "finite_heap h"
  obtains ab bs1 ae bs2 ar bs3 where "i_kmalloc env h 168 = Some (ab, bs1)"
    "i_kmalloc env (h\<lparr>cbufs := (cbufs h)(ab \<mapsto> i_junk_cbuf env)\<rparr>) 16 = Some (ae, bs2)"
    "i_kmalloc env (h\<lparr>cbufs := (cbufs h)(ab \<mapsto> i_junk_cbuf env), ents := (ents h)(ae \<mapsto> i_junk_entry env)\<rparr>) 16
       = Some (ar, bs3)"
    "fresh h ab" "fresh h ae" "fresh h ar" "ae \<noteq> ar"
proof -
  let ?h1 = "\<lambda>ab. h\<lparr>cbufs := (cbufs h)(ab \<mapsto> i_junk_cbuf env)\<rparr>"
  let ?h2 = "\<lambda>ab ae. (?h1 ab)\<lparr>ents := (ents h)(ae \<mapsto> i_junk_entry env)\<rparr>"
  have sz: "168 < KMALLOC_MAX_SIZE" "16 < KMALLOC_MAX_SIZE" by (simp_all add: KMALLOC_MAX_SIZE_def)
  obtain ab bs1 where 1: "i_kmalloc env h 168 = Some (ab, bs1)"
    by (rule kmalloc_availableE[OF assms(2,3) sz(1)])
  have f1: "finite_heap (?h1 ab)" using assms(3) by simp
  obtain ae bs2 where 2: "i_kmalloc env (?h1 ab) 16 = Some (ae, bs2)"
    by (rule kmalloc_availableE[OF assms(2) f1 sz(2)])
  have f2: "finite_heap (?h2 ab ae)" using assms(3) by (simp add: finite_heap_def)
  obtain ar bs3 where 3: "i_kmalloc env (?h2 ab ae) 16 = Some (ar, bs3)"
    by (rule kmalloc_availableE[OF assms(2) f2 sz(2)])
  have "fresh h ab" "fresh (?h1 ab) ae" "fresh (?h2 ab ae) ar"
    using kmalloc_okD(3)[OF assms(1) 1] kmalloc_okD(3)[OF assms(1) 2] kmalloc_okD(3)[OF assms(1) 3] by auto
  then have "fresh h ab" "fresh h ae" "fresh h ar" "ae \<noteq> ar" by (auto simp: fresh_def split: if_splits)
  then show ?thesis using that 1 2 3 by simp
qed

lemma init_module_ready:
  assumes "kmalloc_ok (i_kmalloc env)" "kmalloc_available (i_kmalloc env)" "finite_heap (mem (kst m))"
    "\<not> sint (i_region env) < 0" "i_cdev_add env = 0"
  shows "\<exists>m'. aesd_init_module env m = Inr (m', 0) \<and> refines (kst m') empty_device \<and> region m' \<and> cdev_live m'"
proof -
  obtain ab bs1 ae bs2 ar bs3 where al: "i_kmalloc env (mem (kst m)) 168 = Some (ab, bs1)"
    "i_kmalloc env ((mem (kst m))\<lparr>cbufs := (cbufs (mem (kst m)))(ab \<mapsto> i_junk_cbuf env)\<rparr>) 16 = Some (ae, bs2)"
    "i_kmalloc env ((mem (kst m))\<lparr>cbufs := (cbufs (mem (kst m)))(ab \<mapsto> i_junk_cbuf env),
       ents := (ents (mem (kst m)))(ae \<mapsto> i_junk_entry env)\<rparr>) 16 = Some (ar, bs3)"
    by (rule init_allocs[OF assms(1-3)])
  show ?thesis
    using init_run[OF al refl assms(4)] assms(5) loaded_refines[OF assms(3)] by simp
qed

text \<open>
  C18: with memory available and both registrations successful, loading the module returns 0 and
  leaves a registered device whose state represents the empty abstract device, whatever the new
  structs contained before they were zeroed.
\<close>

theorem aesd_init_module_establishes:
  assumes "kmalloc_ok (i_kmalloc env)" "kmalloc_available (i_kmalloc env)" "finite_heap (mem (kst m))"
    "\<not> sint (i_region env) < 0" "i_cdev_add env = 0"
  shows "\<exists>m'. aesd_init_module env m = Inr (m', 0) \<and> refines (kst m') empty_device \<and> region m' \<and> cdev_live m'"
  by (rule init_module_ready[OF assms])

text \<open>
  When the first or the second kind of struct cannot be allocated, the heap and the device
  numbers are released, but the value returned is the non-negative one of
  \<open>alloc_chrdev_region\<close>: the module loads as if nothing had failed, without a device.
\<close>

lemma aesd_init_module_hides_failure:
  assumes "kmalloc_ok (i_kmalloc env)" "\<not> sint (i_region env) < 0"
    "(\<forall>h. i_kmalloc env h 168 = None) \<or> (\<forall>h. i_kmalloc env h 16 = None)"
  shows "\<exists>m'. aesd_init_module env m = Inr (m', i_region env) \<and> mem (kst m') = mem (kst m) \<and>
    \<not> region m' \<and> \<not> cdev_live m'"
proof (cases "i_kmalloc env (mem (kst m)) 168")
  case None
  then show ?thesis
    using assms(2)
    by (cases m) (simp add: aesd_init_module_def kmalloc_cbuf_def init_fail_def aesd_cleanup_module_def
        kfree_read_entry_def kfree_entry_def kfree_cbuf_def zero_dev_def)
next
  case (Some x)
  then obtain ab bs where ab: "i_kmalloc env (mem (kst m)) 168 = Some (ab, bs)" by (cases x) auto
  then have no: "i_kmalloc env h 16 = None" for h using assms(3) by auto
  have "cbufs (mem (kst m)) ab = None" using kmalloc_okD(3)[OF assms(1) ab] by (simp add: fresh_def)
  then have "(cbufs (mem (kst m)))(ab := None) = cbufs (mem (kst m))" by (simp add: fun_upd_idem)
  then show ?thesis
    using assms(2) ab no
    by (cases m) (simp add: aesd_init_module_def kmalloc_cbuf_def kmalloc_entry_def init_fail_def
        aesd_cleanup_module_def kfree_read_entry_def kfree_entry_def kfree_cbuf_def zero_dev_def Let_def)
qed

subsection \<open>Unloading\<close>

text \<open>
  Unloading the module right after it was loaded frees its three structs: the heap is the one
  before loading and both registrations are gone.
\<close>

lemma init_then_cleanup:
  assumes "kmalloc_ok (i_kmalloc env)" "kmalloc_available (i_kmalloc env)" "finite_heap (mem (kst m))"
    "\<not> sint (i_region env) < 0" "i_cdev_add env = 0"
  shows "\<exists>m' m''. aesd_init_module env m = Inr (m', 0) \<and> aesd_cleanup_module m' = Inr m'' \<and>
    mem (kst m'') = mem (kst m) \<and> \<not> region m'' \<and> \<not> cdev_live m''"
proof -
  let ?h = "mem (kst m)"
  obtain ab bs1 ae bs2 ar bs3 where al: "i_kmalloc env ?h 168 = Some (ab, bs1)"
    "i_kmalloc env (?h\<lparr>cbufs := (cbufs ?h)(ab \<mapsto> i_junk_cbuf env)\<rparr>) 16 = Some (ae, bs2)"
    "i_kmalloc env (?h\<lparr>cbufs := (cbufs ?h)(ab \<mapsto> i_junk_cbuf env), ents := (ents ?h)(ae \<mapsto> i_junk_entry env)\<rparr>) 16
       = Some (ar, bs3)"
    "fresh ?h ab" "fresh ?h ae" "fresh ?h ar" "ae \<noteq> ar"
    by (rule init_allocs[OF assms(1-3)])
  have "(ents ?h)(ae := None, ar := None) = ents ?h" "(cbufs ?h)(ab := None) = cbufs ?h"
    using al(4-6) by (auto simp: fresh_def fun_eq_iff)
  then have "aesd_cleanup_module (m\<lparr>kst := loaded ?h ab ae ar, region := True, cdev_live := True\<rparr>) =
      Inr (m\<lparr>kst := \<lparr>mem = ?h, dev = dev (loaded ?h ab ae ar)\<rparr>, region := False, cdev_live := False\<rparr>)"
    using al(7)
    by (cases "kst m") (simp add: aesd_cleanup_module_def loaded_def zero_dev_def kfree_read_entry_def
        kfree_entry_def kfree_cbuf_def fun_upd_twist)
  then show ?thesis using init_run[OF al(1-3) refl assms(4)] assms(5) by auto
qed

text \<open>
  After a read that returned data, \<open>read_entry\<close> points into the ring; unloading the module then
  frees an address inside the ring's block, or the ring itself twice.
\<close>

theorem aesd_cleanup_after_read:
  assumes "refines s d" "read_env_good env" "readable d" "private_data filp = TheDev"
    "spec_read d (unat (f_pos filp)) \<noteq> []"
  shows "\<exists>s' filp' n out. aesd_read env s filp count = Inr (s', filp', n, out) \<and>
    aesd_cleanup_module \<lparr>kst = s', region = True, cdev_live = True\<rparr> = Inl BadFree"
proof -
  obtain s' a i where r: "aesd_read env s filp count =
      Inr (s', filp\<lparr>f_pos := f_pos filp + of_nat (length (spec_read d (unat (f_pos filp))))\<rparr>,
           of_nat (length (spec_read d (unat (f_pos filp)))), spec_read d (unat (f_pos filp)) @ [NUL])"
    "refines s' d" "buffer (dev s') = Ptr a" "read_entry (dev s') = EIn a i"
    using read_call[OF assms(1-4), of count] assms(5) by auto
  from r(2) have "\<exists>b. cbufs (mem s') a = Some b" "\<exists>ae be. buffer_entry (dev s') = Ptr ae \<and> ents (mem s') ae = Some be"
    using r(3) by (auto simp: refines_def dev_core_def)
  then show ?thesis
    using r by (auto simp: aesd_cleanup_module_def kfree_read_entry_def kfree_entry_def kfree_cbuf_def)
qed

end
