(* ===== verification/Driver_Traces.thy ===== *)
theory Driver_Traces
  imports Driver_Errors Driver_Seek Driver_Module
begin

text \<open>
  Sequences of system calls on the device. The calls of all processes are serialised by the
  driver's mutex, so a history of the device is a list of calls; each call uses a file of its own
  and its own kernel environment. The concrete runs are simulated by the abstract device.
\<close>

subsection \<open>Calls\<close>

datatype dev_op =
    OpWrite string
  | OpWriteFails
  | OpRead loff_t string
  | OpSeekTo u32 u32

inductive dev_step :: "kstate \<Rightarrow> dev_op \<Rightarrow> kstate \<Rightarrow> bool" where
  step_write: "\<lbrakk>write_env_ok env; write_env_available env; \<not> w_interrupted env; private_data filp = TheDev;
     0 < unat count; 8 * unat count < KMALLOC_MAX_SIZE; w_copy env (unat count) = Some bytes;
     length bytes = unat count; aesd_write env s filp count = Inr (s', filp', r)\<rbrakk>
   \<Longrightarrow> dev_step s (OpWrite bytes) s'"
| step_write_fails: "\<lbrakk>kmalloc_ok (w_kmalloc env); private_data filp = TheDev; 0 < unat (count * 8);
     w_interrupted env \<or> w_kmalloc env (mem s) (unat (count * 8)) = None \<or> w_copy env (unat count) = None;
     aesd_write env s filp count = Inr (s', filp', r)\<rbrakk>
   \<Longrightarrow> dev_step s OpWriteFails s'"
| step_read: "\<lbrakk>read_env_good env; private_data filp = TheDev;
     aesd_read env s filp count = Inr (s', filp', r, out)\<rbrakk>
   \<Longrightarrow> dev_step s (OpRead (f_pos filp) out) s'"
| step_seek_to: "\<lbrakk>private_data filp = TheDev; c < 10;
     aesd_ioctl False s filp AESDCHAR_IOCSEEKTO (Some (seek_cmd c off)) = Inr (s', filp', r)\<rbrakk>
   \<Longrightarrow> dev_step s (OpSeekTo c off) s'"

inductive_cases dev_step_writeE: "dev_step s (OpWrite bytes) s'"
inductive_cases dev_step_failsE: "dev_step s OpWriteFails s'"
inductive_cases dev_step_readE: "dev_step s (OpRead pos out) s'"
inductive_cases dev_step_seekE: "dev_step s (OpSeekTo c off) s'"

inductive dev_run :: "kstate \<Rightarrow> dev_op list \<Rightarrow> kstate \<Rightarrow> bool" where
  run_nil: "dev_run s [] s"
| run_snoc: "\<lbrakk>dev_run s ops s'; dev_step s' op s''\<rbrakk> \<Longrightarrow> dev_run s (ops @ [op]) s''"

subsection \<open>The abstract runs\<close>

text \<open>
  A write changes the abstract device, every other call leaves it alone; a read must have
  delivered what the abstract device holds at the position, followed by a NUL.
\<close>

definition delivered :: "dev_spec \<Rightarrow> loff_t \<Rightarrow> string" where
  "delivered d pos = (let out = spec_read d (unat pos) in if out = [] then [] else out @ [NUL])"

fun spec_step :: "dev_op \<Rightarrow> dev_spec \<Rightarrow> dev_spec option" where
  "spec_step (OpWrite bytes) d = Some (fst (spec_write bytes d))"
| "spec_step OpWriteFails d = Some d"
| "spec_step (OpRead pos out) d = (if out = delivered d pos then Some d else None)"
| "spec_step (OpSeekTo c off) d = Some d"

fun spec_run :: "dev_op list \<Rightarrow> dev_spec \<Rightarrow> dev_spec option" where
  "spec_run [] d = Some d"
| "spec_run (op # ops) d = (case spec_step op d of None \<Rightarrow> None | Some d' \<Rightarrow> spec_run ops d')"

lemma spec_run_snoc:
  "spec_run (ops @ [op]) d = (case spec_run ops d of None \<Rightarrow> None | Some d' \<Rightarrow> spec_step op d')"
  by (induction ops arbitrary: d) (auto split: option.split)

text \<open>The bytes written in a run, with one more per call, bound every size in the device.\<close>

fun op_traffic :: "dev_op \<Rightarrow> nat" where
  "op_traffic (OpWrite bytes) = length bytes + 1"
| "op_traffic _ = 0"

definition traffic :: "dev_op list \<Rightarrow> nat" where
  "traffic ops = sum_list (map op_traffic ops)"

definition sized :: "nat \<Rightarrow> dev_spec \<Rightarrow> bool" where
  "sized n d \<longleftrightarrow> length (pending d) \<le> psize d \<and> psize d \<le> n \<and> list_all (\<lambda>c. length c \<le> n) (hist d)"

lemma sized_mono: "sized n d \<Longrightarrow> n \<le> k \<Longrightarrow> sized k d"
  by (auto simp: sized_def list_all_iff)

lemma sized_spec_write:
  assumes "sized n d"
  shows "sized (n + length bytes + 1) (fst (spec_write bytes d))"
proof -
  have "list_all (\<lambda>c. length c \<le> n + length bytes + 1) (keep_last 10 (hist d @ [pending d @ text_of bytes]))"
    using assms text_of_length[of bytes] keep_last_set[of 10 "hist d @ [pending d @ text_of bytes]"]
    by (fastforce simp: sized_def list_all_iff)
  then show ?thesis
    using assms text_of_length[of bytes] by (auto simp: spec_write_cases sized_def list_all_iff)
qed

lemma sized_spec_step: "sized n d \<Longrightarrow> spec_step op d = Some d' \<Longrightarrow> sized (n + op_traffic op) d'"
  using sized_spec_write[of n d] by (cases op) (auto split: if_splits)

subsection \<open>Simulation\<close>

lemma seek_to_keeps_state:
  assumes "refines s d" "private_data filp = TheDev" "c < 10"
    "aesd_ioctl False s filp AESDCHAR_IOCSEEKTO (Some (seek_cmd c off)) = Inr (s', filp', r)"
  shows "s' = s"
proof -
  obtain b where d: "\<not> lock (dev s)" "dev_core s b (pending d) (psize d)"
    using assms(1) by (rule refinesE)
  have c: "unat c < 10" "of_nat (unat c) = c" using assms(3) by (simp_all add: word_less_nat_alt)
  from assms(4) show ?thesis
    using adjust_locked[OF d(2,1) assms(2) c(1), of off]
    by (auto simp: ioctl_seekto c(2) Let_def res_bind_def split: if_splits sum.splits)
qed

text \<open>A write that completes a command.\<close>

fun op_completes :: "dev_op \<Rightarrow> nat" where
  "op_completes (OpWrite bytes) = (if newline \<in> set (text_of bytes) then 1 else 0)"
| "op_completes _ = 0"

definition completed :: "dev_op list \<Rightarrow> nat" where
  "completed ops = sum_list (map op_completes ops)"

lemma dev_step_simulates:
  assumes "dev_step s op s'" "refines s d" "sized n d" "8 * (n + op_traffic op) < KMALLOC_MAX_SIZE"
  shows "\<exists>d'. spec_step op d = Some d' \<and> refines s' d' \<and>
    blocks (mem s') + owned d = blocks (mem s) + owned d' + op_completes op"
proof (cases op)
  case (OpWrite bytes)
  from assms(1)[unfolded OpWrite] obtain env filp count filp' r where w:
      "write_env_ok env" "write_env_available env" "\<not> w_interrupted env" "private_data filp = TheDev"
      "0 < unat count" "8 * unat count < KMALLOC_MAX_SIZE" "w_copy env (unat count) = Some bytes"
      "length bytes = unat count" "aesd_write env s filp count = Inr (s', filp', r)"
    by (blast elim: dev_step_writeE)
  have "psize d + length (text_of bytes) + 1 < KMALLOC_MAX_SIZE"
    using assms(3,4) text_of_length[of bytes] OpWrite by (simp add: sized_def)
  from write_call_blocks[OF assms(2) w(1-8) this] w(9) show ?thesis using OpWrite by auto
next
  case OpWriteFails
  have "\<not> lock (dev s)" using assms(2) by (simp add: refines_def)
  with assms(1)[unfolded OpWriteFails] have "s' = s"
    by (auto elim!: dev_step_failsE dest!: write_failure)
  then show ?thesis using OpWriteFails assms(2) by simp
next
  case (OpRead pos out)
  have rd: "readable d" using assms(3,4) by (auto simp: readable_def sized_def list_all_iff)
  from assms(1)[unfolded OpRead] obtain env filp count filp' r where
      "read_env_good env" "private_data filp = TheDev" "pos = f_pos filp"
      "aesd_read env s filp count = Inr (s', filp', r, out)"
    by (blast elim: dev_step_readE)
  with read_call[OF assms(2) this(1) rd this(2), of count] OpRead assms(2) show ?thesis
    by (auto simp: delivered_def Let_def split: if_splits)
next
  case (OpSeekTo c off)
  from assms(1)[unfolded OpSeekTo] have "s' = s"
    using seek_to_keeps_state[OF assms(2)] by (auto elim!: dev_step_seekE)
  then show ?thesis using OpSeekTo assms(2) by simp
qed

lemma dev_run_states:
  assumes "dev_run s ops s'" "refines s empty_device" "8 * traffic ops < KMALLOC_MAX_SIZE"
  shows "\<exists>d. spec_run ops empty_device = Some d \<and> refines s' d \<and> sized (traffic ops) d \<and>
    blocks (mem s') = blocks (mem s) + owned d + completed ops"
  using assms
proof (induction rule: dev_run.induct)
  case (run_nil s)
  then show ?case by (simp add: sized_def traffic_def empty_device_def owned_def completed_def)
next
  case (run_snoc s ops s' op s'')
  from run_snoc.prems(2) have lim: "8 * (traffic ops + op_traffic op) < KMALLOC_MAX_SIZE"
    by (simp add: traffic_def)
  then obtain d where d: "spec_run ops empty_device = Some d" "refines s' d" "sized (traffic ops) d"
      "blocks (mem s') = blocks (mem s) + owned d + completed ops"
    using run_snoc.IH run_snoc.prems(1) by auto
  from dev_step_simulates[OF run_snoc.hyps(2) d(2,3) lim]
  obtain d' where d': "spec_step op d = Some d'" "refines s'' d'"
    "blocks (mem s'') + owned d = blocks (mem s') + owned d' + op_completes op" by blast
  moreover have "sized (traffic (ops @ [op])) d'"
    using sized_spec_step[OF d(3) d'(1)] by (simp add: traffic_def)
  ultimately show ?case using d(1,4) by (simp add: spec_run_snoc completed_def)
qed



end
