(* ===== verification/Server_Device.thy ===== *)
theory Server_Device
  imports Server_Contract Driver_Traces
begin

text \<open>
  The server on the driver: the system calls of a connection thread whose data file is the device
  of \<open>aesd-char-driver\<close>. The driver's handlers keep the laws of the data file, so the thread's
  correctness holds on them, down to the bytes the client receives.
\<close>

subsection \<open>The system calls\<close>

text \<open>
  The world: the kernel state, the open file of the thread, the chunks the client has sent and the
  bytes it was sent back. Memory allocation and time are left to \<open>libc\<close>. A negative value of a
  handler becomes an error number; a fault inside a handler is reported as \<open>EFAULT\<close>.
\<close>

record dworld =
  kern :: kstate
  dfile :: kfile
  backlog :: "string list"
  echoed :: string

definition syscall_io :: "ssize_t \<Rightarrow> string \<Rightarrow> io" where
  "syscall_io r out = (if sint r < 0 then Fail (nat (- sint r)) else Done (unat r) out)"

definition dev_open :: "int \<Rightarrow> string \<Rightarrow> dworld \<Rightarrow> int \<times> dworld" where
  "dev_open fd path w = (fd, w\<lparr>dfile := fst (aesd_open \<lparr>private_data = NoDev, f_pos = 0\<rparr>)\<rparr>)"

definition dev_read :: "read_env \<Rightarrow> int \<Rightarrow> int \<Rightarrow> nat \<Rightarrow> dworld \<Rightarrow> io \<times> dworld" where
  "dev_read env skt fd n w =
     (if fd = skt then (Fail E_INTR, w)
      else case aesd_read env (kern w) (dfile w) (of_nat n) of
        Inl _ \<Rightarrow> (Fail 14, w)
      | Inr (s, f, r, out) \<Rightarrow> (syscall_io r out, w\<lparr>kern := s, dfile := f\<rparr>))"

definition dev_write :: "write_env \<Rightarrow> int \<Rightarrow> int \<Rightarrow> string \<Rightarrow> dworld \<Rightarrow> io \<times> dworld" where
  "dev_write env skt fd bs w =
     (if fd = skt then (Done (length bs) [], w\<lparr>echoed := echoed w @ bs\<rparr>)
      else case aesd_write (env\<lparr>w_copy := \<lambda>n. Some (take n bs)\<rparr>) (kern w) (dfile w) (of_nat (length bs)) of
        Inl _ \<Rightarrow> (Fail 14, w)
      | Inr (s, f, r) \<Rightarrow> (syscall_io r [], w\<lparr>kern := s, dfile := f\<rparr>))"

definition dev_recv :: "int \<Rightarrow> nat \<Rightarrow> dworld \<Rightarrow> io \<times> dworld" where
  "dev_recv fd n w =
     (case backlog w of
        [] \<Rightarrow> (Done 0 [], w)
      | c # cs \<Rightarrow> (Done (min n (length c)) (take n c),
                  w\<lparr>backlog := (if length c \<le> n then cs else drop n c # cs)\<rparr>))"

definition dev_ioctl :: "int \<Rightarrow> u32 \<Rightarrow> aesd_seekto \<Rightarrow> dworld \<Rightarrow> int \<times> dworld" where
  "dev_ioctl fd cmd seekto w =
     (case aesd_ioctl False (kern w) (dfile w) cmd (Some seekto) of
        Inl _ \<Rightarrow> (-1, w)
      | Inr (s, f, r) \<Rightarrow> (if sint r < 0 then -1 else sint r, w\<lparr>kern := s, dfile := f\<rparr>))"

definition dev_os :: "dworld os \<Rightarrow> read_env \<Rightarrow> write_env \<Rightarrow> int \<Rightarrow> dworld os" where
  "dev_os libc renv wenv skt = libc\<lparr>
     os_open := dev_open (skt + 1), os_close := \<lambda>fd w. w, os_read := dev_read renv skt,
     os_recv := dev_recv, os_write := dev_write wenv skt, os_ioctl := dev_ioctl\<rparr>"

lemma dev_os_fields [simp]:
  "os_open (dev_os libc renv wenv skt) = dev_open (skt + 1)"
  "os_close (dev_os libc renv wenv skt) = (\<lambda>fd w. w)"
  "os_read (dev_os libc renv wenv skt) = dev_read renv skt"
  "os_recv (dev_os libc renv wenv skt) = dev_recv"
  "os_write (dev_os libc renv wenv skt) = dev_write wenv skt"
  by (simp_all add: dev_os_def)

subsection \<open>The abstract device as a data file\<close>

definition contents :: "dev_spec \<Rightarrow> string" where
  "contents d = concat (hist d)"

definition store :: "dev_spec \<Rightarrow> string \<Rightarrow> dev_spec" where
  "store d bs = fst (spec_write bs d)"

text \<open>
  The server's buffer has room for 1023 bytes and the NUL that \<open>aesd_read\<close> adds; the bound on the
  pending size is the kernel's allocation limit.
\<close>

definition accepts :: "dev_spec \<Rightarrow> string \<Rightarrow> bool" where
  "accepts d bs \<longleftrightarrow> bs \<noteq> [] \<and> NUL \<notin> set bs \<and> length (pending d) + length bs < READ_WRITE_SIZE \<and>
     psize d + length bs + 1 < KMALLOC_MAX_SIZE"

definition short :: "dev_spec \<Rightarrow> bool" where
  "short d \<longleftrightarrow> list_all (\<lambda>c. length c < READ_WRITE_SIZE) (hist d)"

definition device_ready :: "read_env \<Rightarrow> write_env \<Rightarrow> bool" where
  "device_ready renv wenv \<longleftrightarrow> read_env_good renv \<and> write_env_ok wenv \<and> write_env_available wenv \<and>
     \<not> w_interrupted wenv"

definition dev_rep :: "read_env \<Rightarrow> write_env \<Rightarrow> dworld \<Rightarrow> dev_spec \<Rightarrow> bool" where
  "dev_rep renv wenv w d \<longleftrightarrow>
     device_ready renv wenv \<and> refines (kern w) d \<and> private_data (dfile w) = TheDev \<and> short d"

definition unread :: "dworld \<Rightarrow> dev_spec \<Rightarrow> string" where
  "unread w d = drop (unat (f_pos (dfile w))) (contents d)"

lemma text_of_id: "NUL \<notin> set bs \<Longrightarrow> text_of bs = bs"
  unfolding text_of_def by (subst takeWhile_eq_all_conv) auto

lemma short_store: "short d \<Longrightarrow> accepts d bs \<Longrightarrow> short (store d bs)"
  using keep_last_set[of 10 "hist d @ [pending d @ bs]"]
  by (fastforce simp: short_def store_def spec_write_def Let_def accepts_def text_of_id list_all_iff)

lemma contents_bound:
  assumes "refines s d"
  shows "length (contents d) \<le> 10 * 2 ^ 31"
proof -
  obtain b where "dev_core s b (pending d) (psize d)" "hist d = cb_strings (mem s) b"
    using assms by (rule refinesE)
  then show ?thesis using concat_cb_strings_bound[of "mem s" b] by (simp add: contents_def dev_core_def)
qed

lemma syscall_io_nat: "n < 2 ^ 63 \<Longrightarrow> syscall_io (of_nat n) out = Done n out"
  by (simp add: syscall_io_def unsigned_of_nat take_bit_nat_eq_self signed_of_nat
      signed_take_bit_int_eq_self)

subsection \<open>The driver keeps the laws\<close>

lemma spec_read_split:
  fixes d :: dev_spec and pos :: nat
  defines "out \<equiv> spec_read d pos"
  shows "drop pos (contents d) = out @ drop (pos + length out) (contents d)"
    and "out = [] \<longleftrightarrow> drop pos (contents d) = []"
proof -
  show "drop pos (contents d) = out @ drop (pos + length out) (contents d)"
  proof (cases "locate (map length (hist d)) pos")
    case None
    then show ?thesis by (simp add: out_def spec_read_def)
  next
    case (Some ko)
    obtain k off where ko: "ko = (k, off)" by (cases ko)
    note c = locate_concat[OF Some[unfolded ko]]
    have "drop (pos + length out) (contents d) = concat (drop (Suc k) (hist d))"
      using arg_cong[OF c, of "drop (length out)"] Some
      by (simp add: out_def spec_read_def contents_def ko add.commute)
    then show ?thesis using c Some by (simp add: out_def spec_read_def contents_def ko)
  qed
  then show "out = [] \<longleftrightarrow> drop pos (contents d) = []"
    using locate_None[of "map length (hist d)" pos] locate_Some[of "map length (hist d)" pos]
    by (auto simp: out_def spec_read_def contents_def length_concat split: option.splits)
qed

lemma spec_read_short: "short d \<Longrightarrow> length (spec_read d pos) < READ_WRITE_SIZE"
  using locate_Some[of "map length (hist d)" pos]
  by (auto simp: spec_read_def short_def list_all_length READ_WRITE_SIZE_def split: option.split
      intro: less_imp_diff_less)

lemma dev_read_law:
  assumes "dev_rep renv wenv w d" "fd \<noteq> skt"
  defines "out \<equiv> spec_read d (unat (f_pos (dfile w)))"
  shows "\<exists>w'. dev_read renv skt fd n w = (Done (length out) (if out = [] then [] else out @ [NUL]), w') \<and>
    dev_rep renv wenv w' d \<and> echoed w' = echoed w \<and> backlog w' = backlog w \<and>
    unread w d = out @ unread w' d \<and> unat (f_pos (dfile w')) = unat (f_pos (dfile w)) + length out"
proof -
  have r: "refines (kern w) d" "read_env_good renv" "private_data (dfile w) = TheDev" "short d"
    using assms(1) by (auto simp: dev_rep_def device_ready_def)
  have rd: "readable d"
    using r(4) by (auto simp: readable_def short_def list_all_iff KMALLOC_MAX_SIZE_def READ_WRITE_SIZE_def)
  obtain s' where s': "aesd_read renv (kern w) (dfile w) (of_nat n) =
      Inr (s', (dfile w)\<lparr>f_pos := f_pos (dfile w) + of_nat (length out)\<rparr>, of_nat (length out),
        if out = [] then [] else out @ [NUL])" "refines s' d"
    using read_call[OF r(1,2) rd r(3), of "of_nat n"] unfolding out_def by blast
  let ?w = "w\<lparr>kern := s', dfile := (dfile w)\<lparr>f_pos := f_pos (dfile w) + of_nat (length out)\<rparr>\<rparr>"
  have len: "length out < 1024" using spec_read_short[OF r(4)] by (simp add: out_def READ_WRITE_SIZE_def)
  have "unread w d = out @ unread ?w d \<and> unat (f_pos (dfile ?w)) = unat (f_pos (dfile w)) + length out"
  proof (cases "out = []")
    case False
    have "unat (f_pos (dfile w)) < length (contents d)"
      using False spec_read_split(2)[of d "unat (f_pos (dfile w))"] by (auto simp: out_def)
    then have "unat (f_pos (dfile w)) + length out < 2 ^ 64" using contents_bound[OF r(1)] len by simp
    then have "unat (f_pos (dfile w) + of_nat (length out)) = unat (f_pos (dfile w)) + length out"
      by (simp add: unat_word_ariths(1) unsigned_of_nat take_bit_nat_eq_self)
    then show ?thesis
      using spec_read_split(1)[of "unat (f_pos (dfile w))" d] by (simp add: unread_def out_def)
  qed (simp add: unread_def)
  then show ?thesis
    using s' assms(1,2) len
    by (intro exI[of _ ?w]) (simp add: dev_read_def syscall_io_nat dev_rep_def)
qed

lemma dev_write_law:
  assumes "dev_rep renv wenv w d" "fd \<noteq> skt" "accepts d bs"
  shows "\<exists>w'. dev_write wenv skt fd bs w = (Done (length bs) [], w') \<and>
    dev_rep renv wenv w' (store d bs) \<and> echoed w' = echoed w \<and> backlog w' = backlog w"
proof -
  let ?env = "wenv\<lparr>w_copy := \<lambda>n. Some (take n bs)\<rparr>"
  have r: "refines (kern w) d" "write_env_ok ?env" "write_env_available ?env" "\<not> w_interrupted ?env"
      "private_data (dfile w) = TheDev" "short d"
    using assms(1) by (auto simp: dev_rep_def device_ready_def write_env_ok_def write_env_available_def)
  have b: "bs \<noteq> []" "NUL \<notin> set bs" "length bs < 1024" "psize d + length (text_of bs) + 1 < KMALLOC_MAX_SIZE"
    using assms(3) by (auto simp: accepts_def READ_WRITE_SIZE_def text_of_id)
  have n: "unat (of_nat (length bs) :: size_t) = length bs"
    using b(3) by (simp add: unsigned_of_nat take_bit_nat_eq_self)
  have c: "0 < unat (of_nat (length bs) :: size_t)" "8 * unat (of_nat (length bs) :: size_t) < KMALLOC_MAX_SIZE"
      "w_copy ?env (unat (of_nat (length bs) :: size_t)) = Some bs" "length bs = unat (of_nat (length bs) :: size_t)"
    unfolding n using b(1,3) by (simp_all add: KMALLOC_MAX_SIZE_def)
  obtain s' f' where "aesd_write ?env (kern w) (dfile w) (of_nat (length bs)) =
      Inr (s', (dfile w)\<lparr>f_pos := f'\<rparr>, of_nat (length bs))" "refines s' (store d bs)"
    using write_call[OF r(1-5) c b(4)] unfolding store_def by blast
  then show ?thesis
    using assms b(3) short_store[OF r(6) assms(3)] r(5)
    by (simp add: dev_write_def syscall_io_nat dev_rep_def)
qed

interpretation device: data_file "dev_os libc renv wenv skt" skt "dev_rep renv wenv" unread echoed
    backlog "\<lambda>_. 0" contents store accepts for libc renv wenv skt
proof unfold_locales
  fix w d and fd :: int
  assume a: "dev_rep renv wenv w d" "fd \<noteq> skt"
  let ?out = "spec_read d (unat (f_pos (dfile w)))"
  have "length ?out < READ_WRITE_SIZE" using a(1) spec_read_short by (simp add: dev_rep_def)
  then show "\<exists>r w'. os_read (dev_os libc renv wenv skt) fd READ_WRITE_SIZE w = (r, w') \<and>
      dev_rep renv wenv w' d \<and> echoed w' = echoed w \<and> backlog w' = backlog w \<and>
      (r = Fail E_INTR \<and> unread w' d = unread w d \<and> (0::nat) < 0 \<or>
       r = Done 0 [] \<and> unread w d = [] \<and> unread w' d = [] \<or>
       (\<exists>n bs. r = Done n bs \<and> 0 < n \<and> n \<le> length bs \<and> length bs \<le> READ_WRITE_SIZE \<and>
          unread w d = take n bs @ unread w' d))"
    using dev_read_law[OF a, of READ_WRITE_SIZE] spec_read_split(2)[of d "unat (f_pos (dfile w))"]
    by (auto simp: unread_def split: if_splits)
next
  fix w d and fd :: int and bs
  assume "dev_rep renv wenv w d" "fd \<noteq> skt" "accepts d bs"
  then show "\<exists>n out w'. os_write (dev_os libc renv wenv skt) fd bs w = (Done n out, w') \<and>
      dev_rep renv wenv w' (store d bs) \<and> backlog w' = backlog w \<and> echoed w' = echoed w"
    using dev_write_law by fastforce
qed (auto simp: dev_write_def dev_rep_def dev_open_def dev_recv_def aesd_open_def unread_def)

subsection \<open>A packet on the device\<close>

definition packet_stored :: "dev_spec \<Rightarrow> string list \<Rightarrow> dev_spec" where
  "packet_stored d cs =
     \<lparr>hist = keep_last 10 (hist d @ [pending d @ concat cs]), pending = [], psize = 0\<rparr>"

lemma foldl_store_packet: "packet cs \<Longrightarrow> foldl store d cs = packet_stored d cs"
proof (induction cs arbitrary: d)
  case (Cons c cs)
  then have c: "NUL \<notin> set c" by (simp add: packet_Cons ordinary_def)
  show ?case
    using Cons c by (cases "newline \<in> set c")
      (simp_all add: packet_Cons store_def spec_write_def Let_def text_of_id packet_stored_def)
qed simp

lemma accepts_packet:
  "packet cs \<Longrightarrow> length (pending d) + length (concat cs) < READ_WRITE_SIZE \<Longrightarrow>
   psize d + length (concat cs) + length cs < KMALLOC_MAX_SIZE \<Longrightarrow> accepts_all accepts store d cs"
proof (induction cs arbitrary: d)
  case (Cons c cs)
  then have c: "ordinary c" "accepts d c" by (auto simp: packet_Cons ordinary_def accepts_def)
  then have n: "NUL \<notin> set c" by (simp add: ordinary_def)
  show ?case
  proof (cases "newline \<in> set c")
    case True
    then show ?thesis using Cons.prems(1) c(2) by (simp add: packet_Cons)
  next
    case False
    then have "store d c = d\<lparr>pending := pending d @ c, psize := psize d + length c + 1\<rparr>"
      using n by (simp add: store_def spec_write_def Let_def text_of_id)
    then show ?thesis using Cons c(2) False by (simp add: packet_Cons)
  qed
qed simp

text \<open>Opening forgets which file was open before, so the thread may start with any.\<close>

lemma data_processor_open:
  "data_processor (dev_os libc renv wenv skt) args held w =
   data_processor (dev_os libc renv wenv skt) args held (w\<lparr>dfile := f\<rparr>)"
  by (simp add: data_processor_def dev_open_def)

lemma device_thread_answers:
  assumes "device_ready renv wenv" "refines (kern w) d" "short d" "connected_skt_fd args = skt"
    "backlog w = cs @ later" "packet cs" "length (pending d) + length (concat cs) < READ_WRITE_SIZE"
    "psize d + length (concat cs) + length cs < KMALLOC_MAX_SIZE"
  shows "\<exists>w'. data_processor (dev_os libc renv wenv skt) args False w =
      Some (Inr (args\<lparr>thread_complete := 1\<rparr>, False, w')) \<and>
    refines (kern w') (packet_stored d cs) \<and> short (packet_stored d cs) \<and> backlog w' = later \<and>
    echoed w' = echoed w @ concat (hist (packet_stored d cs))"
proof -
  let ?w = "w\<lparr>dfile := \<lparr>private_data = TheDev, f_pos = 0\<rparr>\<rparr>"
  have "dev_rep renv wenv ?w d" "backlog ?w = cs @ later" using assms by (simp_all add: dev_rep_def)
  from device.data_processor_answers[OF this(1) assms(4) this(2) assms(6) accepts_packet[OF assms(6-8)]]
  show ?thesis
    using foldl_store_packet[OF assms(6), of d]
    by (subst data_processor_open[where f = "\<lparr>private_data = TheDev, f_pos = 0\<rparr>"])
      (auto simp: dev_rep_def contents_def)
qed

text \<open>
  A command that does not fit the server's buffer: \<open>aesd_read\<close> ignores the requested count, so the
  first \<open>read\<close> overruns the buffer.
\<close>

lemma long_command_overruns:
  assumes "device_ready renv wenv" "refines (kern w) d" "readable d" "private_data (dfile w) = TheDev"
    "f_pos (dfile w) = 0" "fd \<noteq> skt" "hist d = c # cs" "READ_WRITE_SIZE \<le> length c"
  shows "read_file_and_send (dev_os libc renv wenv skt) skt fd w = Some (Inl OutOfBounds)"
proof -
  have out: "spec_read d (unat (f_pos (dfile w))) = c"
    using assms(5,7,8) by (cases c) (simp_all add: spec_read_def READ_WRITE_SIZE_def)
  have len: "length c < 2 ^ 63" using assms(3,7) by (simp add: readable_def KMALLOC_MAX_SIZE_def)
  have "read_env_good renv" using assms(1) by (simp add: device_ready_def)
  from read_call[OF assms(2) this assms(3,4), of "of_nat READ_WRITE_SIZE"] out assms(6,8) len
  show ?thesis
    unfolding read_file_and_send_def
    by (subst send_file_loop.simps)
      (auto simp: dev_read_def syscall_io_nat mem_write_def READ_WRITE_SIZE_def split: if_splits)
qed

end
