(* ===== verification/Server_Concurrent.thy ===== *)
theory Server_Concurrent
  imports Server_Steps Server_Device "HOL-Library.Sublist"
begin

text \<open>
  Several connections at once on the driver. Every connection thread takes the steps of
  \<open>Server_Steps\<close>; the threads share the device and the mutex \<open>write_lock\<close>, and any thread that is
  not waiting may take the next step. The run is described by its log: the chunks in the order in
  which they were stored, each with the number of its thread.
\<close>

subsection \<open>The system\<close>

record conn =
  c_pc :: tpc
  c_file :: kfile
  c_in :: "string list"
  c_out :: string

record conc =
  c_kern :: kstate
  c_lock :: "nat option"
  c_conns :: "conn list"

definition conn_view :: "conc \<Rightarrow> conn \<Rightarrow> dworld" where
  "conn_view s t = \<lparr>kern = c_kern s, dfile = c_file t, backlog = c_in t, echoed = c_out t\<rparr>"

definition conn_skt :: "nat \<Rightarrow> int" where
  "conn_skt i = 2 * int i"

definition cstep :: "dworld os \<Rightarrow> read_env \<Rightarrow> write_env \<Rightarrow> conc \<Rightarrow> nat \<Rightarrow> conc res option" where
  "cstep libc renv wenv s i =
     (if i < length (c_conns s) then
        (let t = c_conns s ! i in
         case tstep (dev_os libc renv wenv (conn_skt i)) (conn_skt i) i (c_lock s, c_pc t, conn_view s t) of
           None \<Rightarrow> None
         | Some (Inl e) \<Rightarrow> Some (Inl e)
         | Some (Inr (lk, pc, w)) \<Rightarrow> Some (Inr
             \<lparr>c_kern = kern w, c_lock = lk,
              c_conns = (c_conns s)[i := \<lparr>c_pc = pc, c_file = dfile w, c_in = backlog w, c_out = echoed w\<rparr>]\<rparr>))
      else None)"

text \<open>The chunk that a step stores, if any.\<close>

definition commit :: "tpc \<Rightarrow> tpc \<Rightarrow> string list" where
  "commit pc pc' = (case (pc, pc') of (TStore _ buf n _, TUnlock _ _ _) \<Rightarrow> [take n buf] | _ \<Rightarrow> [])"

type_synonym log = "(nat \<times> string) list"

inductive creach :: "dworld os \<Rightarrow> read_env \<Rightarrow> write_env \<Rightarrow> conc \<Rightarrow> log \<Rightarrow> conc \<Rightarrow> bool" for libc renv wenv s0 where
  start: "creach libc renv wenv s0 [] s0"
| step: "creach libc renv wenv s0 log s \<Longrightarrow> cstep libc renv wenv s i = Some (Inr s') \<Longrightarrow>
    creach libc renv wenv s0 (log @ map (Pair i) (commit (c_pc (c_conns s ! i)) (c_pc (c_conns s' ! i)))) s'"

definition conc_start :: "kstate \<Rightarrow> string list list \<Rightarrow> conc" where
  "conc_start k css = \<lparr>c_kern = k, c_lock = None,
     c_conns = map (\<lambda>cs. \<lparr>c_pc = TOpen, c_file = \<lparr>private_data = NoDev, f_pos = 0\<rparr>, c_in = cs, c_out = []\<rparr>) css\<rparr>"

definition all_done :: "conc \<Rightarrow> bool" where
  "all_done s \<longleftrightarrow> list_all (\<lambda>t. c_pc t = TDone True) (c_conns s)"

subsection \<open>Logs\<close>

definition chunks_of :: "nat \<Rightarrow> log \<Rightarrow> string list" where
  "chunks_of i log = map snd (filter (\<lambda>p. fst p = i) log)"

definition device_after :: "dev_spec \<Rightarrow> log \<Rightarrow> dev_spec" where
  "device_after d log = foldl store d (map snd log)"

text \<open>Every thread has stored a beginning of what its client sends.\<close>

definition shuffles :: "string list list \<Rightarrow> log \<Rightarrow> bool" where
  "shuffles css log \<longleftrightarrow> (\<forall>p \<in> set log. fst p < length css) \<and> (\<forall>i < length css. prefix (chunks_of i log) (css ! i))"

lemma chunks_of_simps [simp]:
  "chunks_of i [] = []" "chunks_of i (log @ [(j, c)]) = chunks_of i log @ (if i = j then [c] else [])"
  by (auto simp: chunks_of_def)

lemma device_after_simps [simp]:
  "device_after d [] = d" "device_after d (log @ [(i, c)]) = store (device_after d log) c"
  by (simp_all add: device_after_def)

lemma shuffles_add:
  "shuffles css log \<Longrightarrow> i < length css \<Longrightarrow> chunks_of i log @ c # rest = css ! i \<Longrightarrow> shuffles css (log @ [(i, c)])"
  by (auto simp: shuffles_def prefix_def) (metis append_Cons append_Nil append_assoc)

text \<open>What is stored is at most what the clients send, for any measure of chunks.\<close>

lemma log_by_thread:
  fixes f :: "string \<Rightarrow> nat"
  assumes "\<forall>p \<in> set log. fst p < n"
  shows "(\<Sum>p\<leftarrow>log. f (snd p)) = (\<Sum>i<n. \<Sum>c\<leftarrow>chunks_of i log. f c)"
  using assms
proof (induction log rule: rev_induct)
  case (snoc p log)
  obtain j c where p: "p = (j, c)" by (rule prod.exhaust)
  have "(\<Sum>i<n. \<Sum>c\<leftarrow>chunks_of i (log @ [p]). f c) = (\<Sum>i<n. (\<Sum>c\<leftarrow>chunks_of i log. f c) + (if i = j then f c else 0))"
    unfolding p by (intro sum.cong) auto
  also have "\<dots> = (\<Sum>i<n. \<Sum>c\<leftarrow>chunks_of i log. f c) + f c"
    using snoc.prems p by (simp add: sum.distrib)
  finally show ?case using snoc p by simp
qed simp

lemma log_budget:
  fixes f :: "string \<Rightarrow> nat"
  assumes "shuffles css log"
  shows "(\<Sum>p\<leftarrow>log. f (snd p)) \<le> (\<Sum>cs\<leftarrow>css. \<Sum>c\<leftarrow>cs. f c)"
proof -
  have "(\<Sum>c\<leftarrow>chunks_of i log. f c) \<le> (\<Sum>c\<leftarrow>css ! i. f c)" if "i < length css" for i
    using assms that by (auto simp: shuffles_def elim!: prefixE)
  then have "(\<Sum>i<length css. \<Sum>c\<leftarrow>chunks_of i log. f c) \<le> (\<Sum>i<length css. \<Sum>c\<leftarrow>css ! i. f c)"
    by (intro sum_mono) simp
  also have "\<dots> = (\<Sum>cs\<leftarrow>css. \<Sum>c\<leftarrow>cs. f c)"
    by (simp add: sum_list_sum_nth atLeast0LessThan)
  finally show ?thesis using log_by_thread[of log "length css" f] assms by (simp add: shuffles_def)
qed

definition ends :: "string \<Rightarrow> nat" where
  "ends c = (if newline \<in> set c then 1 else 0)"

lemma device_after_bounds:
  "length (pending (device_after d log)) \<le> length (pending d) + (\<Sum>p\<leftarrow>log. length (snd p))"
  "psize (device_after d log) \<le> psize d + (\<Sum>p\<leftarrow>log. length (snd p) + 1)"
  "length (hist (device_after d log)) \<le> length (hist d) + (\<Sum>p\<leftarrow>log. ends (snd p))"
proof (induction log rule: rev_induct)
  case (snoc p log)
  obtain j c where p: "p = (j, c)" by (rule prod.exhaust)
  have t: "length (text_of c) \<le> length c" "newline \<in> set (text_of c) \<Longrightarrow> newline \<in> set c"
    by (auto simp: text_of_def length_takeWhile_le dest: set_takeWhileD)
  {
    case 1
    then show ?case using snoc(1) t by (auto simp: p store_def spec_write_def Let_def)
  next
    case 2
    then show ?case using snoc(2) t by (auto simp: p store_def spec_write_def Let_def)
  next
    case 3
    then show ?case using snoc(3) t by (auto simp: p store_def spec_write_def Let_def keep_last_def ends_def)
  }
qed simp_all

subsection \<open>Room\<close>

text \<open>
  What the clients send fits in any order: all of it together is shorter than the server's buffer
  and the kernel's allocation limit, or no command is pending and every packet comes as one chunk.
\<close>

definition fits :: "dev_spec \<Rightarrow> string list list \<Rightarrow> bool" where
  "fits d css \<longleftrightarrow>
     length (pending d) + (\<Sum>cs\<leftarrow>css. \<Sum>c\<leftarrow>cs. length c) < READ_WRITE_SIZE \<and>
       psize d + (\<Sum>cs\<leftarrow>css. \<Sum>c\<leftarrow>cs. length c + 1) < KMALLOC_MAX_SIZE \<or>
     pending d = [] \<and> psize d = 0 \<and> list_all (\<lambda>cs. length cs = 1) css"

text \<open>No command is evicted.\<close>

definition roomy :: "dev_spec \<Rightarrow> string list list \<Rightarrow> bool" where
  "roomy d css \<longleftrightarrow> length (hist d) + length css \<le> 10"

lemma packet_ordinary: "packet cs \<Longrightarrow> c \<in> set cs \<Longrightarrow> ordinary c"
  by (induction cs) (auto simp: packet_Cons split: if_splits)

lemma packet_ends: "packet cs \<Longrightarrow> (\<Sum>c\<leftarrow>cs. ends c) = 1"
  by (induction cs) (auto simp: packet_Cons ends_def split: if_splits)

lemma shuffles_mem: "shuffles css log \<Longrightarrow> (i, c) \<in> set log \<Longrightarrow> i < length css \<and> c \<in> set (css ! i)"
proof -
  assume a: "shuffles css log" "(i, c) \<in> set log"
  then have i: "i < length css" by (auto simp: shuffles_def)
  have "c \<in> set (chunks_of i log)" using a(2) by (force simp: chunks_of_def)
  then show ?thesis using a(1) i by (auto simp: shuffles_def dest!: set_mono_prefix)
qed

lemma single_chunks:
  assumes "shuffles css log" "list_all packet css" "list_all (\<lambda>cs. length cs = 1) css" "pending d = []" "psize d = 0"
  shows "pending (device_after d log) = [] \<and> psize (device_after d log) = 0"
  using assms(1)
proof (induction log rule: rev_induct)
  case (snoc p log)
  obtain j c where p: "p = (j, c)" by (rule prod.exhaust)
  have "shuffles css log" using snoc.prems by (auto simp: shuffles_def p split: if_splits intro: append_prefixD)
  moreover have "j < length css" "c \<in> set (css ! j)" using shuffles_mem[OF snoc.prems, of j c] p by auto
  then have "css ! j = [c]" "packet (css ! j)" using assms(2,3) by (auto simp: list_all_length length_Suc_conv)
  then have "newline \<in> set c" "NUL \<notin> set c" by (auto simp: ordinary_def)
  ultimately show ?case using snoc.IH by (simp add: p store_def spec_write_def Let_def text_of_id)
qed (use assms in simp)

lemma fits_accepts:
  assumes "fits d css" "list_all packet css" "shuffles css log" "i < length css" "chunks_of i log @ c # rest = css ! i"
  shows "accepts (device_after d log) c"
proof -
  have s: "shuffles css (log @ [(i, c)])" by (rule shuffles_add[OF assms(3-5)])
  have "c \<in> set (css ! i)" using assms(5) by (metis in_set_conv_decomp)
  then have c: "ordinary c" using packet_ordinary[of "css ! i" c] assms(2,4) by (simp add: list_all_length)
  from assms(1) consider
      "length (pending d) + (\<Sum>cs\<leftarrow>css. \<Sum>c\<leftarrow>cs. length c) < READ_WRITE_SIZE"
      "psize d + (\<Sum>cs\<leftarrow>css. \<Sum>c\<leftarrow>cs. length c + 1) < KMALLOC_MAX_SIZE"
    | "pending d = []" "psize d = 0" "list_all (\<lambda>cs. length cs = 1) css"
    by (auto simp: fits_def)
  then show ?thesis
  proof cases
    case 1
    then show ?thesis
      using device_after_bounds(1,2)[of d log] log_budget[OF s, of length] log_budget[OF s, of "\<lambda>c. length c + 1"] c
      by (simp add: accepts_def ordinary_def)
  next
    case 2
    then show ?thesis using single_chunks[OF assms(3,2) 2(3,1,2)] c
      by (simp add: accepts_def ordinary_def READ_WRITE_SIZE_def KMALLOC_MAX_SIZE_def)
  qed
qed

text \<open>With room for all commands, storing only adds to the contents.\<close>

lemma contents_grow:
  assumes "roomy d css" "list_all packet css" "shuffles css (log @ [(i, c)])" "NUL \<notin> set c"
  shows "prefix (contents (device_after d log)) (contents (store (device_after d log) c))"
proof (cases "newline \<in> set c")
  case True
  have "(\<Sum>cs\<leftarrow>css. \<Sum>c\<leftarrow>cs. ends c) = (\<Sum>cs\<leftarrow>css. 1)"
    using assms(2) packet_ends by (intro arg_cong[of _ _ sum_list] map_cong) (auto simp: list_all_iff)
  then have "length (hist (device_after d log)) < 10"
    using device_after_bounds(3)[of d log] log_budget[OF assms(3), of ends] assms(1) True
    by (simp add: roomy_def ends_def sum_list_triv)
  then show ?thesis using True assms(4)
    by (simp add: store_def spec_write_def Let_def text_of_id contents_def keep_last_def)
next
  case False
  then show ?thesis using assms(4) by (simp add: store_def spec_write_def Let_def text_of_id contents_def)
qed

subsection \<open>The invariant of one connection\<close>

text \<open>A chunk lies at the start of a buffer whose remaining bytes are those of a quiet buffer.\<close>

definition chunk_loaded :: "string \<Rightarrow> nat \<Rightarrow> bool \<Rightarrow> string \<Rightarrow> bool" where
  "chunk_loaded buf n eop c \<longleftrightarrow> ordinary c \<and> n = length c \<and> eop = (newline \<in> set c) \<and>
     (\<exists>old. quiet_buffer old \<and> buf = c @ drop (length c) old)"

text \<open>
  What was sent so far, and what is about to be sent, is the beginning of the contents up to the file
  position. A thread that finished sent the contents of the device at some moment after its packet
  was stored.
\<close>

definition sending :: "dev_spec \<Rightarrow> dworld \<Rightarrow> string \<Rightarrow> bool" where
  "sending D w bs \<longleftrightarrow> unat (f_pos (dfile w)) = length (echoed w @ bs) \<and> prefix (echoed w @ bs) (contents D)"

definition answered :: "dev_spec \<Rightarrow> string list \<Rightarrow> log \<Rightarrow> nat \<Rightarrow> string \<Rightarrow> bool" where
  "answered d cs log i out \<longleftrightarrow>
     (\<exists>log1 log2. log = log1 @ log2 \<and> chunks_of i log1 = cs \<and> out = contents (device_after d log1))"

definition on_device :: "nat \<Rightarrow> int \<Rightarrow> dworld \<Rightarrow> bool" where
  "on_device i fd w \<longleftrightarrow> fd \<noteq> conn_skt i \<and> private_data (dfile w) = TheDev"

text \<open>\<open>room\<close> says that no command is evicted; only then do clients get a state of the device back.\<close>

definition conn_ok :: "dev_spec \<Rightarrow> bool \<Rightarrow> string list \<Rightarrow> log \<Rightarrow> nat \<Rightarrow> tpc \<Rightarrow> dworld \<Rightarrow> bool" where
  "conn_ok d room cs log i pc w \<longleftrightarrow>
     (case pc of
        TOpen \<Rightarrow> chunks_of i log = [] \<and> backlog w = cs \<and> packet cs \<and> echoed w = []
      | TRecv fd buf \<Rightarrow> on_device i fd w \<and> chunks_of i log @ backlog w = cs \<and> packet (backlog w) \<and>
          quiet_buffer buf \<and> echoed w = []
      | TLock fd buf n eop \<Rightarrow> on_device i fd w \<and>
          (\<exists>c. chunk_loaded buf n eop c \<and> chunks_of i log @ c # backlog w = cs \<and> packet (c # backlog w)) \<and> echoed w = []
      | TStore fd buf n eop \<Rightarrow> on_device i fd w \<and>
          (\<exists>c. chunk_loaded buf n eop c \<and> chunks_of i log @ c # backlog w = cs \<and> packet (c # backlog w)) \<and> echoed w = []
      | TUnlock fd buf eop \<Rightarrow> on_device i fd w \<and> chunks_of i log @ backlog w = cs \<and>
          (if eop then backlog w = [] else packet (backlog w) \<and> quiet_buffer buf) \<and> echoed w = []
      | TUnlockSeek fd \<Rightarrow> False
      | TReopen fd \<Rightarrow> chunks_of i log = cs \<and> echoed w = []
      | TRead fd buf complete \<Rightarrow> on_device i fd w \<and> chunks_of i log = cs \<and> complete \<and>
          length buf = READ_WRITE_SIZE \<and> (room \<longrightarrow> sending (device_after d log) w [])
      | TSend fd buf bs complete \<Rightarrow> on_device i fd w \<and> chunks_of i log = cs \<and> complete \<and>
          length buf = READ_WRITE_SIZE \<and> (room \<longrightarrow> sending (device_after d log) w bs)
      | TClose fd complete \<Rightarrow> complete \<and> chunks_of i log = cs \<and> (room \<longrightarrow> answered d cs log i (echoed w))
      | TDone complete \<Rightarrow> complete \<and> chunks_of i log = cs \<and> (room \<longrightarrow> answered d cs log i (echoed w)))"

definition holds_lock :: "tpc \<Rightarrow> bool" where
  "holds_lock pc = (case pc of TStore _ _ _ _ \<Rightarrow> True | TUnlock _ _ _ \<Rightarrow> True | TUnlockSeek _ \<Rightarrow> True | _ \<Rightarrow> False)"

text \<open>How many steps are left to a thread before the next chunk is stored.\<close>

definition rank :: "dev_spec \<Rightarrow> tpc \<Rightarrow> dworld \<Rightarrow> nat" where
  "rank D pc w =
     (case pc of TOpen \<Rightarrow> 4 | TRecv _ _ \<Rightarrow> 3 | TLock _ _ _ _ \<Rightarrow> 2 | TStore _ _ _ _ \<Rightarrow> 1
      | TUnlock _ _ _ \<Rightarrow> 6 + 2 * length (contents D) | TUnlockSeek _ \<Rightarrow> 0
      | TReopen _ \<Rightarrow> 5 + 2 * length (contents D)
      | TRead _ _ _ \<Rightarrow> 2 + 2 * length (unread w D) | TSend _ _ _ _ \<Rightarrow> 3 + 2 * length (unread w D)
      | TClose _ _ \<Rightarrow> 1 | TDone _ \<Rightarrow> 0)"

text \<open>
  A step of a connection goes well: the device is what the log says, the invariant of the connection
  holds, the mutex changed hands properly, and a chunk was stored or the rank went down.
\<close>

definition goes_well ::
    "read_env \<Rightarrow> write_env \<Rightarrow> dev_spec \<Rightarrow> bool \<Rightarrow> string list \<Rightarrow> log \<Rightarrow> nat \<Rightarrow> nat option \<Rightarrow> tpc \<Rightarrow> dworld \<Rightarrow>
     (nat option \<times> tpc \<times> dworld) res option \<Rightarrow> bool" where
  "goes_well renv wenv d room cs log i lk pc w x \<longleftrightarrow>
     (\<exists>lk' pc' w'. x = Some (Inr (lk', pc', w')) \<and>
       (let log' = log @ map (Pair i) (commit pc pc') in
        refines (kern w') (device_after d log') \<and> short (device_after d log') \<and> conn_ok d room cs log' i pc' w' \<and>
        (if lk' = Some i then holds_lock pc' \<and> lk \<in> {None, Some i}
         else \<not> holds_lock pc' \<and> lk' = (if lk = Some i then None else lk)) \<and>
        (commit pc pc' = [] \<longrightarrow> rank (device_after d log) pc' w' < rank (device_after d log) pc w)))"

lemma goes_well_step [simp]:
  "goes_well renv wenv d room cs log i lk pc w (Some (Inr (lk', pc', w'))) \<longleftrightarrow>
     refines (kern w') (device_after d (log @ map (Pair i) (commit pc pc'))) \<and>
     short (device_after d (log @ map (Pair i) (commit pc pc'))) \<and>
     conn_ok d room cs (log @ map (Pair i) (commit pc pc')) i pc' w' \<and>
     (if lk' = Some i then holds_lock pc' \<and> lk \<in> {None, Some i}
      else \<not> holds_lock pc' \<and> lk' = (if lk = Some i then None else lk)) \<and>
     (commit pc pc' = [] \<longrightarrow> rank (device_after d log) pc' w' < rank (device_after d log) pc w)"
  by (auto simp: goes_well_def Let_def)

lemmas conn_defs = conn_ok_def holds_lock_def rank_def commit_def

lemma quiet_read:
  assumes "pc \<in> {TOpen} \<union> range TReopen" "refines (kern w) (device_after d log)" "short (device_after d log)"
    "conn_ok d room cs log i pc w" "lk \<noteq> Some i"
  shows "goes_well renv wenv d room cs log i lk pc w
    (tstep (dev_os libc renv wenv (conn_skt i)) (conn_skt i) i (lk, pc, w))"
  using assms quiet_start
  by (auto simp: dev_open_def aesd_open_def conn_defs on_device_def sending_def unread_def)

lemma recv_step:
  assumes "refines (kern w) (device_after d log)" "short (device_after d log)"
    "conn_ok d room cs log i (TRecv fd buf) w" "lk \<noteq> Some i"
  shows "goes_well renv wenv d room cs log i lk (TRecv fd buf) w
    (tstep (dev_os libc renv wenv (conn_skt i)) (conn_skt i) i (lk, TRecv fd buf, w))"
proof -
  obtain c rest where b: "backlog w = c # rest" using assms(3) by (cases "backlog w") (auto simp: conn_defs)
  have q: "quiet_buffer buf" and o: "ordinary c" using assms(3) b by (auto simp: conn_defs packet_Cons)
  note rc = received_chunk[OF q o]
  obtain found where f: "c_strchr (c @ drop (length c) buf) newline = Inr found" "found = None \<longleftrightarrow> newline \<notin> set c"
    using rc(3) by blast
  have c: "c \<noteq> []" "length c \<le> READ_WRITE_SIZE" using o by (auto simp: ordinary_def)
  then have r: "dev_recv (conn_skt i) READ_WRITE_SIZE w = (Done (length c) c, w\<lparr>backlog := rest\<rparr>)"
    by (simp add: dev_recv_def b)
  have l: "chunk_loaded (c @ drop (length c) buf) (length c) (found \<noteq> None) c"
    using o q f(2) by (auto simp: chunk_loaded_def)
  show ?thesis
    using assms r rc(1) f(1) c(1) b l
    by (auto simp: conn_defs on_device_def)
qed

lemma lock_step:
  assumes "refines (kern w) (device_after d log)" "short (device_after d log)"
    "conn_ok d room cs log i (TLock fd buf n eop) w"
  shows "goes_well renv wenv d room cs log i None (TLock fd buf n eop) w
    (tstep (dev_os libc renv wenv (conn_skt i)) (conn_skt i) i (None, TLock fd buf n eop, w))"
  using assms by (auto simp: conn_defs lock_mutex_def)

lemma unlock_step:
  assumes "refines (kern w) (device_after d log)" "short (device_after d log)"
    "conn_ok d room cs log i (TUnlock fd buf eop) w"
  shows "goes_well renv wenv d room cs log i (Some i) (TUnlock fd buf eop) w
    (tstep (dev_os libc renv wenv (conn_skt i)) (conn_skt i) i (Some i, TUnlock fd buf eop, w))"
  using assms by (auto simp: conn_defs unlock_mutex_def received_def)

lemma store_step:
  assumes "device_ready renv wenv" "refines (kern w) (device_after d log)" "short (device_after d log)"
    "conn_ok d room cs log i (TStore fd buf n eop) w"
    "\<And>c rest. chunks_of i log @ c # rest = cs \<Longrightarrow> accepts (device_after d log) c"
  shows "goes_well renv wenv d room cs log i (Some i) (TStore fd buf n eop) w
    (tstep (dev_os libc renv wenv (conn_skt i)) (conn_skt i) i (Some i, TStore fd buf n eop, w))"
proof -
  obtain c old where c: "ordinary c" "n = length c" "eop = (newline \<in> set c)" "quiet_buffer old"
      "buf = c @ drop (length c) old" "chunks_of i log @ c # backlog w = cs" "packet (c # backlog w)"
      "on_device i fd w" "echoed w = []"
    using assms(4) by (auto simp: conn_defs chunk_loaded_def)
  note rc = received_chunk[OF c(4,1)]
  obtain str z where z: "c_string buf = Inr str" "c_strncmp (length special_string) buf (special_string @ [NUL]) = Inr z" "z \<noteq> 0"
    using rc(2,4) c(5) by auto
  have rep: "dev_rep renv wenv w (device_after d log)" "fd \<noteq> conn_skt i"
    using assms(1-3) c(8) by (auto simp: dev_rep_def on_device_def)
  obtain w' where w': "dev_write wenv (conn_skt i) fd c w = (Done (length c) [], w')"
      "dev_rep renv wenv w' (store (device_after d log) c)" "echoed w' = echoed w" "backlog w' = backlog w"
    using dev_write_law[OF rep assms(5)[OF c(6)]] by blast
  have "conn_ok d room cs (log @ [(i, c)]) i (TUnlock fd buf eop) w'"
    using c rc(7) w' rep(2) by (auto simp: conn_ok_def on_device_def dev_rep_def packet_Cons split: if_splits)
  moreover have step: "tstep (dev_os libc renv wenv (conn_skt i)) (conn_skt i) i (Some i, TStore fd buf n eop, w) =
      Some (Inr (Some i, TUnlock fd buf eop, w'))"
    using z w'(1) c(2,5) by simp
  ultimately show ?thesis unfolding step using w'(2) c(2,5) by (simp add: commit_def holds_lock_def dev_rep_def)
qed

lemma read_step:
  assumes "device_ready renv wenv" "refines (kern w) (device_after d log)" "short (device_after d log)"
    "conn_ok d room cs log i (TRead fd buf complete) w" "lk \<noteq> Some i"
  shows "goes_well renv wenv d room cs log i lk (TRead fd buf complete) w
    (tstep (dev_os libc renv wenv (conn_skt i)) (conn_skt i) i (lk, TRead fd buf complete, w))"
proof -
  let ?D = "device_after d log"
  define out where "out = spec_read ?D (unat (f_pos (dfile w)))"
  have rep: "dev_rep renv wenv w ?D" "fd \<noteq> conn_skt i" and b: "length buf = READ_WRITE_SIZE"
    using assms(1-4) by (auto simp: dev_rep_def on_device_def conn_ok_def)
  have ok: "chunks_of i log = cs" "complete" "room \<longrightarrow> sending ?D w []" using assms(4) by (auto simp: conn_ok_def)
  obtain w' where w': "dev_read renv (conn_skt i) fd READ_WRITE_SIZE w = (Done (length out) (if out = [] then [] else out @ [NUL]), w')"
      "dev_rep renv wenv w' ?D" "echoed w' = echoed w" "backlog w' = backlog w" "unread w ?D = out @ unread w' ?D"
      "unat (f_pos (dfile w')) = unat (f_pos (dfile w)) + length out"
    using dev_read_law[OF rep, of READ_WRITE_SIZE] unfolding out_def by blast
  have len: "length out < READ_WRITE_SIZE" unfolding out_def by (rule spec_read_short[OF assms(3)])
  have split: "drop (unat (f_pos (dfile w))) (contents ?D) = out @ drop (unat (f_pos (dfile w'))) (contents ?D)"
    using w'(5,6) by (simp add: unread_def)
  show ?thesis
  proof (cases "out = []")
    case True
    then have "drop (unat (f_pos (dfile w))) (contents ?D) = []" using spec_read_split(2) by (simp add: out_def)
    then have "room \<longrightarrow> echoed w = contents ?D" using ok(3) by (auto simp: sending_def prefix_def)
    then have "room \<longrightarrow> answered d cs log i (echoed w')" using ok(1) w'(3) by (auto simp: answered_def)
    then show ?thesis using True w'(1,2) ok assms(5) by (simp add: conn_defs dev_rep_def mem_write_def)
  next
    case False
    have "room \<longrightarrow> sending ?D w' out"
      using ok(3) split w'(3,6) by (auto simp: sending_def prefix_def)
    moreover have "mem_write buf 0 (out @ [NUL]) = Inr (out @ NUL # drop (length out + 1) buf)"
      using len b by (simp add: mem_write_0)
    moreover have "Suc 0 < 2 * length out" using False by (cases out) auto
    ultimately show ?thesis
      using False w'(1,2,5) ok rep assms(5) len b by (simp add: conn_defs dev_rep_def on_device_def)
  qed
qed

lemma send_step:
  assumes "refines (kern w) (device_after d log)" "short (device_after d log)"
    "conn_ok d room cs log i (TSend fd buf bs complete) w" "lk \<noteq> Some i"
  shows "goes_well renv wenv d room cs log i lk (TSend fd buf bs complete) w
    (tstep (dev_os libc renv wenv (conn_skt i)) (conn_skt i) i (lk, TSend fd buf bs complete, w))"
  using assms by (auto simp: conn_defs dev_write_def sending_def on_device_def unread_def)

lemma close_step:
  assumes "refines (kern w) (device_after d log)" "short (device_after d log)"
    "conn_ok d room cs log i (TClose fd complete) w" "lk \<noteq> Some i"
  shows "goes_well renv wenv d room cs log i lk (TClose fd complete) w
    (tstep (dev_os libc renv wenv (conn_skt i)) (conn_skt i) i (lk, TClose fd complete, w))"
  using assms by (auto simp: conn_defs)

text \<open>A connection that is neither finished nor waiting for the mutex takes a good step.\<close>

lemma conn_step:
  assumes "device_ready renv wenv" "refines (kern w) (device_after d log)" "short (device_after d log)"
    "conn_ok d room cs log i pc w" "\<And>c rest. chunks_of i log @ c # rest = cs \<Longrightarrow> accepts (device_after d log) c"
    "lk = Some i \<longleftrightarrow> holds_lock pc" "pc \<noteq> TDone True" "lk = None \<or> pc \<notin> {TLock fd buf n eop | fd buf n eop. True}"
  shows "goes_well renv wenv d room cs log i lk pc w
    (tstep (dev_os libc renv wenv (conn_skt i)) (conn_skt i) i (lk, pc, w))"
proof (cases pc)
  case (TLock fd buf n eop)
  then show ?thesis using lock_step[OF assms(2,3)] assms(4,8) by blast
next
  case (TStore fd buf n eop)
  then show ?thesis using store_step[OF assms(1-3)] assms(4-6) by (simp add: holds_lock_def del: tstep.simps)
next
  case (TUnlock fd buf eop)
  then show ?thesis using unlock_step[OF assms(2,3)] assms(4,6) by (simp add: holds_lock_def del: tstep.simps)
next
  case (TUnlockSeek fd)
  then show ?thesis using assms(4) by (simp add: conn_ok_def)
next
  case (TDone complete)
  then show ?thesis using assms(4,7) by (simp add: conn_ok_def)
next
  case (TRead fd buf complete)
  then show ?thesis using read_step[OF assms(1-3)] assms(4,6) by (simp add: holds_lock_def del: tstep.simps)
qed (use assms quiet_read[OF _ assms(2-4)] recv_step[OF assms(2,3)] send_step[OF assms(2,3)] close_step[OF assms(2,3)]
  in \<open>simp_all add: holds_lock_def del: tstep.simps\<close>)

subsection \<open>The invariant of the system\<close>

definition conc_ok :: "dev_spec \<Rightarrow> bool \<Rightarrow> string list list \<Rightarrow> log \<Rightarrow> conc \<Rightarrow> bool" where
  "conc_ok d room css log s \<longleftrightarrow>
     refines (c_kern s) (device_after d log) \<and> short (device_after d log) \<and> length (c_conns s) = length css \<and>
     (\<forall>p \<in> set log. fst p < length css) \<and>
     (\<forall>i < length css. conn_ok d room (css ! i) log i (c_pc (c_conns s ! i)) (conn_view s (c_conns s ! i))) \<and>
     (\<forall>i. c_lock s = Some i \<longleftrightarrow> i < length css \<and> holds_lock (c_pc (c_conns s ! i)))"

definition ranks :: "dev_spec \<Rightarrow> log \<Rightarrow> conc \<Rightarrow> nat" where
  "ranks d log s = (\<Sum>t\<leftarrow>c_conns s. rank (device_after d log) (c_pc t) (conn_view s t))"

lemma conn_ok_prefix: "conn_ok d room cs log i pc w \<Longrightarrow> prefix (chunks_of i log) cs"
  by (cases pc) (auto simp: conn_ok_def)

lemma conc_ok_shuffles: "conc_ok d room css log s \<Longrightarrow> shuffles css log"
  by (auto simp: conc_ok_def shuffles_def intro: conn_ok_prefix)

text \<open>What one thread stores does not disturb the others.\<close>

lemma conn_ok_other:
  assumes "conn_ok d room cs log j pc w" "i \<noteq> j"
    "room \<Longrightarrow> prefix (contents (device_after d log)) (contents (store (device_after d log) c))"
  shows "conn_ok d room cs (log @ [(i, c)]) j pc w"
proof -
  have "answered d cs log j out \<Longrightarrow> answered d cs (log @ [(i, c)]) j out" for out
    unfolding answered_def by (metis append_assoc)
  then show ?thesis
    using assms by (cases pc) (auto simp: conn_ok_def sending_def intro: prefix_order.trans)
qed

lemma conn_ok_view: "dfile w = dfile w' \<Longrightarrow> backlog w = backlog w' \<Longrightarrow> echoed w = echoed w' \<Longrightarrow>
    conn_ok d room cs log i pc w = conn_ok d room cs log i pc w'"
  by (cases pc) (auto simp: conn_ok_def on_device_def sending_def)

lemma rank_view: "dfile w = dfile w' \<Longrightarrow> rank D pc w = rank D pc w'"
  by (cases pc) (auto simp: rank_def unread_def)

definition waiting :: "conc \<Rightarrow> nat \<Rightarrow> bool" where
  "waiting s i \<longleftrightarrow> c_lock s \<noteq> None \<and> (case c_pc (c_conns s ! i) of TLock _ _ _ _ \<Rightarrow> True | _ \<Rightarrow> False)"

definition moved :: "conc \<Rightarrow> nat \<Rightarrow> nat option \<times> tpc \<times> dworld \<Rightarrow> conc" where
  "moved s i = (\<lambda>(lk, pc, w). \<lparr>c_kern = kern w, c_lock = lk,
     c_conns = (c_conns s)[i := \<lparr>c_pc = pc, c_file = dfile w, c_in = backlog w, c_out = echoed w\<rparr>]\<rparr>)"

lemma moved_fields [simp]:
  "c_kern (moved s i (lk, pc, w)) = kern w" "c_lock (moved s i (lk, pc, w)) = lk"
  "c_conns (moved s i (lk, pc, w)) = (c_conns s)[i := \<lparr>c_pc = pc, c_file = dfile w, c_in = backlog w, c_out = echoed w\<rparr>]"
  by (simp_all add: moved_def)

lemma moved_view [simp]:
  "conn_view (moved s i (lk, pc, w)) \<lparr>c_pc = pc', c_file = dfile w, c_in = backlog w, c_out = echoed w\<rparr> = w"
  by (simp add: conn_view_def)

lemma conn_ok_moved:
  "conn_ok d room cs log j pc (conn_view s' t) = conn_ok d room cs log j pc (conn_view s t)"
  by (rule conn_ok_view) (simp_all add: conn_view_def)

lemma ranks_moved:
  assumes "i < length (c_conns s)"
    "rank (device_after d log) pc w < rank (device_after d log) (c_pc (c_conns s ! i)) (conn_view s (c_conns s ! i))"
  shows "ranks d log (moved s i (lk, pc, w)) < ranks d log s"
proof -
  let ?f = "\<lambda>t. rank (device_after d log) (c_pc t) (conn_view s t)"
    and ?t = "\<lparr>c_pc = pc, c_file = dfile w, c_in = backlog w, c_out = echoed w\<rparr>"
  have f: "rank (device_after d log) (c_pc t) (conn_view (moved s i (lk, pc, w)) t) = ?f t" for t
    by (rule rank_view) (simp add: conn_view_def)
  have t: "?f ?t = rank (device_after d log) pc w" using f[of ?t] by simp
  have "ranks d log (moved s i (lk, pc, w)) = sum_list ((map ?f (c_conns s))[i := ?f ?t])"
    unfolding ranks_def moved_fields f by (simp add: map_update)
  also have "\<dots> < ranks d log s"
    using assms t member_le_sum_list[of "?f (c_conns s ! i)" "map ?f (c_conns s)"]
    by (auto simp: sum_list_update ranks_def)
  finally show ?thesis .
qed

lemma cstep_moved:
  "i < length (c_conns s) \<Longrightarrow>
   tstep (dev_os libc renv wenv (conn_skt i)) (conn_skt i) i (c_lock s, c_pc (c_conns s ! i), conn_view s (c_conns s ! i)) =
     Some (Inr (lk, pc, w)) \<Longrightarrow>
   cstep libc renv wenv s i = Some (Inr (moved s i (lk, pc, w)))"
  by (simp add: cstep_def moved_def)

lemma commit_cases: obtains "commit pc pc' = []" | c where "commit pc pc' = [c]"
  by (cases pc; cases pc') (auto simp: commit_def)

lemma lock_moves:
  assumes "\<forall>j. lk = Some j \<longleftrightarrow> j < n \<and> H j" "i < n"
    "if lk' = Some i then h \<and> lk \<in> {None, Some i} else \<not> h \<and> lk' = (if lk = Some i then None else lk)"
  shows "lk' = Some j \<longleftrightarrow> j < n \<and> (if j = i then h else H j)"
  using assms by (metis insertE option.distinct(1) option.inject singletonD)

lemma conn_ok_others:
  assumes "conc_ok d room css log s" "list_all packet css" "room \<longrightarrow> roomy d css" "i < length css"
    "conn_ok d room (css ! i) (log @ map (Pair i) (commit pc0 pc)) i pc w" "j < length css" "j \<noteq> i"
  shows "conn_ok d room (css ! j) (log @ map (Pair i) (commit pc0 pc)) j (c_pc (c_conns s ! j)) (conn_view s (c_conns s ! j))"
proof (rule commit_cases[of pc0 pc])
  fix c assume c: "commit pc0 pc = [c]"
  have sh: "shuffles css (log @ [(i, c)])"
    using conn_ok_prefix[OF assms(5)] conc_ok_shuffles[OF assms(1)] assms(4) c by (auto simp: shuffles_def)
  have "ordinary c" using shuffles_mem[OF sh, of i c] packet_ordinary[of "css ! i" c] assms(2) by (auto simp: list_all_length)
  then have "room \<Longrightarrow> prefix (contents (device_after d log)) (contents (store (device_after d log) c))"
    using contents_grow[OF _ assms(2) sh] assms(3) by (simp add: ordinary_def)
  then show ?thesis using conn_ok_other[of d room "css ! j" log j _ _ i c] assms(1,6,7) c by (auto simp: conc_ok_def)
qed (use assms(1,6) in \<open>auto simp: conc_ok_def\<close>)

lemma conc_step:
  assumes "device_ready renv wenv" "fits d css" "list_all packet css" "room \<longrightarrow> roomy d css"
    "conc_ok d room css log s" "i < length css" "c_pc (c_conns s ! i) \<noteq> TDone True" "\<not> waiting s i"
  shows "\<exists>s'. cstep libc renv wenv s i = Some (Inr s') \<and>
    (let new = map (Pair i) (commit (c_pc (c_conns s ! i)) (c_pc (c_conns s' ! i))) in
     conc_ok d room css (log @ new) s' \<and> (new = [] \<longrightarrow> ranks d log s' < ranks d log s))"
proof -
  let ?t = "c_conns s ! i"
  have n: "length (c_conns s) = length css" using assms(5) by (simp add: conc_ok_def)
  have "goes_well renv wenv d room (css ! i) log i (c_lock s) (c_pc ?t) (conn_view s ?t)
    (tstep (dev_os libc renv wenv (conn_skt i)) (conn_skt i) i (c_lock s, c_pc ?t, conn_view s ?t))"
  proof (rule conn_step)
    show "accepts (device_after d log) c" if "chunks_of i log @ c # rest = css ! i" for c rest
      by (rule fits_accepts[OF assms(2,3) conc_ok_shuffles[OF assms(5)] assms(6) that])
    show "c_lock s = None \<or> c_pc ?t \<notin> {TLock fd buf n eop |fd buf n eop. True}"
      using assms(8) by (auto simp: waiting_def)
  qed (use assms in \<open>auto simp: conc_ok_def conn_view_def\<close>)
  then obtain lk pc w where
    st: "tstep (dev_os libc renv wenv (conn_skt i)) (conn_skt i) i (c_lock s, c_pc ?t, conn_view s ?t) = Some (Inr (lk, pc, w))"
    and gw: "goes_well renv wenv d room (css ! i) log i (c_lock s) (c_pc ?t) (conn_view s ?t) (Some (Inr (lk, pc, w)))"
    by (auto simp: goes_well_def)
  define new where "new = map (Pair i) (commit (c_pc ?t) pc)"
  have ok: "conn_ok d room (css ! i) (log @ new) i pc w" using gw by (simp add: new_def)
  have handed: "if lk = Some i then holds_lock pc \<and> c_lock s \<in> {None, Some i}
    else \<not> holds_lock pc \<and> lk = (if c_lock s = Some i then None else c_lock s)"
    using gw unfolding goes_well_step by blast
  have locks: "\<forall>j. c_lock s = Some j \<longleftrightarrow> j < length css \<and> holds_lock (c_pc (c_conns s ! j))"
    using assms(5) by (simp add: conc_ok_def)
  note other = conn_ok_others[OF assms(5,3,4,6) ok[unfolded new_def], folded new_def]
  have "conc_ok d room css (log @ new) (moved s i (lk, pc, w))"
    unfolding conc_ok_def
  proof (intro conjI allI impI ballI)
    fix j assume "j < length css"
    then show "conn_ok d room (css ! j) (log @ new) j (c_pc (c_conns (moved s i (lk, pc, w)) ! j))
        (conn_view (moved s i (lk, pc, w)) (c_conns (moved s i (lk, pc, w)) ! j))"
      using other[of j] gw n assms(6)
      by (cases "j = i") (auto simp: new_def conn_ok_moved[of _ _ _ _ _ _ "moved s i (lk, pc, w)" _ s])
  next
    fix j show "c_lock (moved s i (lk, pc, w)) = Some j \<longleftrightarrow> j < length css \<and> holds_lock (c_pc (c_conns (moved s i (lk, pc, w)) ! j))"
      using lock_moves[OF locks assms(6) handed, of j] n assms(6) by simp
  qed (use gw n assms(5,6) in \<open>auto simp: new_def conc_ok_def\<close>)
  moreover have "new = [] \<longrightarrow> ranks d log (moved s i (lk, pc, w)) < ranks d log s"
    using gw ranks_moved[of i s d log pc w lk] n assms(6) by (auto simp: new_def)
  ultimately show ?thesis using cstep_moved[OF _ st] n assms(6) by (auto simp: new_def Let_def)
qed

end
