(* ===== verification/Server_Interleaving.thy ===== *)
theory Server_Interleaving
  imports Server_Concurrent
begin

text \<open>
  What runs of several connections do: no thread ever faults, every run ends with every client
  answered, and the orders in which chunks can reach the device are exactly the interleavings of
  the packets. Since the mutex is released between the chunks of a packet, a packet that arrives in
  several chunks can be mixed with the packet of another client.
\<close>

subsection \<open>Runs keep the invariant\<close>

lemma start_ok:
  "refines k d \<Longrightarrow> short d \<Longrightarrow> list_all packet css \<Longrightarrow> conc_ok d room css [] (conc_start k css)"
  by (auto simp: conc_ok_def conc_start_def conn_ok_def conn_view_def holds_lock_def list_all_length)

lemma shufflesD: "shuffles css log \<Longrightarrow> i < length css \<Longrightarrow> prefix (chunks_of i log) (css ! i)"
  by (simp add: shuffles_def)

lemma conc_holder:
  "conc_ok d room css log s \<Longrightarrow> c_lock s = Some i \<longleftrightarrow> i < length css \<and> holds_lock (c_pc (c_conns s ! i))"
  by (simp add: conc_ok_def)

lemma cstep_enabled:
  assumes "conc_ok d room css log s" "cstep libc renv wenv s i = Some r"
  shows "i < length css" "c_pc (c_conns s ! i) \<noteq> TDone True" "\<not> waiting s i"
proof -
  show i: "i < length css" using assms by (auto simp: cstep_def conc_ok_def split: if_splits)
  show "c_pc (c_conns s ! i) \<noteq> TDone True" using assms(2) by (auto simp: cstep_def Let_def split: if_splits)
  show "\<not> waiting s i"
  proof
    assume "waiting s i"
    then obtain fd buf n eop j where w: "c_pc (c_conns s ! i) = TLock fd buf n eop" "c_lock s = Some j"
      by (auto simp: waiting_def split: tpc.splits)
    have "j \<noteq> i" using conc_holder[OF assms(1), of i] w by (auto simp: holds_lock_def)
    then show False using assms(2) w by (auto simp: cstep_def Let_def lock_mutex_def split: if_splits)
  qed
qed

lemma reach_ok:
  assumes "device_ready renv wenv" "fits d css" "list_all packet css" "room \<longrightarrow> roomy d css"
    "creach libc renv wenv s0 log s" "conc_ok d room css [] s0"
  shows "conc_ok d room css log s"
  using assms(5)
proof induction
  case (step log s i s')
  then show ?case using conc_step[OF assms(1-4) step.IH cstep_enabled[OF step.IH step.hyps(2)], of libc] by (auto simp: Let_def)
qed (rule assms(6))

text \<open>A system in which no thread can step is done.\<close>

lemma stuck_done:
  assumes "device_ready renv wenv" "fits d css" "list_all packet css" "room \<longrightarrow> roomy d css" "conc_ok d room css log s"
    "\<forall>i. cstep libc renv wenv s i = None"
  shows "all_done s \<and> (\<forall>i < length css. chunks_of i log = css ! i)"
proof -
  have n: "length (c_conns s) = length css" using assms(5) by (simp add: conc_ok_def)
  have stuck: "c_pc (c_conns s ! i) = TDone True \<or> waiting s i" if "i < length css" for i
    using conc_step[OF assms(1-5) that] assms(6) by (metis option.distinct(1))
  have "c_lock s = None"
  proof (rule ccontr)
    assume "c_lock s \<noteq> None"
    then obtain i where "c_lock s = Some i" by blast
    then have "i < length css" "holds_lock (c_pc (c_conns s ! i))" using conc_holder[OF assms(5)] by auto
    then show False using stuck[of i] by (auto simp: waiting_def holds_lock_def split: tpc.splits)
  qed
  then have pc: "c_pc (c_conns s ! i) = TDone True" if "i < length css" for i using stuck[OF that] by (simp add: waiting_def)
  then have "chunks_of i log = css ! i" if "i < length css" for i
    using assms(5) that pc[OF that] by (auto simp: conc_ok_def conn_ok_def)
  then show ?thesis using pc n by (auto simp: all_done_def list_all_length)
qed

text \<open>
  C5: connections that run at the same time. In every state that some order of steps of the threads
  reaches, the device holds what the chunks stored so far give, in the order in which they were
  stored; each thread has stored a beginning of its client's packet; and no thread can fault. A state
  in which no thread can go on is one in which all threads have finished and every packet is stored.
  If the device has room for all commands, every finished thread has sent its client the contents of
  the device at one moment after its own packet was stored.
\<close>

theorem concurrent_clients:
  assumes "device_ready renv wenv" "refines k d" "short d" "fits d css" "list_all packet css"
    "creach libc renv wenv (conc_start k css) log s"
  shows "refines (c_kern s) (device_after d log) \<and> shuffles css log \<and>
    (\<forall>i e. cstep libc renv wenv s i \<noteq> Some (Inl e)) \<and>
    ((\<forall>i. cstep libc renv wenv s i = None) \<longrightarrow> all_done s \<and> (\<forall>i < length css. chunks_of i log = css ! i)) \<and>
    (roomy d css \<longrightarrow> (\<forall>i < length css. c_pc (c_conns s ! i) = TDone True \<longrightarrow>
      answered d (css ! i) log i (c_out (c_conns s ! i))))"
proof -
  have ok: "conc_ok d room css log s" if "room \<longrightarrow> roomy d css" for room
    by (rule reach_ok[OF assms(1,4,5) that assms(6) start_ok[OF assms(2,3,5)]])
  note ok0 = ok[of False, simplified]
  have "cstep libc renv wenv s i \<noteq> Some (Inl e)" for i e
    using cstep_enabled[OF ok0, of libc renv wenv i "Inl e"] conc_step[OF assms(1,4,5) _ ok0, of i libc] by fastforce
  moreover have "answered d (css ! i) log i (c_out (c_conns s ! i))"
    if "roomy d css" "i < length css" "c_pc (c_conns s ! i) = TDone True" for i
    using ok[of True] that by (auto simp: conc_ok_def conn_ok_def conn_view_def)
  ultimately show ?thesis
    using ok0 conc_ok_shuffles[OF ok0] stuck_done[OF assms(1,4,5) _ ok0, of libc] by (auto simp: conc_ok_def)
qed

subsection \<open>Runs end\<close>

lemma runs_end:
  assumes "device_ready renv wenv" "fits d css" "list_all packet css"
  shows "conc_ok d False css log s \<Longrightarrow> f 0 = s \<Longrightarrow> \<exists>m. \<forall>i. cstep libc renv wenv (f m) i \<noteq> Some (Inr (f (Suc m)))"
proof (induction "((\<Sum>cs\<leftarrow>css. length cs) - length log, ranks d log s)" arbitrary: log s f
    rule: wf_induct_rule[OF wf_lex_prod[OF wf_less wf_less]])
  case 1
  show ?case
  proof (rule ccontr)
    assume run: "\<not> ?thesis"
    then obtain i where i: "cstep libc renv wenv s i = Some (Inr (f 1))" using "1.prems"(2) by (metis One_nat_def)
    define new where "new = map (Pair i) (commit (c_pc (c_conns s ! i)) (c_pc (c_conns (f 1) ! i)))"
    have ok: "conc_ok d False css (log @ new) (f 1)" and r: "new = [] \<longrightarrow> ranks d log (f 1) < ranks d log s"
      using conc_step[OF assms(1-3) _ "1.prems"(1) cstep_enabled[OF "1.prems"(1) i], of libc] i by (auto simp: new_def Let_def)
    have "length (log @ new) \<le> (\<Sum>cs\<leftarrow>css. length cs)"
      using log_budget[OF conc_ok_shuffles[OF ok], of "\<lambda>_. 1"] by (simp add: sum_list_triv)
    then have "(\<Sum>cs\<leftarrow>css. length cs) - length (log @ new) < (\<Sum>cs\<leftarrow>css. length cs) - length log \<or>
        new = [] \<and> ranks d (log @ new) (f 1) < ranks d log s"
      using r by (cases new) auto
    then have "\<exists>m. \<forall>i. cstep libc renv wenv (f (Suc m)) i \<noteq> Some (Inr (f (Suc (Suc m))))"
      by (intro "1.hyps"[OF _ ok, of "\<lambda>m. f (Suc m)"]) auto
    then show False using run by blast
  qed
qed


subsection \<open>Every interleaving can happen\<close>

lemma cstep_others:
  "cstep libc renv wenv s i = Some (Inr s') \<Longrightarrow> j \<noteq> i \<Longrightarrow> c_conns s' ! j = c_conns s ! j"
  by (auto simp: cstep_def Let_def split: if_splits option.splits sum.splits)

lemma cstep_lock:
  assumes "conc_ok d room css log s" "conc_ok d room css log' s'" "cstep libc renv wenv s i = Some (Inr s')"
    "c_lock s \<in> {None, Some i}"
  shows "c_lock s' \<in> {None, Some i}"
proof (cases "c_lock s'")
  case (Some j)
  then have j: "j < length css" "holds_lock (c_pc (c_conns s' ! j))" using assms(2) by (auto simp: conc_ok_def)
  have "c_lock s = Some j" if "j \<noteq> i"
    using assms(1) cstep_others[OF assms(3) that] j by (auto simp: conc_ok_def)
  then show ?thesis using assms(4) Some by (cases "j = i") auto
qed simp

lemma store_next:
  assumes "device_ready renv wenv" "fits d css" "list_all packet css"
  shows "creach libc renv wenv s0 log s \<Longrightarrow> conc_ok d False css log s \<Longrightarrow> i < length css \<Longrightarrow>
    chunks_of i log @ c # rest = css ! i \<Longrightarrow> c_lock s \<in> {None, Some i} \<Longrightarrow>
    \<exists>s' fd buf eop. creach libc renv wenv s0 (log @ [(i, c)]) s' \<and> c_pc (c_conns s' ! i) = TUnlock fd buf eop"
proof (induction "ranks d log s" arbitrary: s rule: less_induct)
  case less
  have pc: "c_pc (c_conns s ! i) \<noteq> TDone True"
    using less.prems(2-4) by (auto simp: conc_ok_def conn_ok_def)
  have w: "\<not> waiting s i"
    using conc_holder[OF less.prems(2), of i] less.prems(5) by (auto simp: waiting_def holds_lock_def split: tpc.splits)
  obtain s' where s': "cstep libc renv wenv s i = Some (Inr s')"
    and ok: "conc_ok d False css (log @ map (Pair i) (commit (c_pc (c_conns s ! i)) (c_pc (c_conns s' ! i)))) s'"
    and r: "commit (c_pc (c_conns s ! i)) (c_pc (c_conns s' ! i)) = [] \<longrightarrow> ranks d log s' < ranks d log s"
    using conc_step[OF assms _ less.prems(2,3) pc w, of libc] by (auto simp: Let_def)
  note reach = creach.step[OF less.prems(1) s']
  have lk: "c_lock s' \<in> {None, Some i}" by (rule cstep_lock[OF less.prems(2) ok s' less.prems(5)])
  show ?case
  proof (rule commit_cases[of "c_pc (c_conns s ! i)" "c_pc (c_conns s' ! i)"])
    assume "commit (c_pc (c_conns s ! i)) (c_pc (c_conns s' ! i)) = []"
    then show ?thesis using less.hyps[of s'] r reach ok less.prems(3,4) lk by simp
  next
    fix b assume b: "commit (c_pc (c_conns s ! i)) (c_pc (c_conns s' ! i)) = [b]"
    have "prefix (chunks_of i (log @ [(i, b)])) (css ! i)"
      using shufflesD[OF conc_ok_shuffles[OF ok] less.prems(3)] b by simp
    then have "b = c" using less.prems(4)[symmetric] by simp
    moreover obtain fd buf eop where "c_pc (c_conns s' ! i) = TUnlock fd buf eop"
      using b by (auto simp: commit_def split: tpc.splits)
    ultimately show ?thesis using reach b by auto
  qed
qed

text \<open>Then the thread gives the mutex back.\<close>

lemma give_back:
  assumes "device_ready renv wenv" "fits d css" "list_all packet css"
    "creach libc renv wenv s0 log s" "conc_ok d False css log s" "i < length css"
    "c_pc (c_conns s ! i) = TUnlock fd buf eop"
  shows "\<exists>s'. creach libc renv wenv s0 log s' \<and> c_lock s' = None"
proof -
  have lk: "c_lock s = Some i" and n: "i < length (c_conns s)"
    using assms(5-7) by (auto simp: conc_ok_def holds_lock_def)
  have "\<not> waiting s i" by (simp add: waiting_def assms(7))
  then obtain s' where s': "cstep libc renv wenv s i = Some (Inr s')"
    using conc_step[OF assms(1-3) _ assms(5,6), of libc] assms(7) by auto
  have "c_lock s' = None" and new: "commit (c_pc (c_conns s ! i)) (c_pc (c_conns s' ! i)) = []"
    using s' assms(7) n lk by (auto simp: cstep_def Let_def unlock_mutex_def commit_def)
  then show ?thesis using creach.step[OF assms(4) s'] by auto
qed

lemma interleaving_happens:
  assumes "device_ready renv wenv" "refines k d" "short d" "fits d css" "list_all packet css" "shuffles css log"
  shows "\<exists>s. creach libc renv wenv (conc_start k css) log s \<and> c_lock s = None"
  using assms(6)
proof (induction log rule: rev_induct)
  case Nil
  then show ?case using creach.start[of libc renv wenv "conc_start k css"] by (force simp: conc_start_def)
next
  case (snoc p log)
  obtain i c where p: "p = (i, c)" by (rule prod.exhaust)
  have i: "i < length css" using snoc.prems p by (simp add: shuffles_def)
  have "prefix (chunks_of i (log @ [(i, c)])) (css ! i)" using shufflesD[OF snoc.prems i] p by simp
  then obtain rest where c: "chunks_of i log @ c # rest = css ! i" by (auto simp: prefix_def)
  have "shuffles css log" using snoc.prems by (auto simp: shuffles_def p split: if_splits intro: append_prefixD)
  then obtain s where s: "creach libc renv wenv (conc_start k css) log s" "c_lock s = None" using snoc.IH by blast
  note ok = reach_ok[OF assms(1,4,5) _ _ start_ok[OF assms(2,3,5)], of False libc, simplified]
  obtain s' fd buf eop where s': "creach libc renv wenv (conc_start k css) (log @ [(i, c)]) s'"
      "c_pc (c_conns s' ! i) = TUnlock fd buf eop"
    using store_next[OF assms(1,4,5) s(1) ok[OF s(1)] i c] s(2) by auto
  show ?case using give_back[OF assms(1,4,5) s'(1) ok[OF s'(1)] i s'(2)] p by simp
qed

text \<open>
  C6: the orders in which the chunks of several clients can reach the device are exactly the
  interleavings of beginnings of their packets: each one happens in some run.
\<close>

theorem interleavings_exact:
  assumes "device_ready renv wenv" "refines k d" "short d" "fits d css" "list_all packet css"
  shows "(\<exists>s. creach libc renv wenv (conc_start k css) log s) \<longleftrightarrow> shuffles css log"
  using interleaving_happens[OF assms] conc_ok_shuffles
    reach_ok[OF assms(1,4,5) _ _ start_ok[OF assms(2,3,5)], of False libc log] by blast

text \<open>
  C10: packets are not atomic. When one client's packet comes in two chunks, another client's packet
  can be stored between them: the device then keeps, as one command, the first chunk of the one
  client followed by the packet of the other.
\<close>

theorem packets_can_mix:
  assumes "device_ready renv wenv" "refines k d" "short d" "fits d [[x, y], [z]]" "packet [x, y]" "packet [z]"
  shows "\<exists>s. creach libc renv wenv (conc_start k [[x, y], [z]]) [(0, x), (1, z)] s \<and>
    refines (c_kern s) \<lparr>hist = keep_last 10 (hist d @ [pending d @ x @ z]), pending = [], psize = 0\<rparr>"
proof -
  have pk: "list_all packet [[x, y], [z]]" using assms(5,6) by simp
  have "shuffles [[x, y], [z]] [(0, x), (1, z)]"
    by (auto simp: shuffles_def chunks_of_def less_Suc_eq)
  then obtain s where s: "creach libc renv wenv (conc_start k [[x, y], [z]]) [(0, x), (1, z)] s"
    using interleaving_happens[OF assms(1-4) pk] by blast
  have "packet [x, z]" using assms(5,6) by simp
  then have "device_after d [(0, x), (1, z)] = packet_stored d [x, z]"
    using foldl_store_packet[of "[x, z]" d] by (simp add: device_after_def)
  then show ?thesis
    using s reach_ok[OF assms(1,4) pk _ s start_ok[OF assms(2,3) pk], of False] by (auto simp: conc_ok_def packet_stored_def)
qed

end
