(* ===== verification/Byte_Order.thy ===== *)
theory Byte_Order
  imports C_Prelude
begin

unbundle bit_operations_syntax

text \<open>
  Byte order: the byte swaps of \<open>bits/byteswap.h\<close>, the conversions of \<open>endian.h\<close> and
  \<open>netinet/in.h\<close> that the server uses on addresses, and the kernel's version of the same
  operations (\<open>linux/swab.h\<close>, \<open>linux/byteorder/little_endian.h\<close>). The byte order of the host is
  an argument.
\<close>

type_synonym u16 = "16 word"
type_synonym u64 = "64 word"

subsection \<open>bits/byteswap.h and bits/uintn-identity.h\<close>

text \<open>
  The compiler's \<open>__builtin_bswap\<close> functions are the swaps that the macros spell out; the inline
  functions are modelled by their portable branch.
\<close>

definition bswap_constant_16 :: "u16 \<Rightarrow> u16" where
  "bswap_constant_16 x = (drop_bit 8 x AND 0xff) OR push_bit 8 (x AND 0xff)"

definition bswap_16 :: "u16 \<Rightarrow> u16" where
  "bswap_16 bsx = bswap_constant_16 bsx"

definition bswap_constant_32 :: "u32 \<Rightarrow> u32" where
  "bswap_constant_32 x =
     drop_bit 24 (x AND 0xff000000) OR drop_bit 8 (x AND 0x00ff0000)
     OR push_bit 8 (x AND 0x0000ff00) OR push_bit 24 (x AND 0x000000ff)"

definition bswap_32 :: "u32 \<Rightarrow> u32" where
  "bswap_32 bsx = bswap_constant_32 bsx"

definition bswap_constant_64 :: "u64 \<Rightarrow> u64" where
  "bswap_constant_64 x =
     drop_bit 56 (x AND 0xff00000000000000)
     OR drop_bit 40 (x AND 0x00ff000000000000)
     OR drop_bit 24 (x AND 0x0000ff0000000000)
     OR drop_bit 8 (x AND 0x000000ff00000000)
     OR push_bit 8 (x AND 0x00000000ff000000)
     OR push_bit 24 (x AND 0x0000000000ff0000)
     OR push_bit 40 (x AND 0x000000000000ff00)
     OR push_bit 56 (x AND 0x00000000000000ff)"

definition bswap_64 :: "u64 \<Rightarrow> u64" where
  "bswap_64 bsx = bswap_constant_64 bsx"

definition uint16_identity :: "u16 \<Rightarrow> u16" where "uint16_identity x = x"
definition uint32_identity :: "u32 \<Rightarrow> u32" where "uint32_identity x = x"
definition uint64_identity :: "u64 \<Rightarrow> u64" where "uint64_identity x = x"

subsection \<open>Which bit goes where\<close>

lemma byte_masks_32:
  "(0xff000000 :: u32) = push_bit 24 (mask 8)" "(0x00ff0000 :: u32) = push_bit 16 (mask 8)"
  "(0x0000ff00 :: u32) = push_bit 8 (mask 8)" "(0x000000ff :: u32) = mask 8"
  by (simp_all add: mask_eq_exp_minus_1)

lemma byte_masks_16: "(0xff00 :: u16) = push_bit 8 (mask 8)" "(0xff :: u16) = mask 8"
  by (simp_all add: mask_eq_exp_minus_1)

lemma byte_masks_64:
  "(0xff00000000000000 :: u64) = push_bit 56 (mask 8)" "(0x00ff000000000000 :: u64) = push_bit 48 (mask 8)"
  "(0x0000ff0000000000 :: u64) = push_bit 40 (mask 8)" "(0x000000ff00000000 :: u64) = push_bit 32 (mask 8)"
  "(0x00000000ff000000 :: u64) = push_bit 24 (mask 8)" "(0x0000000000ff0000 :: u64) = push_bit 16 (mask 8)"
  "(0x000000000000ff00 :: u64) = push_bit 8 (mask 8)" "(0x00000000000000ff :: u64) = mask 8"
  by (simp_all add: mask_eq_exp_minus_1)

text \<open>Bit \<open>i\<close> of byte \<open>k\<close> comes from bit \<open>i\<close> of the byte at the mirrored place.\<close>

lemma bit_bswap_32:
  assumes "i < 8"
  shows "bit (bswap_32 x) i = bit x (24 + i)" "bit (bswap_32 x) (8 + i) = bit x (16 + i)"
    "bit (bswap_32 x) (16 + i) = bit x (8 + i)" "bit (bswap_32 x) (24 + i) = bit x i"
  using assms by (auto simp: bswap_32_def bswap_constant_32_def byte_masks_32 bit_simps)

lemma bit_bswap_16:
  assumes "i < 8"
  shows "bit (bswap_16 x) i = bit x (8 + i)" "bit (bswap_16 x) (8 + i) = bit x i"
  using assms by (auto simp: bswap_16_def bswap_constant_16_def byte_masks_16 bit_simps)

lemma bit_bswap_64:
  assumes "i < 8"
  shows "bit (bswap_64 x) i = bit x (56 + i)" "bit (bswap_64 x) (8 + i) = bit x (48 + i)"
    "bit (bswap_64 x) (16 + i) = bit x (40 + i)" "bit (bswap_64 x) (24 + i) = bit x (32 + i)"
    "bit (bswap_64 x) (32 + i) = bit x (24 + i)" "bit (bswap_64 x) (40 + i) = bit x (16 + i)"
    "bit (bswap_64 x) (48 + i) = bit x (8 + i)" "bit (bswap_64 x) (56 + i) = bit x i"
  using assms by (auto simp: bswap_64_def bswap_constant_64_def byte_masks_64 bit_simps)

text \<open>Words are equal when their bytes are.\<close>

lemma word16_byteI:
  assumes "\<And>i. i < 8 \<Longrightarrow> bit x i = bit y i \<and> bit x (8 + i) = bit y (8 + i)"
  shows "x = (y :: u16)"
proof (rule bit_word_eqI)
  fix n :: nat
  assume n: "n < LENGTH(16)"
  have "bit x (8 * (n div 8) + n mod 8) = bit y (8 * (n div 8) + n mod 8)"
  proof -
    have "n div 8 < 2" using n by (simp add: div_less_iff_less_mult)
    then consider "n div 8 = 0" | "n div 8 = 1" by linarith
    then show ?thesis by cases (use assms[of "n mod 8"] in simp_all)
  qed
  then show "bit x n = bit y n" by simp
qed

lemma word32_byteI:
  assumes "\<And>i. i < 8 \<Longrightarrow> bit x i = bit y i \<and> bit x (8 + i) = bit y (8 + i) \<and>
    bit x (16 + i) = bit y (16 + i) \<and> bit x (24 + i) = bit y (24 + i)"
  shows "x = (y :: u32)"
proof (rule bit_word_eqI)
  fix n :: nat
  assume n: "n < LENGTH(32)"
  have "bit x (8 * (n div 8) + n mod 8) = bit y (8 * (n div 8) + n mod 8)"
  proof -
    have "n div 8 < 4" using n by (simp add: div_less_iff_less_mult)
    then consider "n div 8 = 0" | "n div 8 = 1" | "n div 8 = 2" | "n div 8 = 3" by linarith
    then show ?thesis by cases (use assms[of "n mod 8"] in simp_all)
  qed
  then show "bit x n = bit y n" by simp
qed

lemma word64_byteI:
  assumes "\<And>i. i < 8 \<Longrightarrow> bit x i = bit y i \<and> bit x (8 + i) = bit y (8 + i) \<and>
    bit x (16 + i) = bit y (16 + i) \<and> bit x (24 + i) = bit y (24 + i) \<and> bit x (32 + i) = bit y (32 + i) \<and>
    bit x (40 + i) = bit y (40 + i) \<and> bit x (48 + i) = bit y (48 + i) \<and> bit x (56 + i) = bit y (56 + i)"
  shows "x = (y :: u64)"
proof (rule bit_word_eqI)
  fix n :: nat
  assume n: "n < LENGTH(64)"
  have "bit x (8 * (n div 8) + n mod 8) = bit y (8 * (n div 8) + n mod 8)"
  proof -
    have "n div 8 < 8" using n by (simp add: div_less_iff_less_mult)
    then consider "n div 8 = 0" | "n div 8 = 1" | "n div 8 = 2" | "n div 8 = 3"
      | "n div 8 = 4" | "n div 8 = 5" | "n div 8 = 6" | "n div 8 = 7" by linarith
    then show ?thesis by cases (use assms[of "n mod 8"] in simp_all)
  qed
  then show "bit x n = bit y n" by simp
qed

lemma bswap_involution [simp]:
  "bswap_16 (bswap_16 a) = a" "bswap_32 (bswap_32 b) = b" "bswap_64 (bswap_64 c) = c"
  by (rule word16_byteI, simp add: bit_bswap_16)
    (rule word32_byteI, simp add: bit_bswap_32, rule word64_byteI, simp add: bit_bswap_64)

subsection \<open>endian.h and netinet/in.h\<close>

datatype byte_order = LITTLE_ENDIAN | BIG_ENDIAN

definition htobe16 :: "byte_order \<Rightarrow> u16 \<Rightarrow> u16" where
  "htobe16 bo x = (case bo of LITTLE_ENDIAN \<Rightarrow> bswap_16 x | BIG_ENDIAN \<Rightarrow> uint16_identity x)"

definition htole16 :: "byte_order \<Rightarrow> u16 \<Rightarrow> u16" where
  "htole16 bo x = (case bo of LITTLE_ENDIAN \<Rightarrow> uint16_identity x | BIG_ENDIAN \<Rightarrow> bswap_16 x)"

definition be16toh :: "byte_order \<Rightarrow> u16 \<Rightarrow> u16" where
  "be16toh bo x = (case bo of LITTLE_ENDIAN \<Rightarrow> bswap_16 x | BIG_ENDIAN \<Rightarrow> uint16_identity x)"

definition le16toh :: "byte_order \<Rightarrow> u16 \<Rightarrow> u16" where
  "le16toh bo x = (case bo of LITTLE_ENDIAN \<Rightarrow> uint16_identity x | BIG_ENDIAN \<Rightarrow> bswap_16 x)"

definition htobe32 :: "byte_order \<Rightarrow> u32 \<Rightarrow> u32" where
  "htobe32 bo x = (case bo of LITTLE_ENDIAN \<Rightarrow> bswap_32 x | BIG_ENDIAN \<Rightarrow> uint32_identity x)"

definition htole32 :: "byte_order \<Rightarrow> u32 \<Rightarrow> u32" where
  "htole32 bo x = (case bo of LITTLE_ENDIAN \<Rightarrow> uint32_identity x | BIG_ENDIAN \<Rightarrow> bswap_32 x)"

definition be32toh :: "byte_order \<Rightarrow> u32 \<Rightarrow> u32" where
  "be32toh bo x = (case bo of LITTLE_ENDIAN \<Rightarrow> bswap_32 x | BIG_ENDIAN \<Rightarrow> uint32_identity x)"

definition le32toh :: "byte_order \<Rightarrow> u32 \<Rightarrow> u32" where
  "le32toh bo x = (case bo of LITTLE_ENDIAN \<Rightarrow> uint32_identity x | BIG_ENDIAN \<Rightarrow> bswap_32 x)"

definition htobe64 :: "byte_order \<Rightarrow> u64 \<Rightarrow> u64" where
  "htobe64 bo x = (case bo of LITTLE_ENDIAN \<Rightarrow> bswap_64 x | BIG_ENDIAN \<Rightarrow> uint64_identity x)"

definition htole64 :: "byte_order \<Rightarrow> u64 \<Rightarrow> u64" where
  "htole64 bo x = (case bo of LITTLE_ENDIAN \<Rightarrow> uint64_identity x | BIG_ENDIAN \<Rightarrow> bswap_64 x)"

definition be64toh :: "byte_order \<Rightarrow> u64 \<Rightarrow> u64" where
  "be64toh bo x = (case bo of LITTLE_ENDIAN \<Rightarrow> bswap_64 x | BIG_ENDIAN \<Rightarrow> uint64_identity x)"

definition le64toh :: "byte_order \<Rightarrow> u64 \<Rightarrow> u64" where
  "le64toh bo x = (case bo of LITTLE_ENDIAN \<Rightarrow> uint64_identity x | BIG_ENDIAN \<Rightarrow> bswap_64 x)"

definition ntohl :: "byte_order \<Rightarrow> u32 \<Rightarrow> u32" where
  "ntohl bo x = (case bo of BIG_ENDIAN \<Rightarrow> uint32_identity x | LITTLE_ENDIAN \<Rightarrow> bswap_32 x)"

definition ntohs :: "byte_order \<Rightarrow> u16 \<Rightarrow> u16" where
  "ntohs bo x = (case bo of BIG_ENDIAN \<Rightarrow> uint16_identity x | LITTLE_ENDIAN \<Rightarrow> bswap_16 x)"

definition htonl :: "byte_order \<Rightarrow> u32 \<Rightarrow> u32" where
  "htonl bo x = (case bo of BIG_ENDIAN \<Rightarrow> uint32_identity x | LITTLE_ENDIAN \<Rightarrow> bswap_32 x)"

definition htons :: "byte_order \<Rightarrow> u16 \<Rightarrow> u16" where
  "htons bo x = (case bo of BIG_ENDIAN \<Rightarrow> uint16_identity x | LITTLE_ENDIAN \<Rightarrow> bswap_16 x)"

lemmas endian_defs =
  htobe16_def htole16_def htobe32_def htole32_def htobe64_def htole64_def
  be16toh_def le16toh_def be32toh_def le32toh_def be64toh_def le64toh_def
  ntohl_def ntohs_def htonl_def htons_def
  uint16_identity_def uint32_identity_def uint64_identity_def

subsection \<open>linux/swab.h\<close>

definition constant_swab16 :: "u16 \<Rightarrow> u16" where
  "constant_swab16 x = push_bit 8 (x AND 0x00ff) OR drop_bit 8 (x AND 0xff00)"

definition constant_swab32 :: "u32 \<Rightarrow> u32" where
  "constant_swab32 x =
     push_bit 24 (x AND 0x000000ff) OR push_bit 8 (x AND 0x0000ff00)
     OR drop_bit 8 (x AND 0x00ff0000) OR drop_bit 24 (x AND 0xff000000)"

definition constant_swab64 :: "u64 \<Rightarrow> u64" where
  "constant_swab64 x =
     push_bit 56 (x AND 0x00000000000000ff) OR push_bit 40 (x AND 0x000000000000ff00)
     OR push_bit 24 (x AND 0x0000000000ff0000) OR push_bit 8 (x AND 0x00000000ff000000)
     OR drop_bit 8 (x AND 0x000000ff00000000) OR drop_bit 24 (x AND 0x0000ff0000000000)
     OR drop_bit 40 (x AND 0x00ff000000000000) OR drop_bit 56 (x AND 0xff00000000000000)"

definition constant_swahw32 :: "u32 \<Rightarrow> u32" where
  "constant_swahw32 x = push_bit 16 (x AND 0x0000ffff) OR drop_bit 16 (x AND 0xffff0000)"

definition constant_swahb32 :: "u32 \<Rightarrow> u32" where
  "constant_swahb32 x = push_bit 8 (x AND 0x00ff00ff) OR drop_bit 8 (x AND 0xff00ff00)"

text \<open>The inline functions, without an architecture's own version.\<close>

definition fswab16 :: "u16 \<Rightarrow> u16" where "fswab16 val = constant_swab16 val"
definition fswab32 :: "u32 \<Rightarrow> u32" where "fswab32 val = constant_swab32 val"
definition fswab64 :: "u64 \<Rightarrow> u64" where "fswab64 val = constant_swab64 val"

text \<open>The branch for \<open>__SWAB_64_THRU_32__\<close>, which swaps the two halves.\<close>

definition fswab64_thru_32 :: "u64 \<Rightarrow> u64" where
  "fswab64_thru_32 val =
     (let h = ucast (drop_bit 32 val) :: u32; l = ucast (val AND (push_bit 32 1 - 1)) :: u32
      in push_bit 32 (ucast (fswab32 l)) OR ucast (fswab32 h))"

definition fswahw32 :: "u32 \<Rightarrow> u32" where "fswahw32 val = constant_swahw32 val"
definition fswahb32 :: "u32 \<Rightarrow> u32" where "fswahb32 val = constant_swahb32 val"

text \<open>The macros choose by whether the argument is a compile-time constant, \<open>k\<close>.\<close>

definition swab16 :: "bool \<Rightarrow> u16 \<Rightarrow> u16" where
  "swab16 k x = (if k then constant_swab16 x else fswab16 x)"

definition swab32 :: "bool \<Rightarrow> u32 \<Rightarrow> u32" where
  "swab32 k x = (if k then constant_swab32 x else fswab32 x)"

definition swab64 :: "bool \<Rightarrow> u64 \<Rightarrow> u64" where
  "swab64 k x = (if k then constant_swab64 x else fswab64 x)"

definition swahw32 :: "bool \<Rightarrow> u32 \<Rightarrow> u32" where
  "swahw32 k x = (if k then constant_swahw32 x else fswahw32 x)"

definition swahb32 :: "bool \<Rightarrow> u32 \<Rightarrow> u32" where
  "swahb32 k x = (if k then constant_swahb32 x else fswahb32 x)"

text \<open>Through a pointer, and in place: \<open>m\<close> is the memory of values of that width.\<close>

definition swab16p :: "('p \<Rightarrow> u16) \<Rightarrow> 'p \<Rightarrow> u16" where "swab16p m p = swab16 False (m p)"
definition swab16s :: "('p \<Rightarrow> u16) \<Rightarrow> 'p \<Rightarrow> ('p \<Rightarrow> u16)" where "swab16s m p = m(p := swab16p m p)"

definition swab32p :: "('p \<Rightarrow> u32) \<Rightarrow> 'p \<Rightarrow> u32" where "swab32p m p = swab32 False (m p)"
definition swab32s :: "('p \<Rightarrow> u32) \<Rightarrow> 'p \<Rightarrow> ('p \<Rightarrow> u32)" where "swab32s m p = m(p := swab32p m p)"

definition swab64p :: "('p \<Rightarrow> u64) \<Rightarrow> 'p \<Rightarrow> u64" where "swab64p m p = swab64 False (m p)"
definition swab64s :: "('p \<Rightarrow> u64) \<Rightarrow> 'p \<Rightarrow> ('p \<Rightarrow> u64)" where "swab64s m p = m(p := swab64p m p)"

definition swahw32p :: "('p \<Rightarrow> u32) \<Rightarrow> 'p \<Rightarrow> u32" where "swahw32p m p = swahw32 False (m p)"
definition swahw32s :: "('p \<Rightarrow> u32) \<Rightarrow> 'p \<Rightarrow> ('p \<Rightarrow> u32)" where "swahw32s m p = m(p := swahw32p m p)"

definition swahb32p :: "('p \<Rightarrow> u32) \<Rightarrow> 'p \<Rightarrow> u32" where "swahb32p m p = swahb32 False (m p)"
definition swahb32s :: "('p \<Rightarrow> u32) \<Rightarrow> 'p \<Rightarrow> ('p \<Rightarrow> u32)" where "swahb32s m p = m(p := swahb32p m p)"

subsection \<open>linux/byteorder/little-endian.h\<close>

text \<open>
  The kernel's conversions on a little-endian machine: those to and from little-endian are casts,
  those to and from big-endian are swaps.
\<close>
definition constant_htonl :: "u32 \<Rightarrow> u32" where "constant_htonl x = constant_swab32 x"
definition constant_ntohl :: "u32 \<Rightarrow> u32" where "constant_ntohl x = constant_swab32 x"
definition constant_htons :: "u16 \<Rightarrow> u16" where "constant_htons x = constant_swab16 x"
definition constant_ntohs :: "u16 \<Rightarrow> u16" where "constant_ntohs x = constant_swab16 x"
definition constant_cpu_to_le64 :: "u64 \<Rightarrow> u64" where "constant_cpu_to_le64 x = x"
definition constant_le64_to_cpu :: "u64 \<Rightarrow> u64" where "constant_le64_to_cpu x = x"
definition constant_cpu_to_le32 :: "u32 \<Rightarrow> u32" where "constant_cpu_to_le32 x = x"
definition constant_le32_to_cpu :: "u32 \<Rightarrow> u32" where "constant_le32_to_cpu x = x"
definition constant_cpu_to_le16 :: "u16 \<Rightarrow> u16" where "constant_cpu_to_le16 x = x"
definition constant_le16_to_cpu :: "u16 \<Rightarrow> u16" where "constant_le16_to_cpu x = x"
definition constant_cpu_to_be64 :: "u64 \<Rightarrow> u64" where "constant_cpu_to_be64 x = constant_swab64 x"
definition constant_be64_to_cpu :: "u64 \<Rightarrow> u64" where "constant_be64_to_cpu x = constant_swab64 x"
definition constant_cpu_to_be32 :: "u32 \<Rightarrow> u32" where "constant_cpu_to_be32 x = constant_swab32 x"
definition constant_be32_to_cpu :: "u32 \<Rightarrow> u32" where "constant_be32_to_cpu x = constant_swab32 x"
definition constant_cpu_to_be16 :: "u16 \<Rightarrow> u16" where "constant_cpu_to_be16 x = constant_swab16 x"
definition constant_be16_to_cpu :: "u16 \<Rightarrow> u16" where "constant_be16_to_cpu x = constant_swab16 x"

definition cpu_to_le64 :: "u64 \<Rightarrow> u64" where "cpu_to_le64 x = x"
definition le64_to_cpu :: "u64 \<Rightarrow> u64" where "le64_to_cpu x = x"
definition cpu_to_le32 :: "u32 \<Rightarrow> u32" where "cpu_to_le32 x = x"
definition le32_to_cpu :: "u32 \<Rightarrow> u32" where "le32_to_cpu x = x"
definition cpu_to_le16 :: "u16 \<Rightarrow> u16" where "cpu_to_le16 x = x"
definition le16_to_cpu :: "u16 \<Rightarrow> u16" where "le16_to_cpu x = x"
definition cpu_to_be64 :: "bool \<Rightarrow> u64 \<Rightarrow> u64" where "cpu_to_be64 k x = swab64 k x"
definition be64_to_cpu :: "bool \<Rightarrow> u64 \<Rightarrow> u64" where "be64_to_cpu k x = swab64 k x"
definition cpu_to_be32 :: "bool \<Rightarrow> u32 \<Rightarrow> u32" where "cpu_to_be32 k x = swab32 k x"
definition be32_to_cpu :: "bool \<Rightarrow> u32 \<Rightarrow> u32" where "be32_to_cpu k x = swab32 k x"
definition cpu_to_be16 :: "bool \<Rightarrow> u16 \<Rightarrow> u16" where "cpu_to_be16 k x = swab16 k x"
definition be16_to_cpu :: "bool \<Rightarrow> u16 \<Rightarrow> u16" where "be16_to_cpu k x = swab16 k x"

definition cpu_to_le64p :: "('p \<Rightarrow> u64) \<Rightarrow> 'p \<Rightarrow> u64" where "cpu_to_le64p m p = m p"
definition le64_to_cpup :: "('p \<Rightarrow> u64) \<Rightarrow> 'p \<Rightarrow> u64" where "le64_to_cpup m p = m p"
definition cpu_to_le32p :: "('p \<Rightarrow> u32) \<Rightarrow> 'p \<Rightarrow> u32" where "cpu_to_le32p m p = m p"
definition le32_to_cpup :: "('p \<Rightarrow> u32) \<Rightarrow> 'p \<Rightarrow> u32" where "le32_to_cpup m p = m p"
definition cpu_to_le16p :: "('p \<Rightarrow> u16) \<Rightarrow> 'p \<Rightarrow> u16" where "cpu_to_le16p m p = m p"
definition le16_to_cpup :: "('p \<Rightarrow> u16) \<Rightarrow> 'p \<Rightarrow> u16" where "le16_to_cpup m p = m p"
definition cpu_to_be64p :: "('p \<Rightarrow> u64) \<Rightarrow> 'p \<Rightarrow> u64" where "cpu_to_be64p m p = swab64p m p"
definition be64_to_cpup :: "('p \<Rightarrow> u64) \<Rightarrow> 'p \<Rightarrow> u64" where "be64_to_cpup m p = swab64p m p"
definition cpu_to_be32p :: "('p \<Rightarrow> u32) \<Rightarrow> 'p \<Rightarrow> u32" where "cpu_to_be32p m p = swab32p m p"
definition be32_to_cpup :: "('p \<Rightarrow> u32) \<Rightarrow> 'p \<Rightarrow> u32" where "be32_to_cpup m p = swab32p m p"
definition cpu_to_be16p :: "('p \<Rightarrow> u16) \<Rightarrow> 'p \<Rightarrow> u16" where "cpu_to_be16p m p = swab16p m p"
definition be16_to_cpup :: "('p \<Rightarrow> u16) \<Rightarrow> 'p \<Rightarrow> u16" where "be16_to_cpup m p = swab16p m p"

definition cpu_to_le64s :: "('p \<Rightarrow> u64) \<Rightarrow> 'p \<Rightarrow> ('p \<Rightarrow> u64)" where "cpu_to_le64s m p = m"
definition le64_to_cpus :: "('p \<Rightarrow> u64) \<Rightarrow> 'p \<Rightarrow> ('p \<Rightarrow> u64)" where "le64_to_cpus m p = m"
definition cpu_to_le32s :: "('p \<Rightarrow> u32) \<Rightarrow> 'p \<Rightarrow> ('p \<Rightarrow> u32)" where "cpu_to_le32s m p = m"
definition le32_to_cpus :: "('p \<Rightarrow> u32) \<Rightarrow> 'p \<Rightarrow> ('p \<Rightarrow> u32)" where "le32_to_cpus m p = m"
definition cpu_to_le16s :: "('p \<Rightarrow> u16) \<Rightarrow> 'p \<Rightarrow> ('p \<Rightarrow> u16)" where "cpu_to_le16s m p = m"
definition le16_to_cpus :: "('p \<Rightarrow> u16) \<Rightarrow> 'p \<Rightarrow> ('p \<Rightarrow> u16)" where "le16_to_cpus m p = m"
definition cpu_to_be64s :: "('p \<Rightarrow> u64) \<Rightarrow> 'p \<Rightarrow> ('p \<Rightarrow> u64)" where "cpu_to_be64s m p = swab64s m p"
definition be64_to_cpus :: "('p \<Rightarrow> u64) \<Rightarrow> 'p \<Rightarrow> ('p \<Rightarrow> u64)" where "be64_to_cpus m p = swab64s m p"
definition cpu_to_be32s :: "('p \<Rightarrow> u32) \<Rightarrow> 'p \<Rightarrow> ('p \<Rightarrow> u32)" where "cpu_to_be32s m p = swab32s m p"
definition be32_to_cpus :: "('p \<Rightarrow> u32) \<Rightarrow> 'p \<Rightarrow> ('p \<Rightarrow> u32)" where "be32_to_cpus m p = swab32s m p"
definition cpu_to_be16s :: "('p \<Rightarrow> u16) \<Rightarrow> 'p \<Rightarrow> ('p \<Rightarrow> u16)" where "cpu_to_be16s m p = swab16s m p"
definition be16_to_cpus :: "('p \<Rightarrow> u16) \<Rightarrow> 'p \<Rightarrow> ('p \<Rightarrow> u16)" where "be16_to_cpus m p = swab16s m p"

lemmas kernel_order_defs =
  constant_cpu_to_le64_def constant_cpu_to_be64_def cpu_to_le64_def cpu_to_be64_def
  cpu_to_le64p_def cpu_to_be64p_def cpu_to_le64s_def cpu_to_be64s_def
  constant_le64_to_cpu_def constant_be64_to_cpu_def le64_to_cpu_def be64_to_cpu_def
  le64_to_cpup_def be64_to_cpup_def le64_to_cpus_def be64_to_cpus_def
  constant_cpu_to_le32_def constant_cpu_to_be32_def cpu_to_le32_def cpu_to_be32_def
  cpu_to_le32p_def cpu_to_be32p_def cpu_to_le32s_def cpu_to_be32s_def
  constant_le32_to_cpu_def constant_be32_to_cpu_def le32_to_cpu_def be32_to_cpu_def
  le32_to_cpup_def be32_to_cpup_def le32_to_cpus_def be32_to_cpus_def
  constant_cpu_to_le16_def constant_cpu_to_be16_def cpu_to_le16_def cpu_to_be16_def
  cpu_to_le16p_def cpu_to_be16p_def cpu_to_le16s_def cpu_to_be16s_def
  constant_le16_to_cpu_def constant_be16_to_cpu_def le16_to_cpu_def be16_to_cpu_def
  le16_to_cpup_def be16_to_cpup_def le16_to_cpus_def be16_to_cpus_def
  constant_htonl_def constant_ntohl_def constant_htons_def constant_ntohs_def

subsection \<open>Laws\<close>

lemma constant_swab_bswap:
  "constant_swab16 a = bswap_16 a" "constant_swab32 b = bswap_32 b" "constant_swab64 c = bswap_64 c"
proof -
  show "constant_swab16 a = bswap_16 a"
    by (rule word16_byteI) (auto simp: bit_bswap_16 constant_swab16_def byte_masks_16 bit_simps)
  show "constant_swab32 b = bswap_32 b" "constant_swab64 c = bswap_64 c"
    by (simp_all add: constant_swab32_def bswap_32_def bswap_constant_32_def
        constant_swab64_def bswap_64_def bswap_constant_64_def ac_simps)
qed

lemmas swab_defs = swab16_def swab32_def swab64_def fswab16_def fswab32_def fswab64_def
  swab16p_def swab32p_def swab64p_def swab16s_def swab32s_def swab64s_def constant_swab_bswap

text \<open>
  C31: the kernel's byte swaps compute the same function as those of the C library, whether the
  compiler folds them or not, also when a 64-bit value is swapped through its two halves.
\<close>

theorem swab_equals_bswap:
  "swab16 k a = bswap_16 a \<and> swab32 k b = bswap_32 b \<and> swab64 k c = bswap_64 c \<and>
   fswab64_thru_32 c = bswap_64 c"
proof -
  have m: "(push_bit 32 1 - 1 :: u64) = mask 32" by (simp add: mask_eq_exp_minus_1)
  have no: "\<not> bit (w :: u32) (32 + i)" "\<not> bit w (40 + i)" "\<not> bit w (48 + i)" "\<not> bit w (56 + i)" for w i
    by (auto dest!: bit_imp_le_length)
  have "fswab64_thru_32 c = bswap_64 c"
    unfolding fswab64_thru_32_def m
    by (rule word64_byteI) (auto simp: Let_def swab_defs bit_bswap_64 bit_bswap_32 bit_simps no)
  then show ?thesis by (simp add: swab_defs)
qed

text \<open>
  Converting to a byte order and back is the identity on every host, for all widths, and the
  in-place versions undo each other on the cell they are given and leave every other cell alone.
\<close>

theorem byte_order_roundtrip:
  "be16toh bo (htobe16 bo a) = a \<and> le16toh bo (htole16 bo a) = a \<and>
   be32toh bo (htobe32 bo b) = b \<and> le32toh bo (htole32 bo b) = b \<and>
   be64toh bo (htobe64 bo c) = c \<and> le64toh bo (htole64 bo c) = c \<and>
   ntohl bo (htonl bo b) = b \<and> ntohs bo (htons bo a) = a \<and>
   be16_to_cpus (cpu_to_be16s m16 p) p = m16 \<and> be32_to_cpus (cpu_to_be32s m32 p) p = m32 \<and>
   be64_to_cpus (cpu_to_be64s m64 p) p = m64"
  by (cases bo) (simp_all add: endian_defs kernel_order_defs swab_defs)

end
