(* ===== verification/Inet_Address.thy ===== *)
theory Inet_Address
  imports C_Strings Byte_Order
begin

text \<open>
  How the server prints the address of a client: \<open>main\<close> converts the address to host order,
  formats it with \<open>inet_ntop\<close> and lets \<open>flip_ip_addr\<close> (\<open>server/aesdsocket.c\<close>) reverse the four
  numbers. Also the address classes, the IPv6 predicates and the sizes of source filters of
  \<open>netinet/in.h\<close>.
\<close>

definition INET_ADDRSTRLEN :: nat where "INET_ADDRSTRLEN = 16"

subsection \<open>flip-ip-addr\<close>

text \<open>
  The token loop. \<open>ip\<close> is the caller's buffer, \<open>token\<close> the offset of the current token in it, \<open>save\<close>
  the position \<open>strtok\<close> keeps, \<open>temp_values\<close> the four rows of three bytes. Copying past a row, or
  into a fifth row, leaves the array.
\<close>

function flip_loop ::
    "string \<Rightarrow> nat option \<Rightarrow> nat \<Rightarrow> string list \<Rightarrow> nat \<Rightarrow> (string \<times> string list) res" where
  "flip_loop ip token save temp_values cnt =
     (case token of
        None \<Rightarrow> Inr (ip, temp_values)
      | Some t \<Rightarrow>
          if 4 < cnt \<or> length temp_values < cnt \<or> cnt = 0 then Inl OutOfBounds
          else
            res_bind (c_strcpy (temp_values ! (cnt - 1)) 0 (drop t ip)) (\<lambda>row.
            res_bind (c_strtok ''.'' ip save) (\<lambda>(ip, token, save).
            flip_loop ip token save (temp_values[cnt - 1 := row]) (cnt + 1))))"
  by pat_completeness auto
termination by (relation "measure (\<lambda>(_, _, _, _, cnt). 5 - cnt)") auto

text \<open>
  The whole function; the two local arrays start with whatever was on the stack.
\<close>

definition flip_ip_addr :: "string list \<Rightarrow> string \<Rightarrow> string \<Rightarrow> string res" where
  "flip_ip_addr temp_values modified_ip_addr ip_addr =
     res_bind (c_strtok ''.'' ip_addr 0) (\<lambda>(ip_addr, token, save).
     res_bind (flip_loop ip_addr token save temp_values 1) (\<lambda>(ip_addr, temp_values).
     res_bind (c_string (temp_values ! 3)) (\<lambda>t3.
     res_bind (c_string (temp_values ! 2)) (\<lambda>t2.
     res_bind (c_string (temp_values ! 1)) (\<lambda>t1.
     res_bind (c_string (temp_values ! 0)) (\<lambda>t0.
     res_bind (mem_write modified_ip_addr 0 (t3 @ ''.'' @ t2 @ ''.'' @ t1 @ ''.'' @ t0 @ [NUL]))
       (\<lambda>modified_ip_addr. c_strcpy ip_addr 0 modified_ip_addr)))))))"

subsection \<open>One round of the loop\<close>

declare flip_loop.simps [simp del]

lemma flip_loop_None [simp]: "flip_loop ip None save temp cnt = Inr (ip, temp)"
  by (subst flip_loop.simps) simp

lemma row_copy:
  assumes "NUL \<notin> set s" "length row = 3"
  shows "c_strcpy row 0 (s @ NUL # r) =
    (if length s \<le> 2 then Inr (s @ NUL # drop (length s + 1) row) else Inl OutOfBounds)"
  using assms by (simp add: c_strcpy_def mem_write_def)

lemma flip_round:
  assumes s: "c_token ''.'' s" and rows: "length temp = 4" "\<forall>row\<in>set temp. length row = 3"
    and cnt: "cnt = i + 1" "cnt' = i + 2" "i < 4" and tok: "c_strtok ''.'' (p @ s @ NUL # r) save = Inr (ip', t', save')"
  shows "flip_loop (p @ s @ NUL # r) (Some (length p)) save temp cnt =
    (if length s \<le> 2
     then flip_loop ip' t' save' (temp[i := s @ NUL # drop (length s + 1) (temp ! i)]) cnt'
     else Inl OutOfBounds)"
proof -
  have "length (temp ! i) = 3" using rows cnt by simp
  from row_copy[OF _ this, of s r] show ?thesis
    using s cnt rows(1) tok by (subst flip_loop.simps) (simp add: c_token_def)
qed

lemma rows_kept:
  assumes "length temp = 4" "\<forall>row\<in>set temp. length row = 3" "length s \<le> 2"
  shows "length (temp[i := s @ NUL # drop (length s + 1) (temp ! i)]) = 4"
    "\<forall>row\<in>set (temp[i := s @ NUL # drop (length s + 1) (temp ! i)]). length row = 3"
proof -
  show "length (temp[i := s @ NUL # drop (length s + 1) (temp ! i)]) = 4" using assms(1) by simp
  show "\<forall>row\<in>set (temp[i := s @ NUL # drop (length s + 1) (temp ! i)]). length row = 3"
  proof (cases "i < length temp")
    case True
    then have "length (temp ! i) = 3" using assms(2) by simp
    then have "length (s @ NUL # drop (length s + 1) (temp ! i)) = 3" using assms(3) by simp
    then show ?thesis using assms(2) set_update_subset_insert by fastforce
  next
    case False
    then show ?thesis using assms(2) by (simp add: list_update_beyond)
  qed
qed

definition dotted :: "string \<Rightarrow> string \<Rightarrow> string \<Rightarrow> string \<Rightarrow> string" where
  "dotted a b c d = a @ ''.'' @ b @ ''.'' @ c @ ''.'' @ d"

text \<open>
  The loop on a dotted string with four parts fills the rows with them, unless one of them does not
  fit its row.
\<close>

lemma flip_loop_dotted:
  fixes r :: string
  assumes t: "c_token ''.'' a" "c_token ''.'' b" "c_token ''.'' c" "c_token ''.'' d"
    and rows: "length temp = 4" "\<forall>row\<in>set temp. length row = 3"
  defines "ip1 \<equiv> a @ NUL # b @ CHR ''.'' # c @ CHR ''.'' # d @ NUL # r"
    and "ip4 \<equiv> a @ NUL # b @ NUL # c @ NUL # d @ NUL # r"
  shows "length a \<le> 2 \<and> length b \<le> 2 \<and> length c \<le> 2 \<and> length d \<le> 2 \<Longrightarrow>
      \<exists>ra rb rc rd. flip_loop ip1 (Some 0) (length a + 1) temp 1 =
        Inr (ip4, [a @ NUL # ra, b @ NUL # rb, c @ NUL # rc, d @ NUL # rd])"
    and "\<not> (length a \<le> 2 \<and> length b \<le> 2 \<and> length c \<le> 2 \<and> length d \<le> 2) \<Longrightarrow>
      flip_loop ip1 (Some 0) (length a + 1) temp 1 = Inl OutOfBounds"
proof -
  let ?u = "\<lambda>temp i s. temp[i := s @ NUL # drop (length s + 1) (temp ! i)]"
  define p1 p2 p3 where "p1 = a @ [NUL]" and "p2 = p1 @ b @ [NUL]" and "p3 = p2 @ c @ [NUL]"
  define ip2 ip3 where "ip2 = p1 @ b @ NUL # c @ CHR ''.'' # d @ NUL # r"
    and "ip3 = p2 @ c @ NUL # d @ NUL # r"
  have tok: "c_strtok ''.'' ip1 (length a + 1) = Inr (ip2, Some (length p1), length p1 + length b + 1)"
    "c_strtok ''.'' ip2 (length p1 + length b + 1) = Inr (ip3, Some (length p2), length p2 + length c + 1)"
    "c_strtok ''.'' ip3 (length p2 + length c + 1) = Inr (ip4, Some (length p3), length p3 + length d)"
    "c_strtok ''.'' ip4 (length p3 + length d) = Inr (ip4, None, length p3 + length d)"
    using strtok_delim[OF t(2), of "CHR ''.''" p1] strtok_delim[OF t(3), of "CHR ''.''" p2]
      strtok_last[OF t(4), of p3 r] strtok_end[of "''.''" "p3 @ d" r]
    by (simp_all add: ip1_def ip2_def ip3_def ip4_def p1_def p2_def p3_def add.assoc)
  define t1 t2 t3 t4 where "t1 = ?u temp 0 a" and "t2 = ?u t1 1 b" and "t3 = ?u t2 2 c" and "t4 = ?u t3 3 d"
  have r1: "flip_loop ip1 (Some 0) (length a + 1) temp 1 =
      (if length a \<le> 2 then flip_loop ip2 (Some (length p1)) (length p1 + length b + 1) t1 2 else Inl OutOfBounds)"
    using flip_round[OF t(1) rows, of 1 0 2 "[]"] tok(1) by (simp add: ip1_def t1_def)
  have r2: "flip_loop ip2 (Some (length p1)) (length p1 + length b + 1) t1 2 =
      (if length b \<le> 2 then flip_loop ip3 (Some (length p2)) (length p2 + length c + 1) t2 3 else Inl OutOfBounds)"
    if "length a \<le> 2"
    using flip_round[OF t(2) rows_kept[OF rows that, of 0], of 2 1 3 p1] tok(2)
    by (simp add: ip2_def t1_def t2_def)
  have k1: "length t1 = 4" "\<forall>row\<in>set t1. length row = 3" if "length a \<le> 2"
    unfolding t1_def by (rule rows_kept[OF rows that])+
  have k2: "length t2 = 4" "\<forall>row\<in>set t2. length row = 3" if "length a \<le> 2" "length b \<le> 2"
    unfolding t2_def by (rule rows_kept[OF k1[OF that(1)] that(2)])+
  have k3: "length t3 = 4" "\<forall>row\<in>set t3. length row = 3" if "length a \<le> 2" "length b \<le> 2" "length c \<le> 2"
    unfolding t3_def by (rule rows_kept[OF k2[OF that(1,2)] that(3)])+
  have r3: "flip_loop ip3 (Some (length p2)) (length p2 + length c + 1) t2 3 =
      (if length c \<le> 2 then flip_loop ip4 (Some (length p3)) (length p3 + length d) t3 4 else Inl OutOfBounds)"
    if "length a \<le> 2" "length b \<le> 2"
    using flip_round[OF t(3) k2[OF that], of 3 2 4 p2] tok(3) by (simp add: ip3_def t3_def)
  have r4: "flip_loop ip4 (Some (length p3)) (length p3 + length d) t3 4 =
      (if length d \<le> 2 then Inr (ip4, t4) else Inl OutOfBounds)"
    if "length a \<le> 2" "length b \<le> 2" "length c \<le> 2"
    using flip_round[OF t(4) k3[OF that], of 4 3 5 p3 r] tok(4)
    by (simp add: ip4_def p1_def p2_def p3_def t4_def)
  obtain x0 x1 x2 x3 where temp: "temp = [x0, x1, x2, x3]"
    using rows(1) by (auto simp: length_Suc_conv numeral_eq_Suc)
  then have t4: "t4 = [a @ NUL # drop (length a + 1) x0, b @ NUL # drop (length b + 1) x1,
      c @ NUL # drop (length c + 1) x2, d @ NUL # drop (length d + 1) x3]"
    by (simp add: t4_def t3_def t2_def t1_def numeral_2_eq_2 numeral_3_eq_3)
  show "\<exists>ra rb rc rd. flip_loop ip1 (Some 0) (length a + 1) temp 1 =
        Inr (ip4, [a @ NUL # ra, b @ NUL # rb, c @ NUL # rc, d @ NUL # rd])"
    if "length a \<le> 2 \<and> length b \<le> 2 \<and> length c \<le> 2 \<and> length d \<le> 2"
    using that r1 r2 r3 r4 t4 by simp
  show "flip_loop ip1 (Some 0) (length a + 1) temp 1 = Inl OutOfBounds"
    if "\<not> (length a \<le> 2 \<and> length b \<le> 2 \<and> length c \<le> 2 \<and> length d \<le> 2)"
    using that r1 r2 r3 r4 by (auto simp del: One_nat_def)
qed

text \<open>
  On an address of four parts, \<open>flip_ip_addr\<close> writes the parts in reverse order into the same
  buffer when each has at most two characters; a part of three characters does not fit its row of
  three bytes, and the copy overruns it.
\<close>

lemma flip_ip_addr_reverses:
  assumes t: "c_token ''.'' a" "c_token ''.'' b" "c_token ''.'' c" "c_token ''.'' d"
    and rows: "length temp_values = 4" "\<forall>row\<in>set temp_values. length row = 3"
    and "length modified = INET_ADDRSTRLEN"
  shows "flip_ip_addr temp_values modified (dotted a b c d @ NUL # r) =
    (if length a \<le> 2 \<and> length b \<le> 2 \<and> length c \<le> 2 \<and> length d \<le> 2
     then Inr (dotted d c b a @ NUL # r) else Inl OutOfBounds)"
proof -
  let ?ip1 = "a @ NUL # b @ CHR ''.'' # c @ CHR ''.'' # d @ NUL # r"
    and ?ip4 = "a @ NUL # b @ NUL # c @ NUL # d @ NUL # r"
  have tok: "c_strtok ''.'' (dotted a b c d @ NUL # r) 0 = Inr (?ip1, Some 0, length a + 1)"
    using strtok_delim[OF t(1), of "CHR ''.''" "[]"] by (simp add: dotted_def)
  note loop = flip_loop_dotted[OF t rows, of r]
  show ?thesis
  proof (cases "length a \<le> 2 \<and> length b \<le> 2 \<and> length c \<le> 2 \<and> length d \<le> 2")
    case False
    then show ?thesis using tok loop(2)[OF False] by (simp add: flip_ip_addr_def)
  next
    case True
    obtain ra rb rc rd where l: "flip_loop ?ip1 (Some 0) (length a + 1) temp_values 1 =
        Inr (?ip4, [a @ NUL # ra, b @ NUL # rb, c @ NUL # rc, d @ NUL # rd])"
      using loop(1)[OF True] by blast
    have n: "NUL \<notin> set a" "NUL \<notin> set b" "NUL \<notin> set c" "NUL \<notin> set d" using t by (auto simp: c_token_def)
    have len: "length (dotted d c b a) + 1 \<le> INET_ADDRSTRLEN"
      using True by (simp add: dotted_def INET_ADDRSTRLEN_def)
    then have m: "mem_write modified 0 (dotted d c b a @ [NUL]) =
        Inr (dotted d c b a @ NUL # drop (length (dotted d c b a) + 1) modified)"
      using assms(7) by (simp add: mem_write_def)
    have nd: "NUL \<notin> set (dotted d c b a)" using n by (auto simp: dotted_def)
    have "mem_write (x @ r) 0 bs = Inr (bs @ r)" if "length bs = length x" for x bs
      using that by (simp add: mem_write_def)
    from this[of "dotted d c b a @ [NUL]" "a @ [NUL] @ b @ [NUL] @ c @ [NUL] @ d @ [NUL]"]
    have "c_strcpy ?ip4 0 (dotted d c b a @ NUL # x) = Inr (dotted d c b a @ NUL # r)" for x
      using nd by (simp add: c_strcpy_def) (simp add: dotted_def)
    then show ?thesis
      using True tok l n m
      by (simp add: flip_ip_addr_def numeral_2_eq_2 numeral_3_eq_3) (simp add: dotted_def)
  qed
qed

subsection \<open>The address of a client\<close>

text \<open>Decimal numbers as \<open>printf\<close> and \<open>inet_ntop\<close> write them.\<close>

fun dec :: "nat \<Rightarrow> string" where
  "dec n = (if n < 10 then [char_of (48 + n)] else dec (n div 10) @ [char_of (48 + n mod 10)])"

declare dec.simps [simp del]

text \<open>The four bytes of an address in memory, and \<open>inet_ntop\<close> for \<open>AF_INET\<close>, which prints them.\<close>

definition addr_bytes :: "byte_order \<Rightarrow> u32 \<Rightarrow> u8 list" where
  "addr_bytes bo x =
     (let bs = [ucast x, ucast (drop_bit 8 x), ucast (drop_bit 16 x), ucast (drop_bit 24 x)]
      in case bo of LITTLE_ENDIAN \<Rightarrow> bs | BIG_ENDIAN \<Rightarrow> rev bs)"

definition inet_ntop :: "byte_order \<Rightarrow> u32 \<Rightarrow> string" where
  "inet_ntop bo x =
     (let bs = map (dec \<circ> unat) (addr_bytes bo x) in dotted (bs ! 0) (bs ! 1) (bs ! 2) (bs ! 3))"

text \<open>
  What \<open>main\<close> does with the address \<open>s_addr\<close> of an accepted client: the two log strings
  \<open>client_ip\<close> and \<open>client_ip_hostview\<close>, in the two buffers of \<open>INET_ADDRSTRLEN\<close> bytes.
\<close>

definition log_client ::
    "byte_order \<Rightarrow> string list \<Rightarrow> string \<Rightarrow> string \<Rightarrow> string \<Rightarrow> u32 \<Rightarrow> (string \<times> string) res" where
  "log_client bo temp_values modified client_ip client_ip_hostview s_addr =
     (let connected_ip = ntohl bo s_addr in
      res_bind (mem_write client_ip 0 (inet_ntop bo connected_ip @ [NUL])) (\<lambda>client_ip.
      res_bind (c_string client_ip) (\<lambda>network_format.
      res_bind (c_strcpy client_ip_hostview 0 client_ip) (\<lambda>client_ip_hostview.
      res_bind (flip_ip_addr temp_values modified client_ip_hostview) (\<lambda>client_ip_hostview.
      res_bind (c_string client_ip_hostview) (\<lambda>host_format.
      Inr (network_format, host_format)))))))"

lemma dec_digits: "c \<in> set (dec n) \<Longrightarrow> 48 \<le> (of_char c :: nat) \<and> (of_char c :: nat) \<le> 57"
proof (induction n rule: dec.induct)
  case (1 n)
  show ?case
  proof (cases "n < 10")
    case True
    then show ?thesis using "1.prems" by (subst (asm) dec.simps) auto
  next
    case False
    then have "c \<in> set (dec (n div 10)) \<or> c = char_of (48 + n mod 10)"
      using "1.prems" by (subst (asm) dec.simps) auto
    moreover have "48 + n mod 10 < 256" by (rule less_trans[of _ 58]) simp_all
    ultimately show ?thesis using "1.IH" False by auto
  qed
qed

lemma dec_token: "c_token ''.'' (dec n)"
proof -
  have "dec n \<noteq> []" by (subst dec.simps) simp
  moreover have "NUL \<notin> set (dec n)" "CHR ''.'' \<notin> set (dec n)"
    using dec_digits[of NUL n] dec_digits[of "CHR ''.''" n] by auto
  ultimately show ?thesis by (simp add: c_token_def)
qed

lemma length_dec: "n < 256 \<Longrightarrow> length (dec n) \<le> 2 \<longleftrightarrow> n < 100" "n < 256 \<Longrightarrow> length (dec n) \<le> 3"
proof -
  have "length (dec n) = (if n < 10 then 1 else if n < 100 then 2 else 3)" if "n < 256"
  proof -
    consider "n < 10" | "10 \<le> n" "n < 100" | "100 \<le> n" by linarith
    then show ?thesis
    proof cases
      case 1
      then show ?thesis by (subst dec.simps) simp
    next
      case 2
      then have "n div 10 < 10" by simp
      then show ?thesis using 2 by (subst dec.simps, subst dec.simps) simp
    next
      case 3
      then have "\<not> n div 10 < 10" "n div 10 div 10 < 10" using that by simp_all
      then show ?thesis using 3 by (subst dec.simps, subst dec.simps, subst dec.simps) simp
    qed
  qed
  then show "n < 256 \<Longrightarrow> length (dec n) \<le> 2 \<longleftrightarrow> n < 100" "n < 256 \<Longrightarrow> length (dec n) \<le> 3" by simp_all
qed

lemma addr_bytes_swap: "addr_bytes LITTLE_ENDIAN (bswap_32 x) = rev (addr_bytes LITTLE_ENDIAN x)"
proof -
  have "ucast (bswap_32 x) = (ucast (drop_bit 24 x) :: u8)"
    "ucast (drop_bit 8 (bswap_32 x)) = (ucast (drop_bit 16 x) :: u8)"
    "ucast (drop_bit 16 (bswap_32 x)) = (ucast (drop_bit 8 x) :: u8)"
    "ucast (drop_bit 24 (bswap_32 x)) = (ucast x :: u8)"
    by (rule bit_word_eqI; simp add: bit_simps bit_bswap_32)+
  then show ?thesis by (simp add: addr_bytes_def)
qed

lemma log_client_line:
  assumes "length temp_values = 4" "\<forall>row\<in>set temp_values. length row = 3"
    "length modified = INET_ADDRSTRLEN" "length client_ip = INET_ADDRSTRLEN" "length hostview = INET_ADDRSTRLEN"
  shows "log_client LITTLE_ENDIAN temp_values modified client_ip hostview s_addr =
    (if list_all (\<lambda>b. unat b < 100) (addr_bytes LITTLE_ENDIAN s_addr)
     then Inr (inet_ntop LITTLE_ENDIAN (bswap_32 s_addr), inet_ntop LITTLE_ENDIAN s_addr)
     else Inl OutOfBounds)"
proof -
  obtain b0 b1 b2 b3 where b: "addr_bytes LITTLE_ENDIAN s_addr = [b0, b1, b2, b3]"
    by (simp add: addr_bytes_def)
  let ?d = "\<lambda>b. dec (unat (b :: u8))"
  have ntop: "inet_ntop LITTLE_ENDIAN s_addr = dotted (?d b0) (?d b1) (?d b2) (?d b3)"
    "inet_ntop LITTLE_ENDIAN (bswap_32 s_addr) = dotted (?d b3) (?d b2) (?d b1) (?d b0)"
    by (simp_all add: inet_ntop_def b addr_bytes_swap numeral_2_eq_2 numeral_3_eq_3)
  let ?s = "dotted (?d b3) (?d b2) (?d b1) (?d b0)"
  have lt: "unat (x :: u8) < 256" for x using unsigned_less[of x] by simp
  have len: "length ?s + 1 \<le> INET_ADDRSTRLEN"
    using length_dec(2)[OF lt[of b0]] length_dec(2)[OF lt[of b1]] length_dec(2)[OF lt[of b2]]
      length_dec(2)[OF lt[of b3]] by (simp add: dotted_def INET_ADDRSTRLEN_def)
  have no: "NUL \<notin> set (dotted (dec w) (dec x) (dec y) (dec z))" for w x y z
    using dec_token by (auto simp: dotted_def c_token_def)
  have wr: "mem_write buf 0 (?s @ [NUL]) = Inr (?s @ NUL # drop (length ?s + 1) buf)"
    if "length buf = INET_ADDRSTRLEN" for buf
    using len that by (simp add: mem_write_def)
  have "log_client LITTLE_ENDIAN temp_values modified client_ip hostview s_addr =
      res_bind (flip_ip_addr temp_values modified (?s @ NUL # drop (length ?s + 1) hostview))
        (\<lambda>h. res_bind (c_string h) (\<lambda>host_format. Inr (?s, host_format)))"
    using no wr[OF assms(4)] wr[OF assms(5)]
    by (simp add: log_client_def ntohl_def ntop Let_def c_strcpy_def)
  also have "\<dots> = (if unat b0 < 100 \<and> unat b1 < 100 \<and> unat b2 < 100 \<and> unat b3 < 100
      then Inr (?s, dotted (?d b0) (?d b1) (?d b2) (?d b3)) else Inl OutOfBounds)"
    using flip_ip_addr_reverses[OF dec_token dec_token dec_token dec_token assms(1-3)] no
    by (simp add: length_dec(1)[OF lt] conj_ac)
  finally show ?thesis by (simp add: b ntop)
qed

text \<open>
  On a little-endian host the second log line shows the client's address as \<open>inet_ntop\<close> would
  print it, and the first one the same with the numbers reversed, exactly when all four numbers
  are below 100; any larger number overruns a row of \<open>flip_ip_addr\<close>.
\<close>

theorem log_client_little_endian:
  assumes "length temp_values = 4" "\<forall>row\<in>set temp_values. length row = 3"
    "length modified = INET_ADDRSTRLEN" "length client_ip = INET_ADDRSTRLEN" "length hostview = INET_ADDRSTRLEN"
  shows "log_client LITTLE_ENDIAN temp_values modified client_ip hostview s_addr =
    (if list_all (\<lambda>b. unat b < 100) (addr_bytes LITTLE_ENDIAN s_addr)
     then Inr (inet_ntop LITTLE_ENDIAN (bswap_32 s_addr), inet_ntop LITTLE_ENDIAN s_addr)
     else Inl OutOfBounds)"
  by (rule log_client_line[OF assms])

subsection \<open>Address classes of netinet/in.h\<close>

definition IN_CLASSA :: "u32 \<Rightarrow> bool" where "IN_CLASSA a \<longleftrightarrow> a AND 0x80000000 = 0"
definition IN_CLASSA_NET :: u32 where "IN_CLASSA_NET = 0xff000000"
definition IN_CLASSA_NSHIFT :: nat where "IN_CLASSA_NSHIFT = 24"
definition IN_CLASSA_HOST :: u32 where "IN_CLASSA_HOST = 0xffffffff AND NOT IN_CLASSA_NET"
definition IN_CLASSA_MAX :: nat where "IN_CLASSA_MAX = 128"

definition IN_CLASSB :: "u32 \<Rightarrow> bool" where "IN_CLASSB a \<longleftrightarrow> a AND 0xc0000000 = 0x80000000"
definition IN_CLASSB_NET :: u32 where "IN_CLASSB_NET = 0xffff0000"
definition IN_CLASSB_NSHIFT :: nat where "IN_CLASSB_NSHIFT = 16"
definition IN_CLASSB_HOST :: u32 where "IN_CLASSB_HOST = 0xffffffff AND NOT IN_CLASSB_NET"
definition IN_CLASSB_MAX :: nat where "IN_CLASSB_MAX = 65536"

definition IN_CLASSC :: "u32 \<Rightarrow> bool" where "IN_CLASSC a \<longleftrightarrow> a AND 0xe0000000 = 0xc0000000"
definition IN_CLASSC_NET :: u32 where "IN_CLASSC_NET = 0xffffff00"
definition IN_CLASSC_NSHIFT :: nat where "IN_CLASSC_NSHIFT = 8"
definition IN_CLASSC_HOST :: u32 where "IN_CLASSC_HOST = 0xffffffff AND NOT IN_CLASSC_NET"

definition IN_CLASSD :: "u32 \<Rightarrow> bool" where "IN_CLASSD a \<longleftrightarrow> a AND 0xf0000000 = 0xe0000000"
definition IN_MULTICAST :: "u32 \<Rightarrow> bool" where "IN_MULTICAST a = IN_CLASSD a"
definition IN_EXPERIMENTAL :: "u32 \<Rightarrow> bool" where "IN_EXPERIMENTAL a \<longleftrightarrow> a AND 0xe0000000 = 0xe0000000"
definition IN_BADCLASS :: "u32 \<Rightarrow> bool" where "IN_BADCLASS a \<longleftrightarrow> a AND 0xf0000000 = 0xf0000000"

definition INADDR_ANY :: u32 where "INADDR_ANY = 0x00000000"
definition INADDR_BROADCAST :: u32 where "INADDR_BROADCAST = 0xffffffff"
definition INADDR_NONE :: u32 where "INADDR_NONE = 0xffffffff"
definition INADDR_DUMMY :: u32 where "INADDR_DUMMY = 0xc0000008"
definition IN_LOOPBACKNET :: u32 where "IN_LOOPBACKNET = 127"
definition INADDR_LOOPBACK :: u32 where "INADDR_LOOPBACK = 0x7f000001"
definition INADDR_UNSPEC_GROUP :: u32 where "INADDR_UNSPEC_GROUP = 0xe0000000"
definition INADDR_ALLHOSTS_GROUP :: u32 where "INADDR_ALLHOSTS_GROUP = 0xe0000001"
definition INADDR_ALLRTRS_GROUP :: u32 where "INADDR_ALLRTRS_GROUP = 0xe0000002"
definition INADDR_ALLSNOOPERS_GROUP :: u32 where "INADDR_ALLSNOOPERS_GROUP = 0xe000006a"
definition INADDR_MAX_LOCAL_GROUP :: u32 where "INADDR_MAX_LOCAL_GROUP = 0xe00000ff"

lemmas in_class_defs = IN_CLASSA_def IN_CLASSB_def IN_CLASSC_def IN_CLASSD_def IN_MULTICAST_def
  IN_EXPERIMENTAL_def IN_BADCLASS_def

text \<open>A class tests the leading bits of the address.\<close>

lemma and_bit: "a AND push_bit n 1 = (if bit a n then push_bit n 1 else 0)" for a :: u32
  by (rule bit_word_eqI) (auto simp: bit_simps)

lemma leading_bits:
  fixes a :: u32
  shows "IN_CLASSA a \<longleftrightarrow> \<not> bit a 31"
    "IN_CLASSB a \<longleftrightarrow> bit a 31 \<and> \<not> bit a 30"
    "IN_CLASSC a \<longleftrightarrow> bit a 31 \<and> bit a 30 \<and> \<not> bit a 29"
    "IN_CLASSD a \<longleftrightarrow> bit a 31 \<and> bit a 30 \<and> bit a 29 \<and> \<not> bit a 28"
    "IN_EXPERIMENTAL a \<longleftrightarrow> bit a 31 \<and> bit a 30 \<and> bit a 29"
    "IN_BADCLASS a \<longleftrightarrow> bit a 31 \<and> bit a 30 \<and> bit a 29 \<and> bit a 28"
proof -
  let ?b = "\<lambda>n. push_bit n 1 :: u32"
  have m: "(0x80000000 :: u32) = ?b 31" "(0xc0000000 :: u32) = ?b 31 OR ?b 30"
    "(0xe0000000 :: u32) = ?b 31 OR ?b 30 OR ?b 29" "(0xf0000000 :: u32) = ?b 31 OR ?b 30 OR ?b 29 OR ?b 28"
    by simp_all
  have a: "a AND 0x80000000 = (if bit a 31 then ?b 31 else 0)"
    "a AND 0xc0000000 = (if bit a 31 then ?b 31 else 0) OR (if bit a 30 then ?b 30 else 0)"
    "a AND 0xe0000000 = (if bit a 31 then ?b 31 else 0) OR (if bit a 30 then ?b 30 else 0) OR (if bit a 29 then ?b 29 else 0)"
    "a AND 0xf0000000 = (if bit a 31 then ?b 31 else 0) OR (if bit a 30 then ?b 30 else 0) OR (if bit a 29 then ?b 29 else 0)
       OR (if bit a 28 then ?b 28 else 0)"
    unfolding m by (simp_all only: bit.conj_disj_distrib and_bit)
  show "IN_CLASSA a \<longleftrightarrow> \<not> bit a 31"
    "IN_CLASSB a \<longleftrightarrow> bit a 31 \<and> \<not> bit a 30"
    "IN_CLASSC a \<longleftrightarrow> bit a 31 \<and> bit a 30 \<and> \<not> bit a 29"
    "IN_CLASSD a \<longleftrightarrow> bit a 31 \<and> bit a 30 \<and> bit a 29 \<and> \<not> bit a 28"
    "IN_EXPERIMENTAL a \<longleftrightarrow> bit a 31 \<and> bit a 30 \<and> bit a 29"
    "IN_BADCLASS a \<longleftrightarrow> bit a 31 \<and> bit a 30 \<and> bit a 29 \<and> bit a 28"
    unfolding in_class_defs a by simp_all
qed

text \<open>
  The classes A, B, C and D and the bad class partition the addresses: every address is in
  exactly one of them, and the experimental range is class D together with the bad class.
\<close>

lemma in_classes_partition:
  "length (filter (\<lambda>p. p a) [IN_CLASSA, IN_CLASSB, IN_CLASSC, IN_CLASSD, IN_BADCLASS]) = 1 \<and>
   (IN_EXPERIMENTAL a \<longleftrightarrow> IN_MULTICAST a \<or> IN_BADCLASS a)"
  by (simp add: leading_bits IN_MULTICAST_def)

subsection \<open>IPv6 addresses\<close>

text \<open>
  A \<open>struct in6_addr\<close> as its sixteen bytes; the macros read it as four words in memory order.
\<close>

type_synonym in6_addr = "u8 list"

definition be_word :: "u8 list \<Rightarrow> u32" where
  "be_word bs = push_bit 24 (ucast (bs ! 0)) OR push_bit 16 (ucast (bs ! 1))
     OR push_bit 8 (ucast (bs ! 2)) OR ucast (bs ! 3)"

definition u6_addr32 :: "byte_order \<Rightarrow> in6_addr \<Rightarrow> nat \<Rightarrow> u32" where
  "u6_addr32 bo a i = ntohl bo (be_word (take 4 (drop (4 * i) a)))"

definition IN6_IS_ADDR_UNSPECIFIED :: "byte_order \<Rightarrow> in6_addr \<Rightarrow> bool" where
  "IN6_IS_ADDR_UNSPECIFIED bo a \<longleftrightarrow>
     u6_addr32 bo a 0 = 0 \<and> u6_addr32 bo a 1 = 0 \<and> u6_addr32 bo a 2 = 0 \<and> u6_addr32 bo a 3 = 0"

definition IN6_IS_ADDR_LOOPBACK :: "byte_order \<Rightarrow> in6_addr \<Rightarrow> bool" where
  "IN6_IS_ADDR_LOOPBACK bo a \<longleftrightarrow>
     u6_addr32 bo a 0 = 0 \<and> u6_addr32 bo a 1 = 0 \<and> u6_addr32 bo a 2 = 0 \<and> u6_addr32 bo a 3 = htonl bo 1"

definition IN6_IS_ADDR_LINKLOCAL :: "byte_order \<Rightarrow> in6_addr \<Rightarrow> bool" where
  "IN6_IS_ADDR_LINKLOCAL bo a \<longleftrightarrow> u6_addr32 bo a 0 AND htonl bo 0xffc00000 = htonl bo 0xfe800000"

definition IN6_IS_ADDR_SITELOCAL :: "byte_order \<Rightarrow> in6_addr \<Rightarrow> bool" where
  "IN6_IS_ADDR_SITELOCAL bo a \<longleftrightarrow> u6_addr32 bo a 0 AND htonl bo 0xffc00000 = htonl bo 0xfec00000"

definition IN6_IS_ADDR_V4MAPPED :: "byte_order \<Rightarrow> in6_addr \<Rightarrow> bool" where
  "IN6_IS_ADDR_V4MAPPED bo a \<longleftrightarrow>
     u6_addr32 bo a 0 = 0 \<and> u6_addr32 bo a 1 = 0 \<and> u6_addr32 bo a 2 = htonl bo 0xffff"

definition IN6_IS_ADDR_V4COMPAT :: "byte_order \<Rightarrow> in6_addr \<Rightarrow> bool" where
  "IN6_IS_ADDR_V4COMPAT bo a \<longleftrightarrow>
     u6_addr32 bo a 0 = 0 \<and> u6_addr32 bo a 1 = 0 \<and> u6_addr32 bo a 2 = 0 \<and> 1 < ntohl bo (u6_addr32 bo a 3)"

definition IN6_ARE_ADDR_EQUAL :: "byte_order \<Rightarrow> in6_addr \<Rightarrow> in6_addr \<Rightarrow> bool" where
  "IN6_ARE_ADDR_EQUAL bo a b \<longleftrightarrow>
     u6_addr32 bo a 0 = u6_addr32 bo b 0 \<and> u6_addr32 bo a 1 = u6_addr32 bo b 1 \<and>
     u6_addr32 bo a 2 = u6_addr32 bo b 2 \<and> u6_addr32 bo a 3 = u6_addr32 bo b 3"

definition IN6_IS_ADDR_MULTICAST :: "in6_addr \<Rightarrow> bool" where
  "IN6_IS_ADDR_MULTICAST a \<longleftrightarrow> a ! 0 = 0xff"

definition IN6_IS_ADDR_MC_NODELOCAL :: "in6_addr \<Rightarrow> bool" where
  "IN6_IS_ADDR_MC_NODELOCAL a \<longleftrightarrow> IN6_IS_ADDR_MULTICAST a \<and> a ! 1 AND 0xf = 0x1"

definition IN6_IS_ADDR_MC_LINKLOCAL :: "in6_addr \<Rightarrow> bool" where
  "IN6_IS_ADDR_MC_LINKLOCAL a \<longleftrightarrow> IN6_IS_ADDR_MULTICAST a \<and> a ! 1 AND 0xf = 0x2"

definition IN6_IS_ADDR_MC_SITELOCAL :: "in6_addr \<Rightarrow> bool" where
  "IN6_IS_ADDR_MC_SITELOCAL a \<longleftrightarrow> IN6_IS_ADDR_MULTICAST a \<and> a ! 1 AND 0xf = 0x5"

definition IN6_IS_ADDR_MC_ORGLOCAL :: "in6_addr \<Rightarrow> bool" where
  "IN6_IS_ADDR_MC_ORGLOCAL a \<longleftrightarrow> IN6_IS_ADDR_MULTICAST a \<and> a ! 1 AND 0xf = 0x8"

definition IN6_IS_ADDR_MC_GLOBAL :: "in6_addr \<Rightarrow> bool" where
  "IN6_IS_ADDR_MC_GLOBAL a \<longleftrightarrow> IN6_IS_ADDR_MULTICAST a \<and> a ! 1 AND 0xf = 0xe"

subsection \<open>Sizes of source filters\<close>

text \<open>
  The sizes the compiler gives the structures of the socket options for source filters:
  \<open>struct ip_msfilter\<close> is four words and an address, \<open>struct group_filter\<close> is an aligned word, two
  addresses of 128 bytes and two words. The number of sources is an \<open>unsigned int\<close>.
\<close>

definition sizeof_in_addr :: size_t where "sizeof_in_addr = 4"
definition sizeof_sockaddr_storage :: size_t where "sizeof_sockaddr_storage = 128"
definition sizeof_ip_msfilter :: size_t where "sizeof_ip_msfilter = 4 * 4 + sizeof_in_addr"
definition sizeof_group_filter :: size_t where
  "sizeof_group_filter = 8 + sizeof_sockaddr_storage + 4 + 4 + sizeof_sockaddr_storage"

definition IP_MSFILTER_SIZE :: "u32 \<Rightarrow> size_t" where
  "IP_MSFILTER_SIZE numsrc = sizeof_ip_msfilter - sizeof_in_addr + ucast numsrc * sizeof_in_addr"

definition GROUP_FILTER_SIZE :: "u32 \<Rightarrow> size_t" where
  "GROUP_FILTER_SIZE numsrc =
     sizeof_group_filter - sizeof_sockaddr_storage + ucast numsrc * sizeof_sockaddr_storage"

lemma ucast_times_no_wrap:
  assumes "a + b * 2 ^ 32 < 2 ^ 64"
  shows "unat (of_nat a + ucast (n :: u32) * of_nat b :: size_t) = a + unat n * b"
proof -
  have "a + unat n * b \<le> a + b * 2 ^ 32" using unsigned_less[of n, where ?'a = nat] by (simp add: mult.commute)
  then have "a + unat n * b < 2 ^ 64" using assms by (rule order_le_less_trans)
  then show ?thesis
    by (metis of_nat_add of_nat_mult of_nat_unat unat_of_nat_64)
qed

text \<open>In 64 bits neither size can wrap, whatever the number of sources.\<close>

lemma filter_sizes_exact:
  "unat (IP_MSFILTER_SIZE n) = 16 + 4 * unat n" "unat (GROUP_FILTER_SIZE n) = 144 + 128 * unat n"
  using ucast_times_no_wrap[of 16 4 n] ucast_times_no_wrap[of 144 128 n]
  by (simp_all add: IP_MSFILTER_SIZE_def GROUP_FILTER_SIZE_def sizeof_ip_msfilter_def sizeof_group_filter_def
      sizeof_in_addr_def sizeof_sockaddr_storage_def)

lemma bit_be_word:
  assumes "i < 8"
  shows "bit (be_word bs) i = bit (bs ! 3) i" "bit (be_word bs) (8 + i) = bit (bs ! 2) i"
    "bit (be_word bs) (16 + i) = bit (bs ! 1) i" "bit (be_word bs) (24 + i) = bit (bs ! 0) i"
  using assms by (auto simp: be_word_def bit_simps dest: bit_imp_le_length)

lemma be_word_inject:
  assumes "length xs = 4" "length ys = 4"
  shows "be_word xs = be_word ys \<longleftrightarrow> xs = ys"
proof
  assume eq: "be_word xs = be_word ys"
  have b: "bit (xs ! k) i = bit (ys ! k) i" if k: "k < 4" and i: "i < 8" for k i
  proof -
    consider "k = 0" | "k = 1" | "k = 2" | "k = 3" using k by linarith
    then show ?thesis using bit_be_word[OF i, of xs] bit_be_word[OF i, of ys] eq by cases auto
  qed
  have "xs ! k = ys ! k" if "k < 4" for k
    by (rule bit_word_eqI) (use b[OF that] in simp)
  then show "xs = ys" using assms by (auto intro: nth_equalityI)
qed simp

lemma ntohl_inject [simp]: "ntohl bo x = ntohl bo y \<longleftrightarrow> x = y"
  by (cases bo) (auto simp: endian_defs, metis bswap_involution(2))

lemma in6_words:
  assumes "length a = 16"
  shows "a = take 4 (drop (4 * 0) a) @ take 4 (drop (4 * 1) a) @ take 4 (drop (4 * 2) a) @ take 4 (drop (4 * 3) a)"
  using append_take_drop_id[of 4 a] append_take_drop_id[of 4 "drop 4 a"] append_take_drop_id[of 4 "drop 8 a"] assms
  by simp

text \<open>
  The IPv6 comparison macro, which compares four words in the byte order of the host, decides
  equality of the sixteen bytes on every host.
\<close>

lemma in6_equal_bytes:
  assumes "length a = 16" "length b = 16"
  shows "IN6_ARE_ADDR_EQUAL bo a b \<longleftrightarrow> a = b"
proof
  assume "IN6_ARE_ADDR_EQUAL bo a b"
  then have "take 4 (drop (4 * i) a) = take 4 (drop (4 * i) b)" if "i < 4" for i
  proof -
    consider "i = 0" | "i = 1" | "i = 2" | "i = 3" using \<open>i < 4\<close> by linarith
    then show ?thesis
      using \<open>IN6_ARE_ADDR_EQUAL bo a b\<close> assms
      by cases (simp_all add: IN6_ARE_ADDR_EQUAL_def u6_addr32_def be_word_inject)
  qed
  from this[of 0] this[of 1] this[of 2] this[of 3] show "a = b"
    using in6_words[OF assms(1)] in6_words[OF assms(2)] by simp
qed (simp add: IN6_ARE_ADDR_EQUAL_def)

end
