(* ===== verification/Sys_Queue.thy ===== *)
theory Sys_Queue
  imports C_Prelude
begin

text \<open>
  The linked lists of \<open>sys/queue.h\<close>. An element is an address; a null pointer is \<open>None\<close>. The list
  macros work on a head record and a map from addresses to elements, and following a null or
  dangling pointer is a fault. This theory has the paths through such a map, which all the list
  families share, and the singly-linked list that the server keeps its threads in.
\<close>

subsection \<open>Paths\<close>

text \<open>\<open>seg nx p xs q\<close>: following \<open>nx\<close> from \<open>p\<close> visits \<open>xs\<close> and arrives at \<open>q\<close>.\<close>

fun seg :: "(nat \<Rightarrow> nat option option) \<Rightarrow> nat option \<Rightarrow> nat list \<Rightarrow> nat option \<Rightarrow> bool" where
  "seg nx p [] q \<longleftrightarrow> p = q"
| "seg nx p (x # xs) q \<longleftrightarrow> p = Some x \<and> (\<exists>r. nx x = Some r \<and> seg nx r xs q)"

abbreviation path :: "(nat \<Rightarrow> nat option option) \<Rightarrow> nat option \<Rightarrow> nat list \<Rightarrow> bool" where
  "path nx p xs \<equiv> seg nx p xs None"

lemma seg_append: "seg nx p (xs @ ys) q \<longleftrightarrow> (\<exists>r. seg nx p xs r \<and> seg nx r ys q)"
  by (induction xs arbitrary: p) auto

lemma seg_upd [simp]: "x \<notin> set xs \<Longrightarrow> seg (nx(x := v)) p xs q = seg nx p xs q"
  by (induction xs arbitrary: p) auto

lemma seg_cong: "(\<And>x. x \<in> set xs \<Longrightarrow> nx x = nx' x) \<Longrightarrow> seg nx p xs q = seg nx' p xs q"
  by (induction xs arbitrary: p) auto

lemma path_unique: "path nx p xs \<Longrightarrow> path nx p ys \<Longrightarrow> xs = ys"
proof (induction xs arbitrary: p ys)
  case Nil
  then show ?case by (cases ys) auto
next
  case (Cons x xs)
  then show ?case by (cases ys) auto
qed

lemma path_distinct: "path nx p xs \<Longrightarrow> distinct xs"
proof (induction xs arbitrary: p)
  case (Cons x xs)
  then obtain r where r: "nx x = Some r" "path nx r xs" by auto
  have "x \<notin> set xs"
  proof
    assume "x \<in> set xs"
    then obtain us vs where xs: "xs = us @ x # vs" by (auto simp: in_set_conv_decomp)
    then have "path nx (Some x) (x # vs)" using r by (auto simp: seg_append)
    moreover have "path nx (Some x) (x # xs)" using r by simp
    ultimately show False using path_unique[of nx "Some x"] xs by fastforce
  qed
  then show ?case using Cons r by auto
qed simp

lemma path_mem: "path nx p xs \<Longrightarrow> x \<in> set xs \<Longrightarrow> nx x \<noteq> None"
  by (induction xs arbitrary: p) auto

lemma path_empty_iff: "path nx p xs \<Longrightarrow> p = None \<longleftrightarrow> xs = []"
  by (cases xs) auto

text \<open>Linking \<open>e\<close> in after \<open>x\<close>, and unlinking the successor of \<open>x\<close>.\<close>

lemma path_insert_after:
  assumes "path nx p (us @ x # vs)" "nx x = Some r" "e \<notin> set (us @ x # vs)"
  shows "path (nx(e := Some r, x := Some (Some e))) p (us @ x # e # vs)"
proof -
  have d: "x \<notin> set us" "x \<notin> set vs" "x \<noteq> e" using path_distinct[OF assms(1)] assms(3) by auto
  obtain s where s: "seg nx p us s" "s = Some x" "path nx r vs"
    using assms(1,2) by (auto simp: seg_append)
  then show ?thesis using d assms(3) by (auto simp: seg_append)
qed

lemma path_remove_after:
  assumes "path nx p (us @ x # e # vs)" "nx e = Some r"
  shows "path (nx(x := Some r)) p (us @ x # vs)"
proof -
  have d: "x \<notin> set us" "x \<notin> set vs" using path_distinct[OF assms(1)] by auto
  obtain s where s: "seg nx p us s" "s = Some x" "path nx r vs"
    using assms by (auto simp: seg_append)
  then show ?thesis using d by (auto simp: seg_append)
qed

subsection \<open>Singly-linked lists\<close>

record 'a snode =
  sdata :: 'a
  sle_next :: "nat option"

record 'a slist =
  slh_first :: "nat option"
  snodes :: "nat \<rightharpoonup> 'a snode"

definition snode :: "'a slist \<Rightarrow> nat option \<Rightarrow> 'a snode res" where
  "snode q p =
     (case p of None \<Rightarrow> Inl NullDeref
      | Some a \<Rightarrow> (case snodes q a of None \<Rightarrow> Inl UseAfterFree | Some n \<Rightarrow> Inr n))"

definition set_sle_next :: "'a slist \<Rightarrow> nat option \<Rightarrow> nat option \<Rightarrow> 'a slist res" where
  "set_sle_next q p v =
     res_bind (snode q p) (\<lambda>n. Inr (q\<lparr>snodes := (snodes q)(the p \<mapsto> n\<lparr>sle_next := v\<rparr>)\<rparr>))"

definition SLIST_INIT :: "'a slist \<Rightarrow> 'a slist" where
  "SLIST_INIT q = q\<lparr>slh_first := None\<rparr>"

definition SLIST_EMPTY :: "'a slist \<Rightarrow> bool" where
  "SLIST_EMPTY q \<longleftrightarrow> slh_first q = None"

definition SLIST_FIRST :: "'a slist \<Rightarrow> nat option" where
  "SLIST_FIRST q = slh_first q"

definition SLIST_NEXT :: "'a slist \<Rightarrow> nat option \<Rightarrow> nat option res" where
  "SLIST_NEXT q elm = res_bind (snode q elm) (\<lambda>n. Inr (sle_next n))"

definition SLIST_INSERT_AFTER :: "'a slist \<Rightarrow> nat option \<Rightarrow> nat option \<Rightarrow> 'a slist res" where
  "SLIST_INSERT_AFTER q slistelm elm =
     res_bind (SLIST_NEXT q slistelm) (\<lambda>nxt.
     res_bind (set_sle_next q elm nxt) (\<lambda>q.
     set_sle_next q slistelm elm))"

definition SLIST_INSERT_HEAD :: "'a slist \<Rightarrow> nat option \<Rightarrow> 'a slist res" where
  "SLIST_INSERT_HEAD q elm =
     res_bind (set_sle_next q elm (slh_first q)) (\<lambda>q. Inr (q\<lparr>slh_first := elm\<rparr>))"

definition SLIST_REMOVE_HEAD :: "'a slist \<Rightarrow> 'a slist res" where
  "SLIST_REMOVE_HEAD q = res_bind (SLIST_NEXT q (slh_first q)) (\<lambda>nxt. Inr (q\<lparr>slh_first := nxt\<rparr>))"

text \<open>The search loop of \<open>SLIST_REMOVE\<close>: the element whose successor is \<open>elm\<close>.\<close>

partial_function (option) slist_before :: "'a slist \<Rightarrow> nat option \<Rightarrow> nat option \<Rightarrow> nat option res option" where
  "slist_before q elm curelm =
     (case SLIST_NEXT q curelm of
        Inl e \<Rightarrow> Some (Inl e)
      | Inr nxt \<Rightarrow> if nxt = elm then Some (Inr curelm) else slist_before q elm nxt)"

definition SLIST_REMOVE :: "'a slist \<Rightarrow> nat option \<Rightarrow> 'a slist res option" where
  "SLIST_REMOVE q elm =
     (if slh_first q = elm then Some (SLIST_REMOVE_HEAD q)
      else case slist_before q elm (slh_first q) of
        None \<Rightarrow> None
      | Some (Inl e) \<Rightarrow> Some (Inl e)
      | Some (Inr curelm) \<Rightarrow>
          Some (res_bind (SLIST_NEXT q curelm) (\<lambda>nxt.
                res_bind (SLIST_NEXT q nxt) (\<lambda>nn. set_sle_next q curelm nn))))"

text \<open>
  \<open>SLIST_FOREACH\<close> with a body that may change the list and may leave the loop; the successor is
  read after the body has run.
\<close>

partial_function (option) SLIST_FOREACH ::
    "('s \<Rightarrow> 'a slist \<Rightarrow> nat \<Rightarrow> ('s \<times> 'a slist \<times> bool) res) \<Rightarrow> 's \<Rightarrow> 'a slist \<Rightarrow> nat option \<Rightarrow>
     ('s \<times> 'a slist) res option" where
  "SLIST_FOREACH body s q var =
     (case var of
        None \<Rightarrow> Some (Inr (s, q))
      | Some a \<Rightarrow>
          (case body s q a of
             Inl e \<Rightarrow> Some (Inl e)
           | Inr (s, q, brk) \<Rightarrow>
               if brk then Some (Inr (s, q))
               else
                 (case SLIST_NEXT q (Some a) of
                    Inl e \<Rightarrow> Some (Inl e)
                  | Inr nxt \<Rightarrow> SLIST_FOREACH body s q nxt)))"

subsection \<open>The contract of a linked list\<close>

text \<open>
  What every list family promises: the list represents a sequence of distinct elements, insertion
  and removal change that sequence as expected, and the data of the elements are never touched.
\<close>

locale linked_list =
  fixes rep :: "'q \<Rightarrow> nat list \<Rightarrow> bool" and data :: "'q \<Rightarrow> nat \<Rightarrow> 'a option"
    and list_init :: "'q \<Rightarrow> 'q" and insert_head :: "'q \<Rightarrow> nat \<Rightarrow> 'q res"
    and insert_after :: "'q \<Rightarrow> nat \<Rightarrow> nat \<Rightarrow> 'q res" and remove :: "'q \<Rightarrow> nat \<Rightarrow> 'q res option"
  assumes rep_distinct: "rep q xs \<Longrightarrow> distinct xs"
    and init_law: "rep (list_init q) [] \<and> data (list_init q) = data q"
    and insert_head_law: "rep q xs \<Longrightarrow> data q e \<noteq> None \<Longrightarrow> e \<notin> set xs \<Longrightarrow>
      \<exists>q'. insert_head q e = Inr q' \<and> rep q' (e # xs) \<and> data q' = data q"
    and insert_after_law: "rep q (us @ x # vs) \<Longrightarrow> data q e \<noteq> None \<Longrightarrow> e \<notin> set (us @ x # vs) \<Longrightarrow>
      \<exists>q'. insert_after q x e = Inr q' \<and> rep q' (us @ x # e # vs) \<and> data q' = data q"
    and remove_law: "rep q (us @ e # vs) \<Longrightarrow>
      \<exists>q'. remove q e = Some (Inr q') \<and> rep q' (us @ vs) \<and> data q' = data q"
begin

text \<open>Inserting a list of elements at the head, one after the other, and removing a list of them.\<close>

primrec insert_heads :: "'q \<Rightarrow> nat list \<Rightarrow> 'q res" where
  "insert_heads q [] = Inr q"
| "insert_heads q (e # es) = res_bind (insert_head q e) (\<lambda>q. insert_heads q es)"

primrec removes :: "'q \<Rightarrow> nat list \<Rightarrow> 'q res option" where
  "removes q [] = Some (Inr q)"
| "removes q (e # es) =
     (case remove q e of
        None \<Rightarrow> None | Some (Inl f) \<Rightarrow> Some (Inl f) | Some (Inr q) \<Rightarrow> removes q es)"

lemma insert_heads_rev:
  "rep q xs \<Longrightarrow> distinct (es @ xs) \<Longrightarrow> \<forall>e \<in> set es. data q e \<noteq> None \<Longrightarrow>
   \<exists>q'. insert_heads q es = Inr q' \<and> rep q' (rev es @ xs) \<and> data q' = data q"
proof (induction es arbitrary: q xs)
  case (Cons e es)
  then obtain q1 where "insert_head q e = Inr q1" "rep q1 (e # xs)" "data q1 = data q"
    using insert_head_law[OF Cons.prems(1), of e] by auto
  then show ?case using Cons.IH[of q1 "e # xs"] Cons.prems by auto
qed simp

lemma removes_filter:
  "rep q xs \<Longrightarrow> distinct es \<Longrightarrow> set es \<subseteq> set xs \<Longrightarrow>
   \<exists>q'. removes q es = Some (Inr q') \<and> rep q' (filter (\<lambda>x. x \<notin> set es) xs) \<and> data q' = data q"
proof (induction es arbitrary: q xs)
  case (Cons e es)
  then obtain us vs where xs: "xs = us @ e # vs" by (auto simp: in_set_conv_decomp)
  have d: "e \<notin> set us" "e \<notin> set vs" using rep_distinct[OF Cons.prems(1)] xs by auto
  obtain q1 where q1: "remove q e = Some (Inr q1)" "rep q1 (us @ vs)" "data q1 = data q"
    using remove_law[OF Cons.prems(1)[unfolded xs]] by blast
  have "filter (\<lambda>x. x \<notin> set (e # es)) xs = filter (\<lambda>x. x \<notin> set es) (us @ vs)"
    using d by (auto simp: xs intro!: arg_cong2[where f = append] filter_cong)
  then show ?case using Cons.IH[OF q1(2)] Cons.prems d q1 by (auto simp: xs)
qed simp

text \<open>
  Whatever elements are inserted and in whatever order they are removed again, the list is back
  where it was, and no element's data have changed.
\<close>

lemma insert_remove_restores:
  assumes "rep q xs" "distinct (es @ xs)" "\<forall>e \<in> set es. data q e \<noteq> None" "distinct fs" "set fs = set es"
  shows "\<exists>q1 q2. insert_heads q es = Inr q1 \<and> rep q1 (rev es @ xs) \<and>
    removes q1 fs = Some (Inr q2) \<and> rep q2 xs \<and> data q2 = data q"
proof -
  obtain q1 where q1: "insert_heads q es = Inr q1" "rep q1 (rev es @ xs)" "data q1 = data q"
    using insert_heads_rev[OF assms(1-3)] by blast
  obtain q2 where q2: "removes q1 fs = Some (Inr q2)"
      "rep q2 (filter (\<lambda>x. x \<notin> set fs) (rev es @ xs))" "data q2 = data q1"
    using removes_filter[OF q1(2) assms(4)] assms(5) by auto
  have "filter (\<lambda>x. x \<notin> set fs) (rev es @ xs) = xs"
    using assms(2,5) by (auto simp: filter_id_conv filter_empty_conv)
  then show ?thesis using q1 q2 by auto
qed

end

subsection \<open>The singly-linked list keeps the contract\<close>

definition slist_next :: "'a slist \<Rightarrow> nat \<Rightarrow> nat option option" where
  "slist_next q a = map_option sle_next (snodes q a)"

definition slist_rep :: "'a slist \<Rightarrow> nat list \<Rightarrow> bool" where
  "slist_rep q xs \<longleftrightarrow> path (slist_next q) (slh_first q) xs"

definition slist_data :: "'a slist \<Rightarrow> nat \<Rightarrow> 'a option" where
  "slist_data q a = map_option sdata (snodes q a)"

lemma slist_next_upd [simp]:
  "slist_next (q\<lparr>snodes := (snodes q)(a \<mapsto> n)\<rparr>) = (slist_next q)(a := Some (sle_next n))"
  "slist_next (q\<lparr>slh_first := p\<rparr>) = slist_next q"
  by (auto simp: slist_next_def)

lemma slist_data_first [simp]: "slist_data (q\<lparr>slh_first := p\<rparr>) = slist_data q"
  by (simp add: slist_data_def fun_eq_iff)

lemma set_sle_next_live:
  assumes "slist_data q a \<noteq> None"
  shows "\<exists>q'. set_sle_next q (Some a) v = Inr q' \<and> slist_next q' = (slist_next q)(a := Some v) \<and>
    slist_data q' = slist_data q \<and> slh_first q' = slh_first q"
  using assms by (auto simp: set_sle_next_def snode_def slist_data_def slist_next_def fun_eq_iff)

lemma SLIST_NEXT_live: "slist_next q a = Some r \<Longrightarrow> SLIST_NEXT q (Some a) = Inr r"
  by (auto simp: SLIST_NEXT_def snode_def slist_next_def)

lemma slist_live: "slist_rep q xs \<Longrightarrow> x \<in> set xs \<Longrightarrow> slist_data q x \<noteq> None"
  using path_mem[of "slist_next q" "slh_first q" xs x]
  by (auto simp: slist_rep_def slist_data_def slist_next_def)

lemma slist_before_finds:
  "seg (slist_next q) p (us @ [x]) (Some e) \<Longrightarrow> e \<notin> set (us @ [x]) \<Longrightarrow>
   slist_before q (Some e) p = Some (Inr (Some x))"
proof (induction us arbitrary: p)
  case Nil
  then show ?case by (subst slist_before.simps) (auto simp: SLIST_NEXT_live)
next
  case (Cons u us)
  then obtain r where r: "p = Some u" "slist_next q u = Some r" "seg (slist_next q) r (us @ [x]) (Some e)"
    by auto
  have "r \<noteq> Some e" using r(3) Cons.prems(2) by (cases us) auto
  then show ?case using r Cons by (subst slist_before.simps) (auto simp: SLIST_NEXT_live)
qed

lemma slist_insert_after_law:
  assumes "slist_rep q (us @ x # vs)" "slist_data q e \<noteq> None" "e \<notin> set (us @ x # vs)"
  shows "\<exists>q'. SLIST_INSERT_AFTER q (Some x) (Some e) = Inr q' \<and> slist_rep q' (us @ x # e # vs) \<and>
    slist_data q' = slist_data q"
proof -
  have x: "slist_data q x \<noteq> None" using slist_live[OF assms(1), of x] by simp
  obtain r where r: "slist_next q x = Some r" using x by (auto simp: slist_next_def slist_data_def)
  obtain q1 where q1: "set_sle_next q (Some e) r = Inr q1" "slist_next q1 = (slist_next q)(e := Some r)"
      "slist_data q1 = slist_data q" "slh_first q1 = slh_first q"
    using set_sle_next_live[OF assms(2), of r] by blast
  obtain q2 where q2: "set_sle_next q1 (Some x) (Some e) = Inr q2"
      "slist_next q2 = (slist_next q1)(x := Some (Some e))"
      "slist_data q2 = slist_data q1" "slh_first q2 = slh_first q1"
    using set_sle_next_live[of q1 x "Some e"] x q1(3) by auto
  show ?thesis
    using path_insert_after[OF assms(1)[unfolded slist_rep_def] r assms(3)] q1 q2
    by (simp add: SLIST_INSERT_AFTER_def SLIST_NEXT_live[OF r] slist_rep_def)
qed

lemma slist_remove_law:
  assumes "slist_rep q (us @ e # vs)"
  shows "\<exists>q'. SLIST_REMOVE q (Some e) = Some (Inr q') \<and> slist_rep q' (us @ vs) \<and>
    slist_data q' = slist_data q"
proof (cases us rule: rev_cases)
  case Nil
  then obtain r where r: "slh_first q = Some e" "slist_next q e = Some r" "path (slist_next q) r vs"
    using assms by (auto simp: slist_rep_def)
  then show ?thesis using Nil
    by (simp add: SLIST_REMOVE_def SLIST_REMOVE_HEAD_def SLIST_NEXT_live slist_rep_def slist_data_def fun_eq_iff)
next
  case (snoc ws x)
  have p: "path (slist_next q) (slh_first q) (ws @ x # e # vs)"
    using assms snoc by (simp add: slist_rep_def)
  have d: "e \<notin> set (ws @ [x])" using path_distinct[OF p] by auto
  obtain r where r: "slist_next q e = Some r" "slist_next q x = Some (Some e)"
    "seg (slist_next q) (slh_first q) (ws @ [x]) (Some e)"
    using p by (auto simp: seg_append)
  have h: "slh_first q \<noteq> Some e" using r(3) d by (cases ws) auto
  have x: "slist_data q x \<noteq> None" using slist_live[OF assms, of x] snoc by simp
  obtain q1 where q1: "set_sle_next q (Some x) r = Inr q1" "slist_next q1 = (slist_next q)(x := Some r)"
      "slist_data q1 = slist_data q" "slh_first q1 = slh_first q"
    using set_sle_next_live[OF x, of r] by blast
  then show ?thesis
    using h path_remove_after[OF p r(1)] slist_before_finds[OF r(3) d] snoc
    by (simp add: SLIST_REMOVE_def SLIST_NEXT_live[OF r(1)] SLIST_NEXT_live[OF r(2)] slist_rep_def)
qed

interpretation slist: linked_list slist_rep slist_data SLIST_INIT "\<lambda>q e. SLIST_INSERT_HEAD q (Some e)"
    "\<lambda>q x e. SLIST_INSERT_AFTER q (Some x) (Some e)" "\<lambda>q e. SLIST_REMOVE q (Some e)"
proof unfold_locales
  fix q :: "'a slist" and xs e
  assume a: "slist_rep q xs" "slist_data q e \<noteq> None" "e \<notin> set xs"
  obtain q1 where "set_sle_next q (Some e) (slh_first q) = Inr q1"
      "slist_next q1 = (slist_next q)(e := Some (slh_first q))" "slist_data q1 = slist_data q"
    using set_sle_next_live[OF a(2)] by blast
  then show "\<exists>q'. SLIST_INSERT_HEAD q (Some e) = Inr q' \<and> slist_rep q' (e # xs) \<and> slist_data q' = slist_data q"
    using a by (auto simp: SLIST_INSERT_HEAD_def slist_rep_def)
qed (simp_all add: slist_insert_after_law slist_remove_law SLIST_INIT_def slist_rep_def[of _ "[]"],
     simp add: slist_rep_def path_distinct)

text \<open>
  Insertion at any place of a singly-linked list and removal of the element again behave as on
  the sequence the list represents; both return without a fault, removal ends although it searches
  the list, the list is back where it was, and the data of no element change.
\<close>

theorem slist_insert_remove:
  assumes "slist_rep q (us @ vs)" "slist_data q e \<noteq> None" "e \<notin> set (us @ vs)"
  shows "\<exists>q1 q2. (if us = [] then SLIST_INSERT_HEAD q (Some e)
      else SLIST_INSERT_AFTER q (Some (last us)) (Some e)) = Inr q1 \<and>
    slist_rep q1 (us @ e # vs) \<and> SLIST_REMOVE q1 (Some e) = Some (Inr q2) \<and>
    slist_rep q2 (us @ vs) \<and> slist_data q2 = slist_data q"
proof -
  have "\<exists>q1. (if us = [] then SLIST_INSERT_HEAD q (Some e)
      else SLIST_INSERT_AFTER q (Some (last us)) (Some e)) = Inr q1 \<and>
    slist_rep q1 (us @ e # vs) \<and> slist_data q1 = slist_data q"
    using slist.insert_head_law[of q vs e] slist.insert_after_law[of q "butlast us" "last us" vs e] assms
    by (cases us rule: rev_cases) auto
  then show ?thesis using slist.remove_law[of _ us e vs] by metis
qed

end
