(* ===== verification/Server_Main.thy ===== *)
theory Server_Main
  imports Socket_Server Inet_Address Sys_Queue
begin

text \<open>
  \<open>main\<close> of \<open>server/aesdsocket.c\<close>: start-up, the accept loop, the list of connection threads and
  the exit path. The list is the singly-linked list of \<open>sys/queue.h\<close>; threads finish at any moment
  between the iterations of the loop, which the step relation at the end interleaves.
\<close>

subsection \<open>The thread list\<close>

record thread_info =
  thread_id :: nat
  input_args :: arg_struct

type_synonym threads = "thread_info slist"

definition set_complete :: "threads \<Rightarrow> nat \<Rightarrow> int \<Rightarrow> threads" where
  "set_complete q a v =
     (case snodes q a of
        None \<Rightarrow> q
      | Some n \<Rightarrow>
          q\<lparr>snodes := (snodes q)(a \<mapsto> n\<lparr>sdata :=
              (sdata n)\<lparr>input_args := (input_args (sdata n))\<lparr>thread_complete := v\<rparr>\<rparr>\<rparr>)\<rparr>)"

text \<open>
  \<open>malloc\<close> gives an address and what the block there holds; \<open>pthread_create\<close> the identifier of the
  thread. The loop looks for the last entry and links the new one after it.
\<close>

definition append_entry ::
    "nat \<Rightarrow> unit \<Rightarrow> threads \<Rightarrow> nat \<Rightarrow> (unit \<times> threads \<times> bool) res" where
  "append_entry entry s q current_entry =
     res_bind (snode q (Some current_entry)) (\<lambda>n.
     if sle_next n = None
     then res_bind (SLIST_INSERT_AFTER q (Some current_entry) (Some entry)) (\<lambda>q. Inr (s, q, True))
     else Inr (s, q, False))"

definition add_slist_entry ::
    "(threads \<Rightarrow> (nat \<times> thread_info snode) option) \<Rightarrow> nat \<Rightarrow> int \<Rightarrow> threads \<Rightarrow> threads res option" where
  "add_slist_entry malloc tid fd q =
     (case malloc q of
        None \<Rightarrow> Some (Inl NullDeref)
      | Some (entry, junk) \<Rightarrow>
          let q = q\<lparr>snodes := (snodes q)(entry \<mapsto> junk\<lparr>sdata :=
                 \<lparr>thread_id = tid, input_args = \<lparr>connected_skt_fd = fd, thread_complete = 0\<rparr>\<rparr>\<rparr>)\<rparr> in
          if SLIST_EMPTY q then Some (SLIST_INSERT_HEAD q (Some entry))
          else map_option (\<lambda>r. res_bind r (\<lambda>(_, q). Inr q))
                 (SLIST_FOREACH (append_entry entry) () q (SLIST_FIRST q)))"

text \<open>
  The bodies of the two passes over the list, with the identifiers joined and the descriptors
  closed so far: the pass after every accepted connection, and the one on the way out.
\<close>

type_synonym tally = "nat list \<times> int list"

definition join_entry :: "tally \<Rightarrow> threads \<Rightarrow> nat \<Rightarrow> (tally \<times> threads \<times> bool) res" where
  "join_entry t q current_entry =
     res_bind (snode q (Some current_entry)) (\<lambda>n.
     let args = input_args (sdata n);
         t = (if thread_complete args = 1
              then (fst t @ [thread_id (sdata n)], snd t @ [connected_skt_fd args]) else t)
     in Inr (t, set_complete q current_entry 0, False))"

definition exit_entry :: "tally \<Rightarrow> threads \<Rightarrow> nat \<Rightarrow> (tally \<times> threads \<times> bool) res" where
  "exit_entry t q current_entry =
     res_bind (snode q (Some current_entry)) (\<lambda>n.
     let args = input_args (sdata n);
         joined = (if thread_complete args = 1 then fst t @ [thread_id (sdata n)] else fst t)
     in Inr ((joined, snd t @ [connected_skt_fd args]), q, False))"

text \<open>The loop that is to free the list; its condition is the negation of the intended one.\<close>

partial_function (option) free_loop :: "threads \<Rightarrow> threads res option" where
  "free_loop q =
     (if SLIST_EMPTY q then
        (case SLIST_REMOVE_HEAD q of
           Inl e \<Rightarrow> Some (Inl e)
         | Inr q' \<Rightarrow>
             free_loop (case SLIST_FIRST q of None \<Rightarrow> q' | Some a \<Rightarrow> q'\<lparr>snodes := (snodes q')(a := None)\<rparr>))
      else Some (Inr q))"

subsection \<open>The accept loop\<close>

text \<open>
  The stack of \<open>main\<close> and \<open>flip_ip_addr\<close>, the list, the signals with a handler, and what has been
  joined, closed, removed and logged. The timer identifier is \<open>None\<close> while it is indeterminate;
  what \<open>timer_delete\<close> does with an identifier is left to the environment.
\<close>

record main_state =
  skt_fd :: int
  threads_list :: threads
  caught_signal :: bool
  joined :: "nat list"
  closed :: "int list"
  timer_id :: "nat option"
  handled :: "int list"
  removed :: "string list"
  client_log :: "(string \<times> string) list"

record main_env =
  m_order :: byte_order
  m_malloc :: "threads \<Rightarrow> (nat \<times> thread_info snode) option"
  m_rows :: "string list"
  m_modified :: string
  m_client_ip :: string
  m_hostview :: string
  m_timer_delete :: "nat option \<Rightarrow> int res"

datatype accept_result = Accepted int u32 nat | AcceptError nat

datatype main_outcome = Serving main_state | Exited int main_state

definition USE_AESD_CHAR_DEVICE :: int where "USE_AESD_CHAR_DEVICE = 1"

definition main_exit :: "main_env \<Rightarrow> main_state \<Rightarrow> main_outcome res option" where
  "main_exit env st =
     (case m_timer_delete env (timer_id st) of
        Inl e \<Rightarrow> Some (Inl e)
      | Inr _ \<Rightarrow>
     (case SLIST_FOREACH exit_entry (joined st, closed st) (threads_list st) (SLIST_FIRST (threads_list st)) of
        None \<Rightarrow> None
      | Some (Inl e) \<Rightarrow> Some (Inl e)
      | Some (Inr ((js, cs), q)) \<Rightarrow>
          (case free_loop q of
             None \<Rightarrow> None
           | Some (Inl e) \<Rightarrow> Some (Inl e)
           | Some (Inr q) \<Rightarrow>
               Some (Inr (Exited 0 (st\<lparr>threads_list := q, joined := js, closed := cs @ [skt_fd st],
                 removed := removed st @ (if USE_AESD_CHAR_DEVICE = 0 then [WRITE_FILE] else [])\<rparr>))))))"

definition main_iter :: "main_env \<Rightarrow> accept_result \<Rightarrow> main_state \<Rightarrow> main_outcome res option" where
  "main_iter env acc st =
     (if caught_signal st then main_exit env st
      else case acc of
        AcceptError e \<Rightarrow> Some (Inr (if e = 11 then Serving st else Exited (-1) st))
      | Accepted fd s_addr tid \<Rightarrow>
          (case log_client (m_order env) (m_rows env) (m_modified env) (m_client_ip env) (m_hostview env) s_addr of
             Inl e \<Rightarrow> Some (Inl e)
           | Inr line \<Rightarrow>
               (case add_slist_entry (m_malloc env) tid fd (threads_list st) of
                  None \<Rightarrow> None
                | Some (Inl e) \<Rightarrow> Some (Inl e)
                | Some (Inr q) \<Rightarrow>
                    (case SLIST_FOREACH join_entry (joined st, closed st) q (SLIST_FIRST q) of
                       None \<Rightarrow> None
                     | Some (Inl e) \<Rightarrow> Some (Inl e)
                     | Some (Inr ((js, cs), q)) \<Rightarrow>
                         Some (Inr (Serving (st\<lparr>threads_list := q, joined := js, closed := cs,
                           client_log := client_log st @ [line]\<rparr>)))))))"

subsection \<open>Start-up\<close>

text \<open>
  What the system answers during start-up: \<open>sigaction\<close> for a signal, \<open>getaddrinfo\<close>, then for each
  address the results of \<open>socket\<close> and \<open>bind\<close>, then \<open>listen\<close> for the descriptor it is given, \<open>fork\<close>,
  \<open>timer_create\<close> with the identifier it stores and \<open>timer_settime\<close>.
\<close>

record itimerspec =
  it_value :: "int \<times> int"
  it_interval :: "int \<times> int"

record boot_env =
  b_sigaction :: "int \<Rightarrow> int"
  b_getaddrinfo :: int
  b_addrs :: "(int \<times> int) list"
  b_listen :: "int \<Rightarrow> int"
  b_fork :: int
  b_timer_create :: "int \<times> nat"
  b_timer_settime :: "nat \<Rightarrow> itimerspec \<Rightarrow> int"

text \<open>
  \<open>main\<close> returns or goes on to the loop with a listening socket, as a daemon or not, with its timer
  and the signals whose handler was registered; a registration that fails is only reported.
\<close>

datatype boot_outcome = Stops int | Runs int bool "nat option" "int list"

definition setup_signals :: "boot_env \<Rightarrow> int list" where
  "setup_signals env = filter (\<lambda>n. b_sigaction env n = 0) [SIGTERM, SIGINT]"

definition setup_timer :: "boot_env \<Rightarrow> int + nat option" where
  "setup_timer env =
     (if USE_AESD_CHAR_DEVICE = 0 then
        (case b_timer_create env of (ret_val, t) \<Rightarrow>
         if ret_val \<noteq> 0 then Inl (-1)
         else if b_timer_settime env t \<lparr>it_value = (10, 0), it_interval = (10, 0)\<rparr> \<noteq> 0 then Inl (-1)
         else Inr (Some t))
      else Inr None)"

fun bind_loop :: "int option \<Rightarrow> (int \<times> int) list \<Rightarrow> int option" where
  "bind_loop skt [] = skt"
| "bind_loop skt ((fd, ret_val) # rp) =
     (if fd = -1 then bind_loop (Some fd) rp
      else if ret_val \<noteq> 0 then bind_loop (Some fd) rp
      else Some fd)"

definition wants_daemon :: "string list \<Rightarrow> bool res" where
  "wants_daemon argv =
     (if length argv = 2
      then res_bind (c_strcmp (argv ! 1 @ [NUL]) (''-d'' @ [NUL])) (\<lambda>r. Inr (r = 0))
      else Inr False)"

definition main_boot :: "boot_env \<Rightarrow> string list \<Rightarrow> boot_outcome res" where
  "main_boot env argv =
     (let signals = setup_signals env in
      if b_getaddrinfo env \<noteq> 0 then Inr (Stops (-1))
      else case bind_loop None (b_addrs env) of
        None \<Rightarrow> Inl UninitRead
      | Some fd \<Rightarrow>
          if b_listen env fd \<noteq> 0 then Inr (Stops (-1))
          else res_bind (wants_daemon argv) (\<lambda>d.
            if d \<and> b_fork env = -1 then Inr (Stops (-1))
            else if d \<and> b_fork env \<noteq> 0 then Inr (Stops 0)
            else case setup_timer env of
              Inl ret_val \<Rightarrow> Inr (Stops ret_val)
            | Inr t \<Rightarrow> Inr (Runs fd d t signals)))"

text \<open>The state in which the loop starts.\<close>

definition main_start :: "int \<Rightarrow> nat option \<Rightarrow> int list \<Rightarrow> threads \<Rightarrow> main_state" where
  "main_start fd t signals q = \<lparr>skt_fd = fd, threads_list = SLIST_INIT q, caught_signal = False, joined = [],
     closed = [], timer_id = t, handled = signals, removed = [], client_log = []\<rparr>"

text \<open>
  A signal that arrives runs the handler if one was registered for it; otherwise SIGTERM and SIGINT
  end the process.
\<close>

definition deliver_signal :: "int \<Rightarrow> main_state \<Rightarrow> main_state option" where
  "deliver_signal n st =
     (if n \<in> set (handled st)
      then Some (st\<lparr>caught_signal := socket_signal_handler n (caught_signal st)\<rparr>) else None)"

end
