(* ===== verification/Server_Threads.thy ===== *)
theory Server_Threads
  imports Server_Main
begin

text \<open>
  The server's thread list: every accepted connection is appended and stays, the pass over the
  list joins exactly the finished threads and forgets that they had finished, and the exit path
  closes every descriptor but frees nothing. The interleaving of the accept loop with finishing
  threads and signals is an inductive relation.
\<close>

subsection \<open>Passes over a list\<close>

text \<open>A pass with a body that never leaves the loop and keeps the links is a fold over the elements.\<close>

fun visit ::
    "('s \<Rightarrow> 'a slist \<Rightarrow> nat \<Rightarrow> ('s \<times> 'a slist \<times> bool) res) \<Rightarrow> 's \<Rightarrow> 'a slist \<Rightarrow> nat list \<Rightarrow>
     ('s \<times> 'a slist) res" where
  "visit body s q [] = Inr (s, q)"
| "visit body s q (a # as) = res_bind (body s q a) (\<lambda>(s, q, _). visit body s q as)"

lemma foreach_visits:
  assumes "path (slist_next q) p xs"
    and "\<And>s q a r. body s q a = Inr r \<Longrightarrow> \<not> snd (snd r) \<and> slist_next (fst (snd r)) = slist_next q"
  shows "SLIST_FOREACH body s q p = Some (visit body s q xs)"
  using assms(1)
proof (induction xs arbitrary: p s q)
  case Nil
  then show ?case by (subst SLIST_FOREACH.simps) simp
next
  case (Cons a as)
  then obtain nx where p: "p = Some a" "slist_next q a = Some nx" "path (slist_next q) nx as" by auto
  show ?case
  proof (cases "body s q a")
    case (Inl e)
    then show ?thesis using p(1) by (subst SLIST_FOREACH.simps) simp
  next
    case (Inr r)
    obtain s' q' brk where r: "r = (s', q', brk)" by (cases r)
    have k: "\<not> brk" "slist_next q' = slist_next q" using assms(2)[OF Inr] r by auto
    then show ?thesis
      using Cons.IH[of q' nx s'] Inr p r
      by (subst SLIST_FOREACH.simps) (simp add: SLIST_NEXT_live)
  qed
qed

lemma snode_data: "slist_data q a = Some d \<Longrightarrow> \<exists>n. snode q (Some a) = Inr n \<and> sdata n = d"
  by (auto simp: slist_data_def snode_def)

definition with_complete :: "int \<Rightarrow> thread_info \<Rightarrow> thread_info" where
  "with_complete v d = d\<lparr>input_args := (input_args d)\<lparr>thread_complete := v\<rparr>\<rparr>"

lemma set_complete_keeps [simp]:
  "slist_next (set_complete q a v) = slist_next q" "slh_first (set_complete q a v) = slh_first q"
  by (auto simp: set_complete_def slist_next_def split: option.split)

lemma set_complete_data:
  "slist_data (set_complete q a v) = (slist_data q)(a := map_option (with_complete v) (slist_data q a))"
  by (auto simp: set_complete_def slist_data_def with_complete_def fun_eq_iff split: option.split)

definition finished :: "thread_info \<Rightarrow> bool" where
  "finished d \<longleftrightarrow> thread_complete (input_args d) = 1"

abbreviation fd_of :: "thread_info \<Rightarrow> int" where
  "fd_of d \<equiv> connected_skt_fd (input_args d)"

lemma with_complete_simps [simp]:
  "thread_id (with_complete v d) = thread_id d" "fd_of (with_complete v d) = fd_of d"
  by (simp_all add: with_complete_def)

text \<open>The data of the elements of a list.\<close>

definition infos :: "threads \<Rightarrow> nat list \<Rightarrow> thread_info list" where
  "infos q xs = map (\<lambda>a. the (slist_data q a)) xs"

lemma infos_cong: "(\<And>a. a \<in> set xs \<Longrightarrow> slist_data q a = slist_data q' a) \<Longrightarrow> infos q xs = infos q' xs"
  by (simp add: infos_def)

lemma join_visit:
  assumes "distinct xs" "\<forall>a\<in>set xs. slist_data q a \<noteq> None"
  shows "\<exists>q'. visit join_entry (js, cs) q xs =
      Inr ((js @ map thread_id (filter finished (infos q xs)),
            cs @ map fd_of (filter finished (infos q xs))), q') \<and>
    slist_next q' = slist_next q \<and> slh_first q' = slh_first q \<and>
    infos q' xs = map (with_complete 0) (infos q xs) \<and>
    (\<forall>a. a \<notin> set xs \<longrightarrow> slist_data q' a = slist_data q a)"
  using assms
proof (induction xs arbitrary: q js cs)
  case Nil
  then show ?case by (simp add: infos_def)
next
  case (Cons a as)
  then obtain d where d: "slist_data q a = Some d" by auto
  obtain n where n: "snode q (Some a) = Inr n" "sdata n = d" using snode_data[OF d] by blast
  let ?q = "set_complete q a 0"
  have keep: "slist_data ?q b = slist_data q b" if "b \<in> set as" for b
    using Cons.prems(1) that by (auto simp: set_complete_data)
  have i: "infos ?q as = infos q as" by (rule infos_cong) (rule keep)
  have "\<forall>b\<in>set as. slist_data ?q b \<noteq> None" using Cons.prems(2) keep by simp
  define js' where "js' = (if finished d then js @ [thread_id d] else js)"
  define cs' where "cs' = (if finished d then cs @ [fd_of d] else cs)"
  have step: "join_entry (js, cs) q a = Inr ((js', cs'), ?q, False)"
    using n by (simp add: join_entry_def finished_def js'_def cs'_def Let_def)
  from Cons.IH[of ?q js' cs'] Cons.prems keep obtain q' where q':
    "visit join_entry (js', cs') ?q as =
      Inr ((js' @ map thread_id (filter finished (infos q as)), cs' @ map fd_of (filter finished (infos q as))), q')"
    "slist_next q' = slist_next q" "slh_first q' = slh_first q"
    "infos q' as = map (with_complete 0) (infos q as)"
    "\<forall>b. b \<notin> set as \<longrightarrow> slist_data q' b = slist_data ?q b"
    by (auto simp: i)
  have "slist_data q' a = Some (with_complete 0 d)" using q'(5) Cons.prems(1) d by (simp add: set_complete_data)
  then show ?case
    using step q' d by (auto simp: infos_def js'_def cs'_def set_complete_data)
qed

text \<open>The pass after an accepted connection.\<close>

lemma join_pass:
  assumes "slist_rep q xs"
  shows "\<exists>q'. SLIST_FOREACH join_entry (js, cs) q (SLIST_FIRST q) =
      Some (Inr ((js @ map thread_id (filter finished (infos q xs)),
                  cs @ map fd_of (filter finished (infos q xs))), q')) \<and>
    slist_rep q' xs \<and> infos q' xs = map (with_complete 0) (infos q xs)"
proof -
  have p: "path (slist_next q) (SLIST_FIRST q) xs" using assms by (simp add: slist_rep_def SLIST_FIRST_def)
  have k: "\<not> snd (snd r) \<and> slist_next (fst (snd r)) = slist_next q" if "join_entry s q a = Inr r" for s q a r
    using that by (auto simp: join_entry_def Let_def)
  have d: "distinct xs" "\<forall>a\<in>set xs. slist_data q a \<noteq> None"
    using slist.rep_distinct[OF assms] slist_live[OF assms] by auto
  show ?thesis
    using foreach_visits[OF p k] join_visit[OF d, of js cs] assms by (auto simp: slist_rep_def)
qed

text \<open>The pass on the way out.\<close>

lemma exit_pass:
  assumes "slist_rep q xs"
  shows "SLIST_FOREACH exit_entry (js, cs) q (SLIST_FIRST q) =
    Some (Inr ((js @ map thread_id (filter finished (infos q xs)), cs @ map fd_of (infos q xs)), q))"
proof -
  have p: "path (slist_next q) (SLIST_FIRST q) xs" using assms by (simp add: slist_rep_def SLIST_FIRST_def)
  have k: "\<not> snd (snd r) \<and> slist_next (fst (snd r)) = slist_next q" if "exit_entry s q a = Inr r" for s q a r
    using that by (auto simp: exit_entry_def Let_def)
  have "visit exit_entry (js, cs) q ys =
      Inr ((js @ map thread_id (filter finished (infos q ys)), cs @ map fd_of (infos q ys)), q)"
    if "set ys \<subseteq> set xs" for ys
    using that
  proof (induction ys arbitrary: js cs)
    case (Cons a ys)
    have "slist_data q a \<noteq> None" using Cons.prems by (intro slist_live[OF assms]) simp
    then obtain d where d: "slist_data q a = Some d" by blast
    obtain n where "snode q (Some a) = Inr n" "sdata n = d" using snode_data[OF d] by blast
    then show ?case using Cons.IH Cons.prems d by (simp add: exit_entry_def infos_def finished_def Let_def)
  qed (simp add: infos_def)
  then show ?thesis using foreach_visits[OF p k] by simp
qed

subsection \<open>Start-up\<close>

definition bound :: "int \<times> int \<Rightarrow> bool" where
  "bound p \<longleftrightarrow> fst p \<noteq> -1 \<and> snd p = 0"

text \<open>
  The loop over the addresses takes the first socket that could be bound. When there is none, it
  leaves the last descriptor it tried, and \<open>main\<close> goes on to listen on it.
\<close>

lemma bind_loop_result:
  "bind_loop skt rs =
     (case find bound rs of
        Some p \<Rightarrow> Some (fst p)
      | None \<Rightarrow> if rs = [] then skt else Some (fst (last rs)))"
  by (induction skt rs rule: bind_loop.induct) (auto simp: bound_def split: option.split)

lemma main_boot_runs:
  assumes "main_boot env argv = Inr (Runs fd d t sigs)"
  shows "b_getaddrinfo env = 0 \<and> b_listen env fd = 0 \<and> b_addrs env \<noteq> [] \<and> fd \<in> fst ` set (b_addrs env) \<and>
    (find bound (b_addrs env) = None \<longrightarrow> fd = fst (last (b_addrs env))) \<and>
    t = None \<and> (\<forall>n. n \<in> set sigs \<longleftrightarrow> n \<in> {SIGTERM, SIGINT} \<and> b_sigaction env n = 0)"
proof -
  have b: "bind_loop None (b_addrs env) = Some fd" "b_getaddrinfo env = 0" "b_listen env fd = 0" "t = None" "sigs = setup_signals env"
    using assms by (auto simp: main_boot_def res_bind_def Let_def setup_timer_def USE_AESD_CHAR_DEVICE_def split: if_splits option.splits sum.splits)
  then have ne: "b_addrs env \<noteq> []" by auto
  show ?thesis
  proof (cases "find bound (b_addrs env)")
    case None
    then show ?thesis using b ne last_in_set[OF ne] by (auto simp: bind_loop_result setup_signals_def)
  next
    case (Some p)
    then have "p \<in> set (b_addrs env)" by (auto simp: find_Some_iff)
    then show ?thesis using b ne Some by (auto simp: bind_loop_result setup_signals_def)
  qed
qed

subsection \<open>Adding a connection\<close>

definition malloc_fresh :: "(threads \<Rightarrow> (nat \<times> thread_info snode) option) \<Rightarrow> bool" where
  "malloc_fresh malloc \<longleftrightarrow> (\<forall>q e junk. malloc q = Some (e, junk) \<longrightarrow> snodes q e = None)"

definition new_thread :: "nat \<Rightarrow> int \<Rightarrow> thread_info" where
  "new_thread tid fd =
     \<lparr>thread_id = tid, input_args = \<lparr>connected_skt_fd = fd, thread_complete = 0\<rparr>\<rparr>"

lemma append_loop:
  "path (slist_next q) p (us @ [x]) \<Longrightarrow>
   SLIST_FOREACH (append_entry e) () q p =
     Some (res_bind (SLIST_INSERT_AFTER q (Some x) (Some e)) (\<lambda>q. Inr ((), q)))"
proof (induction us arbitrary: p)
  case Nil
  then have "p = Some x" "slist_next q x = Some None" by auto
  then show ?case
    by (subst SLIST_FOREACH.simps)
      (auto simp: append_entry_def snode_def slist_next_def res_bind_def split: sum.split)
next
  case (Cons u us)
  then obtain r where r: "p = Some u" "slist_next q u = Some r" "path (slist_next q) r (us @ [x])" by auto
  have "r \<noteq> None" using r(3) by (cases us) auto
  then have "append_entry e () q u = Inr ((), q, False)"
    using r(2) by (auto simp: append_entry_def snode_def slist_next_def)
  then show ?case
    using r Cons.IH[OF r(3)] by (subst SLIST_FOREACH.simps) (simp add: SLIST_NEXT_live)
qed

lemma add_slist_entry_appends:
  assumes "slist_rep q xs" "malloc q = Some (e, junk)" "snodes q e = None"
  shows "\<exists>q'. add_slist_entry malloc tid fd q = Some (Inr q') \<and> slist_rep q' (xs @ [e]) \<and>
    infos q' (xs @ [e]) = infos q xs @ [new_thread tid fd]"
proof -
  let ?n = "junk\<lparr>sdata := new_thread tid fd\<rparr>"
  let ?q = "q\<lparr>snodes := (snodes q)(e \<mapsto> ?n)\<rparr>"
  have e: "e \<notin> set xs" using slist_live[OF assms(1), of e] assms(3) by (auto simp: slist_data_def)
  have rep: "slist_rep ?q xs" using assms(1) e by (simp add: slist_rep_def)
  have dat: "slist_data ?q = (slist_data q)(e \<mapsto> new_thread tid fd)" by (auto simp: slist_data_def)
  have info: "infos ?q (xs @ [e]) = infos q xs @ [new_thread tid fd]"
    using e by (auto simp: infos_def dat)
  show ?thesis
  proof (cases xs rule: rev_cases)
    case Nil
    then obtain q' where "SLIST_INSERT_HEAD ?q (Some e) = Inr q'" "slist_rep q' [e]" "slist_data q' = slist_data ?q"
      using slist.insert_head_law[OF rep, of e] dat by auto
    then show ?thesis using Nil assms(1,2) info
      by (auto simp: add_slist_entry_def SLIST_EMPTY_def slist_rep_def infos_def new_thread_def Let_def)
  next
    case (snoc us x)
    obtain q' where q': "SLIST_INSERT_AFTER ?q (Some x) (Some e) = Inr q'" "slist_rep q' (us @ [x, e])"
        "slist_data q' = slist_data ?q"
      using slist.insert_after_law[of ?q us x "[]" e] rep e dat snoc by auto
    have p: "path (slist_next ?q) (SLIST_FIRST ?q) (us @ [x])"
      using rep snoc by (simp add: slist_rep_def SLIST_FIRST_def)
    have "\<not> SLIST_EMPTY ?q"
      using rep snoc path_empty_iff[of "slist_next ?q" "slh_first ?q" xs] by (simp add: SLIST_EMPTY_def slist_rep_def)
    then show ?thesis
      using append_loop[OF p, of e] q' info snoc assms(2)
      by (auto simp: add_slist_entry_def new_thread_def Let_def infos_def)
  qed
qed

subsection \<open>The accept loop\<close>

lemma main_iter_accept:
  fixes tid :: nat and fd :: int
  assumes "slist_rep (threads_list st) xs" "\<not> caught_signal st"
    "log_client (m_order env) (m_rows env) (m_modified env) (m_client_ip env) (m_hostview env) s_addr = Inr line"
    "m_malloc env (threads_list st) = Some (e, junk)" "snodes (threads_list st) e = None"
  defines "ds \<equiv> infos (threads_list st) xs @ [new_thread tid fd]"
  shows "\<exists>q. main_iter env (Accepted fd s_addr tid) st = Some (Inr (Serving (st\<lparr>threads_list := q,
      joined := joined st @ map thread_id (filter finished ds),
      closed := closed st @ map fd_of (filter finished ds), client_log := client_log st @ [line]\<rparr>))) \<and>
    slist_rep q (xs @ [e]) \<and> infos q (xs @ [e]) = map (with_complete 0) ds"
proof -
  obtain q1 where q1: "add_slist_entry (m_malloc env) tid fd (threads_list st) = Some (Inr q1)"
      "slist_rep q1 (xs @ [e])" "infos q1 (xs @ [e]) = ds"
    using add_slist_entry_appends[where malloc = "m_malloc env", OF assms(1,4,5)] unfolding ds_def by blast
  obtain q2 where "SLIST_FOREACH join_entry (joined st, closed st) q1 (SLIST_FIRST q1) =
      Some (Inr ((joined st @ map thread_id (filter finished ds), closed st @ map fd_of (filter finished ds)), q2))"
      "slist_rep q2 (xs @ [e])" "infos q2 (xs @ [e]) = map (with_complete 0) ds"
    using join_pass[OF q1(2), of "joined st" "closed st"] q1(3) by auto
  then show ?thesis using assms(2,3) q1(1) by (intro exI[of _ q2]) (simp add: main_iter_def)
qed

text \<open>
  A run of the server after start-up: the loop's iterations, with threads finishing and signals arriving in
  between; the list collects the accepted descriptors.
\<close>

inductive server_reach :: "main_env \<Rightarrow> main_state \<Rightarrow> int list \<Rightarrow> bool" for env where
  reach_start: "main_boot boot argv = Inr (Runs fd daemon t signals) \<Longrightarrow> server_reach env (main_start fd t signals q) []"
| reach_accept: "\<lbrakk>server_reach env st fds;
     main_iter env (Accepted fd s_addr tid) st = Some (Inr (Serving st'))\<rbrakk>
   \<Longrightarrow> server_reach env st' (fds @ [fd])"
| reach_idle: "\<lbrakk>server_reach env st fds; main_iter env (AcceptError e) st = Some (Inr (Serving st'))\<rbrakk>
   \<Longrightarrow> server_reach env st' fds"
| reach_finish: "server_reach env st fds
   \<Longrightarrow> server_reach env (st\<lparr>threads_list := set_complete (threads_list st) a 1\<rparr>) fds"
| reach_signal: "\<lbrakk>server_reach env st fds; deliver_signal n st = Some st'\<rbrakk> \<Longrightarrow> server_reach env st' fds"

definition server_inv :: "main_state \<Rightarrow> int list \<Rightarrow> bool" where
  "server_inv st fds \<longleftrightarrow>
     (\<exists>xs. slist_rep (threads_list st) xs \<and> map fd_of (infos (threads_list st) xs) = fds) \<and>
     set (closed st) \<subseteq> set fds \<and> length (client_log st) = length fds \<and>
     timer_id st = None \<and> (caught_signal st \<longrightarrow> handled st \<noteq> [])"

lemma infos_set_complete:
  "slist_rep q xs \<Longrightarrow> map fd_of (infos (set_complete q a v) xs) = map fd_of (infos q xs)"
  using slist_live[of q xs] by (fastforce simp: infos_def set_complete_data)

lemma main_exit_not_serving: "main_exit env st \<noteq> Some (Inr (Serving st'))"
  by (auto simp: main_exit_def split: option.splits sum.splits)

lemma server_inv_accept:
  assumes "server_inv st fds" "malloc_fresh (m_malloc env)"
    "main_iter env (Accepted fd s_addr tid) st = Some (Inr (Serving st'))"
  shows "server_inv st' (fds @ [fd])"
proof -
  obtain xs where xs: "slist_rep (threads_list st) xs" "map fd_of (infos (threads_list st) xs) = fds"
    "set (closed st) \<subseteq> set fds" "length (client_log st) = length fds" "timer_id st = None"
    "caught_signal st \<longrightarrow> handled st \<noteq> []"
    using assms(1) by (auto simp: server_inv_def)
  have sig: "\<not> caught_signal st"
    using assms(3) main_exit_not_serving by (auto simp: main_iter_def split: if_splits)
  obtain line where line: "log_client (m_order env) (m_rows env) (m_modified env) (m_client_ip env)
      (m_hostview env) s_addr = Inr line"
    using assms(3) sig by (auto simp: main_iter_def split: sum.splits)
  obtain e junk where e: "m_malloc env (threads_list st) = Some (e, junk)"
    using assms(3) sig line by (cases "m_malloc env (threads_list st)") (auto simp: main_iter_def add_slist_entry_def)
  have f: "snodes (threads_list st) e = None" using assms(2) e by (auto simp: malloc_fresh_def)
  define ds where "ds = infos (threads_list st) xs @ [new_thread tid fd]"
  obtain q where q: "st' = st\<lparr>threads_list := q, joined := joined st @ map thread_id (filter finished ds),
      closed := closed st @ map fd_of (filter finished ds), client_log := client_log st @ [line]\<rparr>"
      "slist_rep q (xs @ [e])" "infos q (xs @ [e]) = map (with_complete 0) ds"
    using main_iter_accept[OF xs(1) sig line e f, of fd tid] assms(3) unfolding ds_def by auto
  have fds: "map fd_of ds = fds @ [fd]" using xs(2) by (simp add: ds_def new_thread_def)
  have cl: "set (map fd_of (filter finished ds)) \<subseteq> set (fds @ [fd])"
    unfolding fds[symmetric] by auto
  have "map fd_of (infos q (xs @ [e])) = fds @ [fd]" using q(3) fds by (simp add: comp_def)
  then show ?thesis using q(1,2) cl xs(3-6) by (auto simp: server_inv_def)
qed

lemma server_inv_reach:
  assumes "server_reach env st fds" "malloc_fresh (m_malloc env)"
  shows "server_inv st fds"
  using assms(1)
proof (induction rule: server_reach.induct)
  case (reach_start boot argv fd daemon t signals q)
  then show ?case using main_boot_runs[OF reach_start] by (simp add: server_inv_def main_start_def SLIST_INIT_def slist_rep_def infos_def)
next
  case (reach_accept st fds fd s_addr tid st')
  then show ?case using server_inv_accept[OF _ assms(2)] by blast
next
  case (reach_idle st fds e st')
  then have "st' = st"
    using main_exit_not_serving by (auto simp: main_iter_def split: if_splits)
  then show ?case using reach_idle by simp
next
  case (reach_finish st fds a)
  then show ?case by (auto simp: server_inv_def infos_set_complete slist_rep_def)
next
  case (reach_signal st fds n st')
  then show ?case by (auto simp: server_inv_def deliver_signal_def split: if_splits)
qed

text \<open>
  C15: in every run of the server, however its threads and signals interleave with the accept loop,
  the thread list holds the accepted connections in the order of their acceptance, none is ever
  taken out, only accepted descriptors have been closed, and every connection was logged. The timer
  identifier is never set, and a signal was caught only if a handler could be registered.
\<close>

theorem server_keeps_connections:
  assumes "server_reach env st fds" "malloc_fresh (m_malloc env)"
  shows "\<exists>xs. slist_rep (threads_list st) xs \<and> map fd_of (infos (threads_list st) xs) = fds \<and>
    set (closed st) \<subseteq> set fds \<and> length (client_log st) = length fds \<and>
    timer_id st = None \<and> (caught_signal st \<longrightarrow> handled st \<noteq> [])"
  using server_inv_reach[OF assms] by (auto simp: server_inv_def)


text \<open>
  With the character device the timer is never created, but the exit path deletes it all the same: it
  passes an identifier that was never set, and does what \<open>timer_delete\<close> does with that.
\<close>

lemma exit_deletes_unset_timer:
  assumes "server_reach env st fds" "malloc_fresh (m_malloc env)" "caught_signal st" "m_timer_delete env None = Inl e"
  shows "main_iter env acc st = Some (Inl e)"
  using server_inv_reach[OF assms(1,2)] assms(3,4) by (simp add: server_inv_def main_iter_def main_exit_def)

end
