(* ===== verification/Driver_Scripts.thy ===== *)
theory Driver_Scripts
  imports Driver_Module Server_Threads
begin

text \<open>
  The scripts that bring the system up and down: \<open>aesdchar_load\<close> and \<open>aesdchar_unload\<close>, which load
  and unload the driver and make its device node, and \<open>aesdsocket-start-stop\<close>, which runs the server
  as a daemon. Loading runs \<open>aesd_init_module\<close>, unloading \<open>aesd_cleanup_module\<close>.
\<close>

subsection \<open>Loading and unloading the driver\<close>

record dev_node =
  n_major :: nat
  n_minor :: nat
  n_group :: string
  n_mode :: string

text \<open>The module, whether it is in the kernel and in use, and the node \<^verbatim>\<open>/dev/aesdchar\<close>.\<close>

record driver_sys =
  d_module :: module_state
  d_loaded :: bool
  d_busy :: bool
  d_node :: "dev_node option"

text \<open>
  What the scripts find: a group \<open>staff\<close>, a module file in the folder or one for \<open>modprobe\<close>, the major
  number the kernel chose, and whether \<open>chgrp\<close> accepts a group.
\<close>

record load_env =
  l_staff :: bool
  l_local :: bool
  l_modprobe :: bool
  l_major :: nat
  l_chgrp :: "string \<Rightarrow> bool"

text \<open>
  The kernel keeps a module whose initialisation does not return a negative value. The major number is
  looked up in the list of registered devices; when the module registered none, \<open>mknod\<close> lacks an
  argument and fails, and \<open>set -e\<close> ends the script.
\<close>

definition insert_module :: "init_env \<Rightarrow> driver_sys \<Rightarrow> (bool \<times> driver_sys) res" where
  "insert_module ienv st =
     res_bind (aesd_init_module ienv (d_module st)) (\<lambda>(m, result).
     if sint result < 0 then Inr (False, st\<lparr>d_module := m\<rparr>)
     else Inr (True, st\<lparr>d_module := m, d_loaded := True\<rparr>))"

definition aesdchar_load :: "load_env \<Rightarrow> init_env \<Rightarrow> driver_sys \<Rightarrow> (int \<times> driver_sys) res" where
  "aesdchar_load env ienv st =
     (let group = (if l_staff env then ''staff'' else ''wheel'') in
      if \<not> l_local env \<and> \<not> l_modprobe env \<or> d_loaded st then Inr (1, st)
      else
        res_bind (insert_module ienv st) (\<lambda>(ok, st).
        if \<not> ok then Inr (1, st)
        else let st = st\<lparr>d_node := None\<rparr> in
        if \<not> region (d_module st) then Inr (1, st)
        else let node = \<lparr>n_major = l_major env, n_minor = 0, n_group = ''root'', n_mode = ''644''\<rparr> in
        if \<not> l_chgrp env group then Inr (1, st\<lparr>d_node := Some node\<rparr>)
        else Inr (0, st\<lparr>d_node := Some (node\<lparr>n_group := group, n_mode := ''664''\<rparr>)\<rparr>)))"

definition aesdchar_unload :: "driver_sys \<Rightarrow> (int \<times> driver_sys) res" where
  "aesdchar_unload st =
     (if \<not> d_loaded st \<or> d_busy st then Inr (1, st)
      else
        res_bind (aesd_cleanup_module (d_module st)) (\<lambda>m.
        Inr (0, st\<lparr>d_module := m, d_loaded := False, d_node := None\<rparr>)))"

text \<open>
  Once the module can be found, the memory is there and the registrations succeed, loading ends with
  status 0, a node for the registered device and the empty device behind it.
\<close>

lemma aesdchar_load_ok:
  assumes "kmalloc_ok (i_kmalloc ienv)" "kmalloc_available (i_kmalloc ienv)" "finite_heap (mem (kst (d_module st)))"
    "\<not> sint (i_region ienv) < 0" "i_cdev_add ienv = 0" "\<not> d_loaded st" "l_local env \<or> l_modprobe env"
    "\<forall>g. l_chgrp env g"
  shows "\<exists>m. aesdchar_load env ienv st =
      Inr (0, st\<lparr>d_module := m, d_loaded := True, d_node := Some \<lparr>n_major = l_major env, n_minor = 0,
        n_group = (if l_staff env then ''staff'' else ''wheel''), n_mode = ''664''\<rparr>\<rparr>) \<and>
    aesd_init_module ienv (d_module st) = Inr (m, 0) \<and> refines (kst m) empty_device"
proof -
  obtain m where m: "aesd_init_module ienv (d_module st) = Inr (m, 0)" "refines (kst m) empty_device" "region m"
    using init_module_ready[OF assms(1-5)] by blast
  have "insert_module ienv st = Inr (True, st\<lparr>d_module := m, d_loaded := True\<rparr>)"
    unfolding insert_module_def m(1) by simp
  then have "aesdchar_load env ienv st =
      Inr (0, st\<lparr>d_module := m, d_loaded := True, d_node := Some \<lparr>n_major = l_major env, n_minor = 0,
        n_group = (if l_staff env then ''staff'' else ''wheel''), n_mode = ''664''\<rparr>\<rparr>)"
    unfolding aesdchar_load_def using assms(6-8) m(3) by (simp add: Let_def)
  then show ?thesis using m by blast
qed

text \<open>
  C21: loading and unloading with the scripts. With memory and both registrations, \<open>aesdchar_load\<close>
  ends with status 0 and a node for the device that \<open>aesd_init_module\<close> registered; \<open>aesdchar_unload\<close>
  then ends with status 0, gives all memory of the module back and leaves neither a registration nor
  a node.
\<close>

theorem load_unload_scripts:
  assumes "kmalloc_ok (i_kmalloc ienv)" "kmalloc_available (i_kmalloc ienv)" "finite_heap (mem (kst (d_module st)))"
    "\<not> sint (i_region ienv) < 0" "i_cdev_add ienv = 0" "\<not> d_loaded st" "\<not> d_busy st" "l_local env \<or> l_modprobe env"
    "\<forall>g. l_chgrp env g"
  shows "\<exists>st1 st2 nd. aesdchar_load env ienv st = Inr (0, st1) \<and> refines (kst (d_module st1)) empty_device \<and>
    d_node st1 = Some nd \<and> n_major nd = l_major env \<and> n_minor nd = 0 \<and>
    aesdchar_unload st1 = Inr (0, st2) \<and> mem (kst (d_module st2)) = mem (kst (d_module st)) \<and>
    \<not> region (d_module st2) \<and> \<not> cdev_live (d_module st2) \<and> d_node st2 = None"
proof -
  obtain m m'' where m: "aesd_init_module ienv (d_module st) = Inr (m, 0)" "aesd_cleanup_module m = Inr m''"
      "mem (kst m'') = mem (kst (d_module st))" "\<not> region m''" "\<not> cdev_live m''"
    using init_then_cleanup[OF assms(1-5)] by blast
  obtain m1 nd where l: "aesdchar_load env ienv st = Inr (0, st\<lparr>d_module := m1, d_loaded := True, d_node := Some nd\<rparr>)"
      "aesd_init_module ienv (d_module st) = Inr (m1, 0)" "refines (kst m1) empty_device"
      "n_major nd = l_major env" "n_minor nd = 0"
    using aesdchar_load_ok[OF assms(1-6,8,9)] by force
  have "m1 = m" using l(2) m(1) by simp
  then have "aesdchar_unload (st\<lparr>d_module := m1, d_loaded := True, d_node := Some nd\<rparr>) =
      Inr (0, st\<lparr>d_module := m'', d_loaded := False, d_node := None\<rparr>)"
    using m(2) assms(7) by (simp add: aesdchar_unload_def)
  then show ?thesis using l m(3-5) by (intro exI conjI) (assumption | simp)+
qed

text \<open>
  When a struct cannot be allocated, \<open>aesd_init_module\<close> does not report it: the kernel keeps a module
  without a device. The script notices, because no major number is listed, and ends with status 1,
  but the module stays loaded.
\<close>

lemma aesdchar_load_hidden_failure:
  assumes "kmalloc_ok (i_kmalloc ienv)" "\<not> sint (i_region ienv) < 0"
    "(\<forall>h. i_kmalloc ienv h 168 = None) \<or> (\<forall>h. i_kmalloc ienv h 16 = None)"
    "\<not> d_loaded st" "l_local env \<or> l_modprobe env"
  shows "\<exists>st'. aesdchar_load env ienv st = Inr (1, st') \<and> d_loaded st' \<and> d_node st' = None"
proof -
  obtain m where m: "aesd_init_module ienv (d_module st) = Inr (m, i_region ienv)" "\<not> region m"
    using aesd_init_module_hides_failure[OF assms(1-3)] by blast
  have "insert_module ienv st = Inr (True, st\<lparr>d_module := m, d_loaded := True\<rparr>)"
    unfolding insert_module_def m(1) using assms(2) by simp
  then show ?thesis using assms(4,5) m(2) by (simp add: aesdchar_load_def Let_def)
qed

subsection \<open>Starting and stopping the server\<close>

text \<open>What the script asks \<open>start-stop-daemon\<close> to do, and its exit status, which does not depend on the outcome.\<close>

datatype service_action = StartDaemon "string list" | StopDaemon string

definition aesdsocket_start_stop :: "string \<Rightarrow> int \<times> service_action option" where
  "aesdsocket_start_stop arg =
     (if arg = ''start'' then (0, Some (StartDaemon [''/usr/bin/aesdsocket'', ''-d'']))
      else if arg = ''stop'' then (0, Some (StopDaemon ''aesdsocket''))
      else (1, None))"

text \<open>Starting makes \<open>main\<close> ask for a daemon: its child process serves the bound socket.\<close>

lemma service_starts_daemon:
  assumes "aesdsocket_start_stop ''start'' = (r, Some (StartDaemon argv))"
    "b_getaddrinfo env = 0" "bind_loop None (b_addrs env) = Some fd" "b_listen env fd = 0" "b_fork env = 0"
  shows "main_boot env argv = Inr (Runs fd True None (setup_signals env))"
  using assms by (auto simp: aesdsocket_start_stop_def main_boot_def wants_daemon_def setup_timer_def USE_AESD_CHAR_DEVICE_def
      Let_def)

end
