(* ===== verification/Driver_Witnesses.thy ===== *)
theory Driver_Witnesses
  imports Driver_Traces
begin

text \<open>
  Concrete device states, and for each property of the driver that has hypotheses an instance of
  it on such a state. The kernel is played by the allocators of \<open>Kernel_Heap\<close>.
\<close>

subsection \<open>Two stored commands\<close>

definition line :: "string \<Rightarrow> string" where
  "line s = s @ [newline]"

definition sample_entries :: "aesd_buffer_entry list" where
  "sample_entries = [\<lparr>buffptr = Ptr 3, esize = 3\<rparr>, \<lparr>buffptr = Ptr 4, esize = 2\<rparr>]"

definition sample_ring :: aesd_circular_buffer where
  "sample_ring = foldl cb_push
     (aesd_circular_buffer_init \<lparr>entry = [], in_offs = 0, out_offs = 0, full = False\<rparr>) sample_entries"

definition sample_mem :: kmem where
  "sample_mem = \<lparr>chars = [3 \<mapsto> line ''ab'' @ [NUL], 4 \<mapsto> line ''c'' @ [NUL]],
     ents = [2 \<mapsto> null_entry], cbufs = [1 \<mapsto> sample_ring]\<rparr>"

definition sample_state :: kstate where
  "sample_state = \<lparr>mem = sample_mem,
     dev = zero_dev\<lparr>buffer := Ptr 1, buffer_entry := Ptr 2\<rparr>\<rparr>"

definition sample_spec :: dev_spec where
  "sample_spec = \<lparr>hist = [line ''ab'', line ''c''], pending = [], psize = 0\<rparr>"

definition sample_file :: "loff_t \<Rightarrow> kfile" where
  "sample_file pos = \<lparr>private_data = TheDev, f_pos = pos\<rparr>"

lemma sample_file_simps [simp]: "private_data (sample_file pos) = TheDev" "f_pos (sample_file pos) = pos"
  by (simp_all add: sample_file_def)

lemma sample_list: "cb_wf sample_ring" "cb_list sample_ring = sample_entries"
  using ring.run_invar[OF cb_wf_init, of sample_entries] ring.run_from_empty[of sample_entries]
  by (simp_all add: sample_ring_def sample_entries_def keep_last_id)

lemma sample_entry_ok:
  "entry_ok sample_mem \<lparr>buffptr = Ptr 3, esize = 3\<rparr>" "entry_ok sample_mem \<lparr>buffptr = Ptr 4, esize = 2\<rparr>"
  unfolding entry_ok_def
  by (rule exI[of _ 3], rule exI[of _ "line ''ab''"], rule exI[of _ "[]"], simp add: sample_mem_def line_def)
    (rule exI[of _ 4], rule exI[of _ "line ''c''"], rule exI[of _ "[]"], simp add: sample_mem_def line_def)

lemma sample_cb_mem: "cb_mem sample_mem sample_ring"
  using sample_list sample_entry_ok by (simp add: cb_mem_def sample_entries_def)

lemma sample_strings: "cb_strings sample_mem sample_ring = [line ''ab'', line ''c'']"
  by (simp add: cb_strings_def sample_list sample_entries_def entry_string_def sample_mem_def line_def)

lemma sample_refines: "refines sample_state sample_spec"
  using sample_cb_mem sample_strings
  by (auto simp: refines_def dev_core_def sample_state_def sample_spec_def zero_dev_def sample_mem_def finite_heap_def)

subsection \<open>A command under construction\<close>

definition pending_state :: kstate where
  "pending_state = \<lparr>mem = sample_mem\<lparr>chars := (chars sample_mem)(5 \<mapsto> ''xy'' @ [NUL]),
       ents := [2 \<mapsto> \<lparr>buffptr = Ptr 5, esize = 3\<rparr>]\<rparr>,
     dev = zero_dev\<lparr>buffer := Ptr 1, buffer_entry := Ptr 2, first_packet := 1\<rparr>\<rparr>"

definition pending_spec :: dev_spec where
  "pending_spec = sample_spec\<lparr>pending := ''xy'', psize := 3\<rparr>"

lemma pending_mem:
  shows pending_addr: "5 \<notin> cb_addrs sample_ring"
    and pending_cb_mem: "cb_mem (mem pending_state) sample_ring"
    and pending_strings: "cb_strings (mem pending_state) sample_ring = hist sample_spec"
proof -
  show a: "5 \<notin> cb_addrs sample_ring" by (simp add: cb_addrs_def sample_list sample_entries_def)
  show "cb_mem (mem pending_state) sample_ring" "cb_strings (mem pending_state) sample_ring = hist sample_spec"
    using cb_mem_upd[OF sample_cb_mem a, of "Some (''xy'' @ [NUL])"] sample_strings
    by (simp_all add: pending_state_def sample_spec_def)
qed

lemma pending_refines: "refines pending_state pending_spec"
proof -
  have "pending_block (mem pending_state) sample_ring \<lparr>buffptr = Ptr 5, esize = 3\<rparr> ''xy'' 3"
    using pending_addr by (simp add: pending_block_def pending_state_def)
  then show ?thesis
    using pending_cb_mem pending_strings
    by (auto simp: refines_def dev_core_def pending_state_def pending_spec_def sample_spec_def zero_dev_def
        sample_mem_def finite_heap_def)
qed

subsection \<open>Environments\<close>

definition good_write :: "string \<Rightarrow> write_env" where
  "good_write bytes = \<lparr>w_interrupted = False, w_kmalloc = first_fit, w_krealloc = first_fit_re,
     w_copy = (\<lambda>n. Some bytes)\<rparr>"

definition good_read :: read_env where
  "good_read = \<lparr>r_interrupted = False, r_kmalloc = first_fit, r_copy_ok = (\<lambda>_. True)\<rparr>"

text \<open>An allocator that refuses requests of one size.\<close>

definition refuse :: "nat \<Rightarrow> kmalloc" where
  "refuse k h n = (if n = k then None else first_fit h n)"

lemma refuse_ok: "kmalloc_ok (refuse k)"
proof (unfold kmalloc_ok_def, intro allI impI)
  fix h n a bs
  assume "refuse k h n = Some (a, bs)"
  then have "first_fit h n = Some (a, bs)" by (simp add: refuse_def split: if_splits)
  then show "length bs = n \<and> n < 2 ^ 31 \<and> (if n = 0 then fresh h a \<or> chars h a = Some [] else fresh h a)"
    using first_fit_ok unfolding kmalloc_ok_def by blast
qed

lemma good_write_simps [simp]:
  "write_env_ok (good_write bs)" "write_env_available (good_write bs)" "\<not> w_interrupted (good_write bs)"
  "w_copy (good_write bs) n = Some bs"
  using first_fit_ok first_fit_available first_fit_re_ok first_fit_re_available
  by (simp_all add: good_write_def write_env_ok_def write_env_available_def)

lemma good_read_good [simp]: "read_env_good good_read"
  using first_fit_ok first_fit_available by (simp add: good_read_def read_env_good_def)

lemma sample_readable [simp]: "readable sample_spec"
  by (simp add: readable_def sample_spec_def line_def KMALLOC_MAX_SIZE_def)

lemma first_fit_some: "finite_heap h \<Longrightarrow> n < 2 ^ 22 \<Longrightarrow> first_fit h n \<noteq> None"
  using first_fit_available by (simp add: kmalloc_available_def KMALLOC_MAX_SIZE_def)

lemma sample_heaps [simp]: "finite_heap (mem sample_state)" "finite_heap (mem pending_state)"
  using sample_refines pending_refines by (auto simp: refines_def dev_core_def)

lemma sample_dev [simp]:
  "first_packet (dev sample_state) = 0" "\<not> lock (dev sample_state)" "first_packet (dev pending_state) = 1"
  by (simp_all add: sample_state_def pending_state_def zero_dev_def)

lemma text_of_line [simp]: "NUL \<notin> set s \<Longrightarrow> text_of (line s) = line s"
  by (auto simp: text_of_def line_def)

subsection \<open>Instances\<close>

theorem find_entry_offset_witness:
  "\<exists>i off. aesd_circular_buffer_find_entry_offset_for_fpos sample_ring 3 =
      Some (Inr (sample_ring, Some (i, off))) \<and>
    entry_string sample_mem (entry sample_ring ! unat i) ! unat off = CHR ''c''"
  using find_entry_offset_correct[OF sample_cb_mem, of 3]
  by (auto simp: sample_strings line_def split: option.splits)

theorem find_terminates_witness:
  "\<exists>r. aesd_circular_buffer_find_entry_offset_for_fpos
       \<lparr>entry = replicate 10 \<lparr>buffptr = Null, esize = - 1\<rparr>, in_offs = 0, out_offs = 9, full = False\<rparr> 5 =
     Some (Inr (\<lparr>entry = replicate 10 \<lparr>buffptr = Null, esize = - 1\<rparr>, in_offs = 0, out_offs = 9, full = False\<rparr>, r))"
  by (rule find_entry_offset_terminates) simp_all

lemma pending_blocks:
  "chars (mem pending_state) 5 = Some (''xy'' @ NUL # [])" "finite_heap (mem pending_state)"
  "length (cb_list sample_ring) = 2"
  by (simp_all add: pending_state_def sample_mem_def finite_heap_def sample_list sample_entries_def)

theorem add_entry_keeps_witness:
  "\<exists>h' b'. aesd_circular_buffer_add_entry first_fit (mem pending_state) sample_ring \<lparr>buffptr = Ptr 5, esize = 3\<rparr> =
      Inr (h', b', Null) \<and> cb_mem h' b' \<and> cb_strings h' b' = [line ''ab'', line ''c'', ''xy'']"
  using add_entry_keeps_last_ten[OF first_fit_ok pending_cb_mem _ pending_blocks(1), of "\<lparr>buffptr = Ptr 5, esize = 3\<rparr>"]
    pending_addr first_fit_some[OF pending_blocks(2), of "Suc (Suc 0)"]
  by (simp add: pending_blocks(3) pending_strings sample_spec_def keep_last_id)

theorem add_entry_leaks_witness:
  "\<exists>h' b' p a'. aesd_circular_buffer_add_entry first_fit (mem pending_state) sample_ring \<lparr>buffptr = Ptr 5, esize = 3\<rparr> =
      Inr (h', b', p) \<and> chars h' a' \<noteq> None \<and> fresh (mem pending_state) a' \<and> a' \<notin> cb_addrs b' \<and> p \<noteq> Ptr a'"
  using add_entry_leaks[OF first_fit_ok pending_cb_mem _ pending_blocks(1), of "\<lparr>buffptr = Ptr 5, esize = 3\<rparr>"]
    pending_addr first_fit_some[OF pending_blocks(2), of "Suc (Suc 0)"]
  by simp

theorem ring_holds_last_ten_witness:
  "cb_list (foldl cb_push (aesd_circular_buffer_init sample_ring) (map (\<lambda>i. \<lparr>buffptr = Ptr i, esize = 1\<rparr>) [1..<13])) =
     map (\<lambda>i. \<lparr>buffptr = Ptr i, esize = 1\<rparr>) [3..<13]"
  using ring_holds_last_ten[of "map (\<lambda>i. \<lparr>buffptr = Ptr i, esize = 1\<rparr>) [1..<13]" sample_ring]
  by (simp add: keep_last_def list_all_iff drop_map numeral_3_eq_3 del: upt_rec_numeral)

theorem get_aesd_buffer_length_witness: "unat (get_aesd_buffer_length sample_ring) = 5"
  using get_aesd_buffer_length_total[OF sample_cb_mem] by (simp add: sample_strings line_def)

theorem foreach_visits_witness:
  "rotate (unat (out_offs sample_ring)) (AESD_CIRCULAR_BUFFER_FOREACH (\<lambda>e es. es @ [e]) sample_ring []) =
     sample_entries @ replicate 8 null_entry"
  using foreach_visits_stored[OF sample_list(1)] by (simp add: sample_list(2) sample_entries_def)

theorem aesd_write_refines_witness:
  "refines sample_state sample_spec \<and>
   (\<exists>s'. aesd_write (good_write (line ''d'')) sample_state (sample_file 7) 2 =
      Inr (s', (sample_file 7)\<lparr>f_pos := 10\<rparr>, 2) \<and>
    refines s' \<lparr>hist = [line ''ab'', line ''c'', line ''d''], pending = [], psize = 0\<rparr>)"
  using aesd_write_refines[OF sample_refines, of "good_write (line ''d'')" "sample_file 7" 2 "line ''d''"]
    sample_refines
  by (simp add: spec_write_cases sample_spec_def line_def text_of_def KMALLOC_MAX_SIZE_def keep_last_def)

theorem aesd_read_refines_witness:
  "\<exists>s'. aesd_read good_read sample_state (sample_file 4) 1024 =
      Inr (s', (sample_file 4)\<lparr>f_pos := 5\<rparr>, 1, [newline, NUL]) \<and> refines s' sample_spec \<and> mem s' = mem sample_state"
  using aesd_read_refines[OF sample_refines good_read_good sample_readable, of "sample_file 4" 1024]
  by (simp add: spec_read_def sample_spec_def line_def)

theorem aesd_write_failure_witness:
  "aesd_write ((good_write [])\<lparr>w_copy := (\<lambda>n. None)\<rparr>) sample_state (sample_file 0) 4 =
     Inr (sample_state, sample_file 0, - EFAULT)"
  using aesd_write_failure_atomic[of "(good_write [])\<lparr>w_copy := (\<lambda>n. None)\<rparr>" sample_state "sample_file 0" 4]
    first_fit_ok first_fit_some[of "mem sample_state" 32]
  by (simp add: good_write_def)

theorem aesd_write_zero_length_witness:
  "\<exists>w bs. first_fit (mem sample_state) 0 = Some (w, bs) \<and>
     aesd_write (good_write []) sample_state (sample_file 0) 0 = Inl OutOfBounds"
proof -
  obtain w bs where "first_fit (mem sample_state) 0 = Some (w, bs)"
    using first_fit_some[of "mem sample_state" 0] by auto
  then show ?thesis
    using aesd_write_zero_length[of "good_write []" sample_state "sample_file 0" w bs] first_fit_ok
    by (simp add: good_write_def)
qed

theorem aesd_write_first_alloc_witness:
  "aesd_write ((good_write (line ''d''))\<lparr>w_kmalloc := refuse 3\<rparr>) sample_state (sample_file 0) 2 = Inl NullDeref"
  using aesd_write_first_alloc_null[OF sample_refines, of "(good_write (line ''d''))\<lparr>w_kmalloc := refuse 3\<rparr>"
      2 "sample_file 0" "line ''d''"] refuse_ok first_fit_some[of "mem sample_state" 16]
  by (simp add: good_write_def refuse_def line_def text_of_def)

theorem aesd_write_realloc_witness:
  "\<exists>s' ae be a r. aesd_write ((good_write (line ''d''))\<lparr>w_krealloc := (\<lambda>h a n. None)\<rparr>) pending_state (sample_file 0) 2 =
      Inr (s', sample_file 0, - ENOMEM) \<and> \<not> lock (dev s') \<and>
    buffer_entry (dev s') = Ptr ae \<and> ents (mem s') ae = Some be \<and> buffptr be = Null \<and>
    chars (mem s') a = Some (''xy'' @ NUL # r) \<and> (\<forall>d'. \<not> refines s' d')"
  using aesd_write_realloc_loses_command[OF pending_refines,
      of "(good_write (line ''d''))\<lparr>w_krealloc := (\<lambda>h a n. None)\<rparr>" 2 "sample_file 0" "line ''d''"]
    first_fit_ok first_fit_some[of "mem pending_state" 16]
  by (simp add: good_write_def pending_spec_def line_def)

theorem aesd_write_drops_witness:
  "\<exists>s'. aesd_write ((good_write (line ''d''))\<lparr>w_kmalloc := refuse 2\<rparr>) sample_state (sample_file 0) 2 =
      Inr (s', (sample_file 0)\<lparr>f_pos := 3\<rparr>, 2) \<and> refines s' sample_spec"
proof -
  let ?env = "(good_write (line ''d''))\<lparr>w_kmalloc := refuse 2\<rparr>"
  have "append_memory ?env h 3" if "finite_heap h" for h
    using first_fit_some[OF that, of 3] by (simp add: append_memory_def good_write_def refuse_def first_fit_re_def)
  then show ?thesis
    using aesd_write_drops_command[OF sample_refines, of ?env 2 "sample_file 0" "line ''d''"]
      refuse_ok first_fit_re_ok first_fit_some[of "mem sample_state" 16]
    by (simp add: write_env_ok_def good_write_def refuse_def sample_spec_def line_def text_of_def numeral_3_eq_3)
qed

theorem aesd_read_no_memory_witness:
  "\<exists>s'. aesd_read (good_read\<lparr>r_kmalloc := (\<lambda>h n. None)\<rparr>) sample_state (sample_file 0) 1024 =
      Inr (s', (sample_file 0)\<lparr>f_pos := 3\<rparr>, 3, []) \<and> refines s' sample_spec"
  using aesd_read_no_memory[OF sample_refines, of "good_read\<lparr>r_kmalloc := (\<lambda>h n. None)\<rparr>" "sample_file 0" 1024]
  by (simp add: good_read_def spec_read_def sample_spec_def line_def)

lemma sample_ring_offs: "ring_offs sample_state = 0"
proof -
  from sample_list(1) have "out_offs sample_ring = 0"
  proof (cases rule: cb_wf_cases)
    case full
    then have "length (cb_list sample_ring) = 10" using cb_list_full[OF sample_list(1)] sample_list(1) by simp
    then show ?thesis by (simp add: sample_list(2) sample_entries_def)
  qed
  then show ?thesis by (simp add: ring_offs_def sample_state_def sample_mem_def zero_dev_def)
qed

theorem aesd_ioctl_seek_witness:
  "aesd_ioctl False sample_state (sample_file 0) AESDCHAR_IOCSEEKTO (Some (seek_cmd (of_nat 1) (of_nat 1))) =
     Inr (sample_state, (sample_file 0)\<lparr>f_pos := 4\<rparr>, 0)"
  using aesd_ioctl_seek[OF sample_refines, of "sample_file 0" 1 1]
  by (simp add: sample_ring_offs) (simp add: sample_spec_def line_def)

theorem aesd_ioctl_refuses_witness:
  "aesd_ioctl False sample_state (sample_file 0) AESDCHAR_IOCSEEKTO (Some (seek_cmd (of_nat 2) 0)) =
     Inr (sample_state, sample_file 0, - EINVAL)"
  using aesd_ioctl_refuses[OF sample_refines, of "sample_file 0" 2 0] by (simp add: sample_spec_def)

theorem aesd_ioctl_foreign_witness:
  "aesd_ioctl False sample_state (sample_file 0) AESDCHAR_IOCSEEKTO (Some (seek_cmd 12 0)) = Inl BadUnlock"
  using aesd_ioctl_unlocks_foreign_lock[of "sample_file 0" 12 False sample_state 0] by simp

theorem aesd_seek_witness:
  "aesd_seek seek_result sample_state (sample_file 0) (- 2) 2 = Inr ((sample_file 0)\<lparr>f_pos := 3\<rparr>, 3) \<and>
   aesd_seek seek_result sample_state (sample_file 0) 6 0 = Inr ((sample_file 0)\<lparr>f_pos := - EINVAL\<rparr>, - EINVAL)"
proof -
  have ok: "llseek_ok seek_result" by (simp add: llseek_ok_def)
  have "sint (- 2 :: loff_t) = - 2" "sint (6 :: loff_t) = 6" by simp_all
  then show ?thesis
    using aesd_seek_total[OF sample_refines ok, of "sample_file 0" 2 "- 2"]
      aesd_seek_total[OF sample_refines ok, of "sample_file 0" 0 6]
    by (simp add: seek_target_def sample_spec_def line_def)
qed

subsection \<open>Loading\<close>

definition empty_mem :: kmem where
  "empty_mem = \<lparr>chars = Map.empty, ents = Map.empty, cbufs = Map.empty\<rparr>"

definition unloaded :: module_state where
  "unloaded = \<lparr>kst = \<lparr>mem = empty_mem, dev = zero_dev\<rparr>, region = False, cdev_live = False\<rparr>"

definition good_init :: init_env where
  "good_init = \<lparr>i_region = 0, i_cdev_add = 0, i_kmalloc = first_fit,
     i_junk_cbuf = \<lparr>entry = [], in_offs = 7, out_offs = 200, full = True\<rparr>, i_junk_entry = \<lparr>buffptr = Ptr 9, esize = 5\<rparr>\<rparr>"

lemma good_init_simps [simp]:
  "kmalloc_ok (i_kmalloc good_init)" "kmalloc_available (i_kmalloc good_init)" "i_region good_init = 0"
  "i_cdev_add good_init = 0" "finite_heap (mem (kst unloaded))"
  using first_fit_ok first_fit_available by (simp_all add: good_init_def unloaded_def empty_mem_def finite_heap_def)

theorem aesd_init_module_witness:
  "\<exists>m'. aesd_init_module good_init unloaded = Inr (m', 0) \<and> refines (kst m') empty_device \<and> region m' \<and> cdev_live m'"
  by (rule aesd_init_module_establishes) simp_all

theorem aesd_init_module_hides_failure_witness:
  "\<exists>m'. aesd_init_module (good_init\<lparr>i_kmalloc := refuse 16\<rparr>) unloaded = Inr (m', 0) \<and>
    mem (kst m') = empty_mem \<and> \<not> region m' \<and> \<not> cdev_live m'"
  using aesd_init_module_hides_failure[of "good_init\<lparr>i_kmalloc := refuse 16\<rparr>" unloaded] refuse_ok
  by (simp add: refuse_def unloaded_def)

theorem aesd_cleanup_after_read_witness:
  "\<exists>s' filp' n out. aesd_read good_read sample_state (sample_file 0) 1024 = Inr (s', filp', n, out) \<and>
    aesd_cleanup_module \<lparr>kst = s', region = True, cdev_live = True\<rparr> = Inl BadFree"
  by (rule aesd_cleanup_after_read[OF sample_refines good_read_good sample_readable])
    (simp_all add: spec_read_def sample_spec_def line_def)

text \<open>A run on the device just loaded: one command is written.\<close>

lemma one_write_run:
  defines "s \<equiv> loaded empty_mem 1 2 3" and "ops \<equiv> [OpWrite (line ''d'')]"
  shows "refines s empty_device" "8 * traffic ops < KMALLOC_MAX_SIZE" "\<exists>s'. dev_run s ops s'"
    "spec_run ops empty_device = Some \<lparr>hist = [line ''d''], pending = [], psize = 0\<rparr>" "completed ops = 1"
proof -
  show r: "refines s empty_device"
    unfolding s_def by (rule loaded_refines) (simp add: empty_mem_def finite_heap_def)
  have pre: "(0::nat) < unat (2 :: size_t)" "8 * unat (2 :: size_t) < KMALLOC_MAX_SIZE" "length (line ''d'') = unat (2 :: size_t)"
    "psize empty_device + length (text_of (line ''d'')) + 1 < KMALLOC_MAX_SIZE"
    by (simp_all add: KMALLOC_MAX_SIZE_def line_def text_of_def empty_device_def)
  obtain s' f' where w: "aesd_write (good_write (line ''d'')) s (sample_file 0) 2 = Inr (s', f', 2)"
    using write_call[OF r good_write_simps(1-3) sample_file_simps(1)[of 0] pre(1,2) good_write_simps(4) pre(3,4)] by blast
  have "dev_step s (OpWrite (line ''d'')) s'"
    by (rule step_write[OF good_write_simps(1-3) sample_file_simps(1) pre(1,2) good_write_simps(4) pre(3) w])
  from run_snoc[OF run_nil this] show "\<exists>s'. dev_run s ops s'" unfolding ops_def by auto
  show "8 * traffic ops < KMALLOC_MAX_SIZE" by (simp add: ops_def traffic_def line_def KMALLOC_MAX_SIZE_def)
  show "spec_run ops empty_device = Some \<lparr>hist = [line ''d''], pending = [], psize = 0\<rparr>" "completed ops = 1"
    by (simp_all add: ops_def spec_write_cases empty_device_def line_def text_of_def keep_last_def completed_def)
qed



end
