(* ===== verification/System_Witnesses.thy ===== *)
theory System_Witnesses
  imports Server_Interleaving Driver_Scripts Driver_Witnesses
begin

text \<open>
  The properties of concurrent connections at a device that holds two commands, with two clients:
  one sends its packet in two chunks, the other in one; and those of the scripts that load the driver.
\<close>

definition idle_libc :: "dworld os" where
  "idle_libc = \<lparr>os_open = \<lambda>p w. (3, w), os_close = \<lambda>fd w. w, os_read = \<lambda>fd n w. (Done 0 [], w),
     os_recv = \<lambda>fd n w. (Done 0 [], w), os_write = \<lambda>fd bs w. (Done 0 [], w), os_ioctl = \<lambda>fd c s w. (0, w),
     os_malloc = \<lambda>n w. (None, w), os_strftime = \<lambda>n w. ([NUL], w)\<rparr>"

definition two_clients :: "string list list" where
  "two_clients = [[''he'', line ''llo''], [line ''x'']]"

definition mixed_log :: log where
  "mixed_log = [(0, ''he''), (1, line ''x'')]"

lemma sample_ready: "device_ready good_read (good_write [])"
  by (simp add: device_ready_def)

lemma sample_short: "short sample_spec"
  by (simp add: short_def sample_spec_def line_def READ_WRITE_SIZE_def)

lemma two_clients_packets: "list_all packet two_clients"
  by (simp add: two_clients_def ordinary_def special_string_def READ_WRITE_SIZE_def line_def)

lemma two_clients_fit: "fits sample_spec two_clients"
  by (simp add: fits_def two_clients_def sample_spec_def line_def READ_WRITE_SIZE_def KMALLOC_MAX_SIZE_def)

lemma mixed_log_shuffles: "shuffles two_clients mixed_log"
  by (auto simp: shuffles_def two_clients_def mixed_log_def chunks_of_def less_Suc_eq)

lemmas two_clients_hyps = sample_ready sample_refines sample_short two_clients_fit two_clients_packets

text \<open>A connection that the client resets: nothing is stored, and an empty file is sent back.\<close>

definition reset_os :: "unit os" where
  "reset_os = \<lparr>os_open = \<lambda>p w. (3, w), os_close = \<lambda>fd w. w, os_read = \<lambda>fd n w. (Done 0 [], w),
     os_recv = \<lambda>fd n w. (Fail 104, w), os_write = \<lambda>fd bs w. (Done 0 [], w), os_ioctl = \<lambda>fd c s w. (0, w),
     os_malloc = \<lambda>n w. (None, w), os_strftime = \<lambda>n w. ([NUL], w)\<rparr>"

lemma reset_result:
  "data_processor reset_os \<lparr>connected_skt_fd = 5, thread_complete = 0\<rparr> False () =
   Some (Inr (\<lparr>connected_skt_fd = 5, thread_complete = 1\<rparr>, False, ()))"
  by (simp add: data_processor_def receive_and_write_to_file_def read_file_and_send_def reset_os_def
      receive_loop.simps send_file_loop.simps mem_write_def)


theorem concurrent_clients_witness:
  "\<exists>s. creach idle_libc good_read (good_write []) (conc_start sample_state two_clients) mixed_log s \<and>
    refines (c_kern s) (device_after sample_spec mixed_log) \<and>
    (\<forall>i e. cstep idle_libc good_read (good_write []) s i \<noteq> Some (Inl e))"
  using interleaving_happens[OF two_clients_hyps mixed_log_shuffles, of idle_libc]
    concurrent_clients[OF two_clients_hyps, of idle_libc mixed_log] by blast


theorem interleavings_exact_witness:
  "\<exists>s. creach idle_libc good_read (good_write []) (conc_start sample_state two_clients) mixed_log s"
  using interleavings_exact[OF two_clients_hyps, of idle_libc mixed_log] mixed_log_shuffles by blast

theorem packets_can_mix_witness:
  "\<exists>s. creach idle_libc good_read (good_write []) (conc_start sample_state [[''he'', line ''llo''], [line ''x'']])
      [(0, ''he''), (1, line ''x'')] s \<and>
    refines (c_kern s) (sample_spec\<lparr>hist := [line ''ab'', line ''c'', line ''hex'']\<rparr>)"
  using packets_can_mix[OF sample_ready sample_refines sample_short two_clients_fit[unfolded two_clients_def], of idle_libc]
    two_clients_packets
  by (simp add: two_clients_def sample_spec_def line_def keep_last_def)

definition plain_load :: load_env where
  "plain_load = \<lparr>l_staff = False, l_local = True, l_modprobe = False, l_major = 240, l_chgrp = \<lambda>_. True\<rparr>"

definition no_driver :: driver_sys where
  "no_driver = \<lparr>d_module = unloaded, d_loaded = False, d_busy = False, d_node = None\<rparr>"

lemma no_driver_simps [simp]:
  "d_module no_driver = unloaded" "\<not> d_loaded no_driver" "\<not> d_busy no_driver" "l_local plain_load" "l_chgrp plain_load g"
  "l_major plain_load = 240"
  by (simp_all add: no_driver_def plain_load_def)

theorem load_unload_scripts_witness:
  "\<exists>st1 st2 nd. aesdchar_load plain_load good_init no_driver = Inr (0, st1) \<and> d_node st1 = Some nd \<and>
     n_major nd = 240 \<and> aesdchar_unload st1 = Inr (0, st2) \<and> mem (kst (d_module st2)) = empty_mem \<and> d_node st2 = None"
proof -
  have "mem (kst (d_module no_driver)) = empty_mem" "finite_heap empty_mem"
    by (simp_all add: unloaded_def empty_mem_def finite_heap_def)
  then show ?thesis using load_unload_scripts[of good_init no_driver plain_load] by auto
qed

end
