(* ===== verification/Server_Errors.thy ===== *)
theory Server_Errors
  imports Server_Contract
begin

text \<open>
  What the connection thread and the timestamp logger do when a system call fails: the mutex that
  a failed write leaves locked, the receive loop after the client has closed, and the seek command,
  whose copy does not fit the block allocated for it.
\<close>

subsection \<open>Failed writes and the mutex\<close>

lemma store_loop_locked: "store_loop os skt fd buf n True w = Some (Inl SelfDeadlock)"
  by (subst store_loop.simps) (simp add: pthread_lock_def)

text \<open>
  A failed write of a received chunk never releases the mutex. After \<open>EINTR\<close> the thread locks
  the mutex it holds and deadlocks; after any other error it goes on with the mutex locked.
\<close>

theorem store_write_failure:
  assumes "quiet_buffer buf" "ordinary c" "os_write os fd c w = (Fail e, w')"
  shows "store_loop os skt fd (c @ drop (length c) buf) (length c) False w =
    Some (if e = E_INTR then Inl SelfDeadlock else Inr (Stored True w'))"
proof -
  note rc = received_chunk[OF assms(1,2)]
  from rc(2,4) assms(3) show ?thesis
    by (subst store_loop.simps) (auto simp: pthread_lock_def store_loop_locked)
qed

text \<open>
  The timestamp logger deadlocks after every failed write, whatever the error, and otherwise
  appends the formatted line and releases the mutex.
\<close>

theorem timestamp_logger_outcome:
  assumes "os_open os WRITE_FILE w = (fd, w1)" "os_strftime os 256 w1 = (s @ NUL # r, w2)" "NUL \<notin> set s"
    "os_write os fd s w2 = (res, w3)"
  shows "timestamp_logger os False w =
    (case res of Fail _ \<Rightarrow> Some (Inl SelfDeadlock) | Done _ _ \<Rightarrow> Some (Inr (False, os_close os fd w3)))"
proof -
  have locked: "logger_loop os fd s True w' = Some (Inl SelfDeadlock)" for w'
    by (subst logger_loop.simps) (simp add: pthread_lock_def)
  then have "logger_loop os fd s False w2 =
      (case res of Fail _ \<Rightarrow> Some (Inl SelfDeadlock) | Done _ _ \<Rightarrow> Some (Inr (False, w3)))"
    using assms(4) by (subst logger_loop.simps) (simp add: pthread_lock_def pthread_unlock_def split: io.split)
  then show ?thesis using assms(1-3) by (simp add: timestamp_logger_def split: io.split)
qed

subsection \<open>A closed connection\<close>

lemma receive_loop_closed:
  assumes "os_recv os skt READ_WRITE_SIZE w = (Done 0 bs, w)"
  shows "receive_loop os skt fd buf held w \<noteq> Some y"
proof
  assume "receive_loop os skt fd buf held w = Some y"
  then have "os_recv os skt READ_WRITE_SIZE w = (Done 0 bs, w) \<longrightarrow> False"
  proof (rule receive_loop.raw_induct[rotated])
    fix rl :: "'a os \<Rightarrow> int \<Rightarrow> int \<Rightarrow> string \<Rightarrow> bool \<Rightarrow> 'a \<Rightarrow> (int \<times> bool \<times> 'a) res option"
      and os :: "'a os" and skt fd buf held w y
    show "os_recv os skt READ_WRITE_SIZE w = (Done 0 bs, w) \<longrightarrow> False"
      if "\<And>os skt fd buf held w y. rl os skt fd buf held w = Some y \<Longrightarrow>
            os_recv os skt READ_WRITE_SIZE w = (Done 0 bs, w) \<longrightarrow> False"
        and "(case os_recv os skt READ_WRITE_SIZE w of
           (Fail e, w) \<Rightarrow> if e = E_INTR then rl os skt fd buf held w else Some (Inr (0, held, w))
         | (Done bytes_read bs, w) \<Rightarrow>
             if bytes_read = 0 then rl os skt fd buf held w
             else
               (case mem_write buf 0 bs of
                  Inl e \<Rightarrow> Some (Inl e)
                | Inr buf \<Rightarrow>
                    (case c_strchr buf newline of
                       Inl e \<Rightarrow> Some (Inl e)
                     | Inr found \<Rightarrow>
                         (case store_loop os skt fd buf bytes_read held w of
                            None \<Rightarrow> None
                          | Some (Inl e) \<Rightarrow> Some (Inl e)
                          | Some (Inr (Stored held w)) \<Rightarrow>
                              if found = None then rl os skt fd buf held w else Some (Inr (0, held, w))
                          | Some (Inr (Seeked held w)) \<Rightarrow> Some (Inr (1, held, w)))))) = Some y"
      using that by auto
  qed
  then show False using assms by simp
qed


subsection \<open>The seek command\<close>

text \<open>
  C40: every seek command with at most five characters after the colon, its newline included,
  faults: the five-byte copy overruns the block when there are fewer than five, and leaves it
  without a terminator when there are five. A one-digit command with a one- or two-digit offset is
  such a seek.
\<close>

theorem parse_seek_overruns:
  assumes "os_malloc os (length t) w = (Some blk, w1)" "length blk = length t"
    "NUL \<notin> set t" "length t \<le> 5"
  shows "parse_seek os (special_string @ t @ NUL # r) w = Inl OutOfBounds"
proof -
  have sp: "NUL \<notin> set special_string" "length special_string = 19" by (simp_all add: special_string_def)
  have len: "c_strlen (special_string @ t @ NUL # r) = Inr (19 + length t)"
    using c_strlen_app[of "special_string @ t" r] sp assms(3) by simp
  obtain w2 blk2 where w2: "os_malloc os (length t) w1 = (blk2, w2)" by fastforce
  have cp: "res_bind (c_strncpy blk (t @ NUL # r) 5) (\<lambda>temp. res_bind (c_string temp) (f temp)) = Inl OutOfBounds"
    for f :: "string \<Rightarrow> string \<Rightarrow> (aesd_seekto \<times> 'a) res"
  proof (cases "length t = 5")
    case True
    then have "c_strncpy blk (t @ NUL # r) 5 = Inr t"
      using assms(2,3) strncpy_bytes_within[of t 5 "NUL # r"] by (simp add: c_strncpy_def mem_write_def)
    then show ?thesis using assms(3) by (simp add: c_string_fault)
  next
    case False
    then have "length t < 5" using assms(4) by simp
    then have "c_strncpy blk (t @ NUL # r) 5 = Inl OutOfBounds"
      using assms(2,3) strncpy_bytes_pad[of t 5 r] by (simp add: c_strncpy_def mem_write_def)
    then show ?thesis by simp
  qed
  show ?thesis using cp assms(1) w2 sp by (simp add: parse_seek_def len)
qed

end
