(* ===== verification/Server_Witnesses.thy ===== *)
theory Server_Witnesses
  imports Server_Errors Server_Threads
begin

text \<open>
  Instances of the properties of the server: a system on which writes fail and clients close their
  connections, an allocator for list elements, and a server with one client.
\<close>

subsection \<open>A system in trouble\<close>

definition failing_os :: "nat \<Rightarrow> unit os" where
  "failing_os e = \<lparr>os_open = \<lambda>p w. (3, w), os_close = \<lambda>fd w. w, os_read = \<lambda>fd n w. (Fail e, w),
     os_recv = \<lambda>fd n w. (Done 0 [], w), os_write = \<lambda>fd bs w. (Fail e, w), os_ioctl = \<lambda>fd c s w. (-1, w),
     os_malloc = \<lambda>n w. (Some (replicate n NUL), w), os_strftime = \<lambda>n w. (''noon'' @ NUL # [], w)\<rparr>"

theorem store_write_failure_witness:
  "store_loop (failing_os 5) 4 3 (''hi'' @ drop 2 (replicate READ_WRITE_SIZE NUL)) 2 False () =
     Some (Inr (Stored True ())) \<and>
   store_loop (failing_os E_INTR) 4 3 (''hi'' @ drop 2 (replicate READ_WRITE_SIZE NUL)) 2 False () =
     Some (Inl SelfDeadlock)"
proof -
  have "ordinary ''hi''" by (simp add: ordinary_def READ_WRITE_SIZE_def special_string_def)
  from store_write_failure[OF quiet_start this, of "failing_os 5" 3 "()" 5 "()" 4]
    store_write_failure[OF quiet_start this, of "failing_os E_INTR" 3 "()" E_INTR "()" 4]
  show ?thesis by (simp add: failing_os_def numeral_2_eq_2)
qed

theorem timestamp_logger_outcome_witness: "timestamp_logger (failing_os 5) False () = Some (Inl SelfDeadlock)"
  using timestamp_logger_outcome[of "failing_os 5" "()" 3 "()" "''noon''" "[]" "()" "Fail 5" "()"]
  by (simp add: failing_os_def)


theorem parse_seek_overruns_witness:
  "parse_seek (failing_os 5) (special_string @ ''0,2'' @ NUL # []) () = Inl OutOfBounds"
  by (rule parse_seek_overruns[of _ _ _ "replicate 3 NUL" "()"]) (simp_all add: failing_os_def numeral_3_eq_3)

subsection \<open>A server with one client\<close>

definition blank_node :: "thread_info snode" where
  "blank_node = \<lparr>sdata = new_thread 0 0, sle_next = None\<rparr>"

definition one_shot :: "threads \<Rightarrow> (nat \<times> thread_info snode) option" where
  "one_shot q = (if snodes q 7 = None then Some (7, blank_node) else None)"

definition desk_env :: main_env where
  "desk_env = \<lparr>m_order = LITTLE_ENDIAN, m_malloc = one_shot, m_rows = replicate 4 (replicate 3 NUL),
     m_modified = replicate INET_ADDRSTRLEN NUL, m_client_ip = replicate INET_ADDRSTRLEN NUL,
     m_hostview = replicate INET_ADDRSTRLEN NUL, m_timer_delete = \<lambda>_. Inr (-1)\<rparr>"

abbreviation client_10_0_0_1 :: u32 where "client_10_0_0_1 \<equiv> 0x0100000a"

theorem log_client_witness:
  "log_client LITTLE_ENDIAN (m_rows desk_env) (m_modified desk_env) (m_client_ip desk_env) (m_hostview desk_env)
     client_10_0_0_1 = Inr (''1.0.0.10'', ''10.0.0.1'')"
proof -
  have "list_all (\<lambda>b. unat b < 100) (addr_bytes LITTLE_ENDIAN client_10_0_0_1)"
    "inet_ntop LITTLE_ENDIAN client_10_0_0_1 = ''10.0.0.1''"
    "inet_ntop LITTLE_ENDIAN (bswap_32 client_10_0_0_1) = ''1.0.0.10''"
    by code_simp+
  with log_client_little_endian[of "m_rows desk_env" "m_modified desk_env" "m_client_ip desk_env"
    "m_hostview desk_env" client_10_0_0_1]
  show ?thesis by (simp add: desk_env_def)
qed

lemma empty_list: "slist_rep (SLIST_INIT \<lparr>slh_first = None, snodes = Map.empty\<rparr>) []"
  by (simp add: slist_rep_def SLIST_INIT_def)

lemma desk_boot:
  "main_boot \<lparr>b_sigaction = \<lambda>_. 0, b_getaddrinfo = 0, b_addrs = [(3, 0)], b_listen = \<lambda>_. 0, b_fork = 0,
     b_timer_create = (0, 1), b_timer_settime = \<lambda>_ _. 0\<rparr> [''aesdsocket''] = Inr (Runs 3 False None [SIGTERM, SIGINT])"
  by (simp add: main_boot_def setup_signals_def setup_timer_def wants_daemon_def USE_AESD_CHAR_DEVICE_def)

lemma one_client_reached: "\<exists>st. server_reach desk_env st [5]"
proof -
  let ?st = "main_start 3 None [SIGTERM, SIGINT] \<lparr>slh_first = None, snodes = Map.empty\<rparr>"
  obtain line where l: "log_client LITTLE_ENDIAN (m_rows desk_env) (m_modified desk_env) (m_client_ip desk_env)
      (m_hostview desk_env) client_10_0_0_1 = Inr line"
    using log_client_line[of "m_rows desk_env" "m_modified desk_env" "m_client_ip desk_env"
      "m_hostview desk_env" client_10_0_0_1]
    by (force simp: desk_env_def addr_bytes_def)
  have "\<exists>st'. main_iter desk_env (Accepted 5 client_10_0_0_1 1) ?st = Some (Inr (Serving st'))"
    using main_iter_accept[of ?st "[]" desk_env client_10_0_0_1 line 7 blank_node 5 1] l empty_list
    by (auto simp: main_start_def one_shot_def desk_env_def SLIST_INIT_def)
  then show ?thesis using reach_accept[OF reach_start[OF desk_boot]] by fastforce
qed

theorem server_keeps_connections_witness:
  "\<exists>st xs. server_reach desk_env st [5] \<and> slist_rep (threads_list st) xs \<and>
     map fd_of (infos (threads_list st) xs) = [5] \<and> set (closed st) \<subseteq> {5} \<and> length (client_log st) = 1"
proof -
  have "malloc_fresh (m_malloc desk_env)" by (simp add: malloc_fresh_def desk_env_def one_shot_def)
  then show ?thesis using one_client_reached server_keeps_connections by fastforce
qed

definition one_thread :: threads where
  "one_thread = \<lparr>slh_first = Some 7, snodes = [7 \<mapsto> \<lparr>sdata = with_complete 1 (new_thread 1 5), sle_next = None\<rparr>]\<rparr>"

lemma one_thread_rep: "slist_rep one_thread [7]" "infos one_thread [7] = [with_complete 1 (new_thread 1 5)]"
  by (simp_all add: slist_rep_def one_thread_def slist_next_def infos_def slist_data_def)

definition signalled :: "threads \<Rightarrow> main_state" where
  "signalled q = \<lparr>skt_fd = 3, threads_list = q, caught_signal = True, joined = [], closed = [5],
     timer_id = None, handled = [SIGTERM], removed = [], client_log = []\<rparr>"


theorem slist_insert_remove_witness:
  "\<exists>q1 q2. SLIST_INSERT_HEAD (SLIST_INIT one_thread) (Some 7) = Inr q1 \<and> slist_rep q1 [7] \<and>
     SLIST_REMOVE q1 (Some 7) = Some (Inr q2) \<and> slist_rep q2 [] \<and> slist_data q2 = slist_data (SLIST_INIT one_thread)"
  using slist_insert_remove[of "SLIST_INIT one_thread" "[]" "[]" 7]
  by (simp add: SLIST_INIT_def slist_rep_def one_thread_def slist_data_def)

end
