(* ===== verification/Wait_Status.thy ===== *)
theory Wait_Status
  imports C_Prelude
begin

text \<open>
  The status of a terminated or stopped child process: the macros of \<open>bits/waitstatus.h\<close> that
  \<open>wait\<close>'s callers use, on a 32-bit \<open>int\<close>.
\<close>

unbundle bit_operations_syntax

definition WEXITSTATUS :: "cint \<Rightarrow> cint" where
  "WEXITSTATUS status = drop_bit 8 (status AND 0xff00)"

definition WTERMSIG :: "cint \<Rightarrow> cint" where
  "WTERMSIG status = status AND 0x7f"

definition WSTOPSIG :: "cint \<Rightarrow> cint" where
  "WSTOPSIG status = WEXITSTATUS status"

definition WIFEXITED :: "cint \<Rightarrow> bool" where
  "WIFEXITED status \<longleftrightarrow> WTERMSIG status = 0"

text \<open>The sum is converted to \<open>signed char\<close>, and the shift is arithmetic.\<close>

definition WIFSIGNALED :: "cint \<Rightarrow> bool" where
  "WIFSIGNALED status \<longleftrightarrow> 0 < drop_bit 1 (sint (ucast ((status AND 0x7f) + 1) :: 8 word))"

definition WIFSTOPPED :: "cint \<Rightarrow> bool" where
  "WIFSTOPPED status \<longleftrightarrow> status AND 0xff = 0x7f"

definition W_CONTINUED :: cint where "W_CONTINUED = 0xffff"
definition WCOREFLAG :: cint where "WCOREFLAG = 0x80"

definition WIFCONTINUED :: "cint \<Rightarrow> bool" where
  "WIFCONTINUED status \<longleftrightarrow> status = W_CONTINUED"

definition WCOREDUMP :: "cint \<Rightarrow> cint" where
  "WCOREDUMP status = status AND WCOREFLAG"

definition W_EXITCODE :: "cint \<Rightarrow> cint \<Rightarrow> cint" where
  "W_EXITCODE ret sig = push_bit 8 ret OR sig"

definition W_STOPCODE :: "cint \<Rightarrow> cint" where
  "W_STOPCODE sig = push_bit 8 sig OR 0x7f"

subsection \<open>Reading back what was encoded\<close>

lemma mask_consts:
  "(0x7f :: cint) = mask 7" "(0xff :: cint) = mask 8" "(0xff00 :: cint) = push_bit 8 (mask 8)"
  by (simp_all add: mask_eq_exp_minus_1)

lemma exit_status_bits:
  fixes ret sig :: cint
  assumes "unat ret < 256" "unat sig < 256"
  shows "WEXITSTATUS (push_bit 8 ret OR sig) = ret" "(push_bit 8 ret OR sig) AND 0xff = sig"
    "WTERMSIG (push_bit 8 ret OR sig) = sig AND 0x7f"
proof -
  have lt: "bit ret n \<Longrightarrow> n < 8" "bit sig n \<Longrightarrow> n < 8" for n
    using bit_below[of ret 8 n] bit_below[of sig 8 n] assms by auto
  show "WEXITSTATUS (push_bit 8 ret OR sig) = ret"
    unfolding WEXITSTATUS_def mask_consts
    by (rule bit_word_eqI) (auto simp: bit_simps dest: lt)
  show "(push_bit 8 ret OR sig) AND 0xff = sig"
    unfolding mask_consts by (rule bit_word_eqI) (auto simp: bit_simps dest: lt)
  show "WTERMSIG (push_bit 8 ret OR sig) = sig AND 0x7f"
    unfolding WTERMSIG_def mask_consts by (rule bit_word_eqI) (auto simp: bit_simps dest: lt)
qed

lemma and_0x7f_nat: "unat (w AND 0x7f :: cint) = unat w mod 128"
  unfolding mask_consts take_bit_eq_mask[symmetric] unsigned_take_bit_eq by (simp add: take_bit_eq_mod)

lemma and_0xff_nat: "unat (w AND 0xff :: cint) = unat w mod 256"
  unfolding mask_consts take_bit_eq_mask[symmetric] unsigned_take_bit_eq by (simp add: take_bit_eq_mod)

lemma signaled_iff: "WIFSIGNALED status \<longleftrightarrow> WTERMSIG status \<noteq> 0 \<and> WTERMSIG status \<noteq> 0x7f"
proof -
  let ?t = "status AND 0x7f"
  define k where "k = unat ?t"
  have k: "k < 128" using and_0x7f_nat[of status] by (simp add: k_def)
  have t: "?t = of_nat k" by (simp add: k_def)
  have "sint (ucast (of_nat k + 1 :: cint) :: 8 word) = (if k = 127 then - 128 else int k + 1)"
  proof -
    have "(of_nat k + 1 :: cint) = of_nat (k + 1)" by simp
    then have "ucast (of_nat k + 1 :: cint) = (of_nat (k + 1) :: 8 word)"
      using k by (simp only: unsigned_of_nat) (simp add: take_bit_nat_eq_self)
    then show ?thesis using k
      by (auto simp: signed_of_nat signed_take_bit_int_eq_self simp del: of_nat_Suc)
  qed
  then have s: "WIFSIGNALED status \<longleftrightarrow> k \<noteq> 0 \<and> k \<noteq> 127"
    unfolding WIFSIGNALED_def t by (auto simp: drop_bit_eq_div)
  have "?t = 0 \<longleftrightarrow> k = 0" "?t = 0x7f \<longleftrightarrow> k = 127"
    using word_unat_eq_iff[of ?t 0] word_unat_eq_iff[of ?t "0x7f"] by (simp_all add: k_def)
  then show ?thesis using s by (simp add: WTERMSIG_def)
qed

lemma stopped_low_bits: "WIFSTOPPED status \<Longrightarrow> WTERMSIG status = 0x7f"
proof -
  assume "WIFSTOPPED status"
  then have "unat status mod 256 = 127" using and_0xff_nat[of status] by (simp add: WIFSTOPPED_def)
  then have "unat status mod 128 = 127" using mod_mod_cancel[of 128 256 "unat status"] by simp
  then show ?thesis
    using and_0x7f_nat[of status] word_unat_eq_iff[of "status AND 0x7f" "0x7f"] by (simp add: WTERMSIG_def)
qed

text \<open>
  Every status says exactly one of three things: the child exited, it was killed by a signal, or
  its low seven bits are all ones, as for a stopped or continued child; a stopped and a continued
  child are of the third kind and are not confused with each other.
\<close>

lemma wait_status_classes:
  "length (filter (\<lambda>p. p status) [WIFEXITED, WIFSIGNALED, \<lambda>s. WTERMSIG s = 0x7f]) = 1 \<and>
   (WIFSTOPPED status \<or> WIFCONTINUED status \<longrightarrow> WTERMSIG status = 0x7f) \<and>
   \<not> (WIFSTOPPED status \<and> WIFCONTINUED status)"
proof -
  have c: "WIFCONTINUED status \<Longrightarrow> WTERMSIG status = 0x7f \<and> \<not> WIFSTOPPED status"
    by (simp add: WIFCONTINUED_def W_CONTINUED_def WTERMSIG_def WIFSTOPPED_def)
  have "length (filter (\<lambda>p. p status) [WIFEXITED, WIFSIGNALED, \<lambda>s. WTERMSIG s = 0x7f]) = 1"
    by (simp add: signaled_iff WIFEXITED_def)
  then show ?thesis using c stopped_low_bits by blast
qed

end
