(* ===== verification/Systemcalls.thy ===== *)
theory Systemcalls
  imports C_Strings Wait_Status
begin

text \<open>
  \<open>examples/systemcalls/systemcalls.c\<close>: running a command with \<open>system\<close>, and with \<open>fork\<close>,
  \<open>execv\<close> and \<open>wait\<close>, with and without the output going to a file. What the kernel answers is in
  a record; a call of \<open>do_exec\<close> returns in the parent and ends or replaces the child.
\<close>

definition do_system :: "(string \<Rightarrow> cint) \<Rightarrow> string \<Rightarrow> bool" where
  "do_system system cmd = (let return_val = system cmd in if return_val = -1 then False else True)"

subsection \<open>The arguments\<close>

text \<open>
  The program name is the last token between slashes of a copy of \<open>command[0]\<close>; \<open>arguments[0]\<close> is
  uninitialised (\<open>None\<close>) until the loop finds a token.
\<close>

partial_function (option) name_loop ::
    "string \<Rightarrow> nat option \<Rightarrow> nat \<Rightarrow> nat option \<Rightarrow> (string \<times> nat option) res option" where
  "name_loop input_str split_arg0 save argument0 =
     (case split_arg0 of
        None \<Rightarrow> Some (Inr (input_str, argument0))
      | Some t \<Rightarrow>
          (case c_strtok ''/'' input_str save of
             Inl e \<Rightarrow> Some (Inl e)
           | Inr (input_str, split_arg0, save) \<Rightarrow> name_loop input_str split_arg0 save (Some t)))"

definition program_name :: "string \<Rightarrow> string \<Rightarrow> string res option" where
  "program_name input_str path =
     (case c_strcpy input_str 0 (path @ [NUL]) of
        Inl e \<Rightarrow> Some (Inl e)
      | Inr input_str \<Rightarrow>
          (case c_strtok ''/'' input_str 0 of
             Inl e \<Rightarrow> Some (Inl e)
           | Inr (input_str, split_arg0, save) \<Rightarrow>
               map_option (\<lambda>r. res_bind r (\<lambda>(input_str, argument0).
                 case argument0 of None \<Rightarrow> Inl UninitRead | Some t \<Rightarrow> c_string (drop t input_str)))
                 (name_loop input_str split_arg0 save None)))"

text \<open>\<open>command\<close> without its final null pointer; \<open>input_str\<close> is the array of 100 bytes.\<close>

definition exec_arguments :: "string \<Rightarrow> string list \<Rightarrow> string list res option" where
  "exec_arguments input_str command =
     (case command of
        [] \<Rightarrow> Some (Inl NullDeref)
      | path # rest \<Rightarrow> map_option (\<lambda>r. res_bind r (\<lambda>name. Inr (name # rest))) (program_name input_str path))"

subsection \<open>fork, execv and wait\<close>

record exec_env =
  x_fork :: int
  x_execv :: "string \<Rightarrow> string list \<Rightarrow> int option"
  x_wait :: "int \<times> cint"
  x_creat :: "string \<Rightarrow> int"
  x_dup2 :: int

text \<open>
  How a call ends: in the parent with its result and the descriptors it leaves open, in the child
  with an exit status, or in the child with another program running, its standard output
  redirected or not.
\<close>

datatype exec_result =
    Returned bool "int list"
  | ChildExits int
  | Replaced string "string list" bool

definition exec_child :: "exec_env \<Rightarrow> bool \<Rightarrow> string list \<Rightarrow> string list \<Rightarrow> exec_result" where
  "exec_child env redirected command arguments =
     (case x_execv env (hd command) arguments of
        None \<Rightarrow> Replaced (hd command) arguments redirected
      | Some r \<Rightarrow> if r = -1 then ChildExits 1 else ChildExits 0)"

definition exec_parent :: "exec_env \<Rightarrow> int list \<Rightarrow> exec_result" where
  "exec_parent env open_fds =
     (case x_wait env of (wpid, status) \<Rightarrow>
        if wpid = -1 then Returned False open_fds
        else if WIFEXITED status \<and> WEXITSTATUS status = 1 then Returned False open_fds
        else Returned True open_fds)"

definition do_exec :: "exec_env \<Rightarrow> string \<Rightarrow> string list \<Rightarrow> exec_result res option" where
  "do_exec env input_str command =
     map_option (\<lambda>r. res_bind r (\<lambda>arguments.
       Inr (if x_fork env = -1 then Returned False []
            else if x_fork env = 0 then exec_child env False command arguments
            else exec_parent env [])))
       (exec_arguments input_str command)"

definition do_exec_redirect ::
    "exec_env \<Rightarrow> string \<Rightarrow> string \<Rightarrow> string list \<Rightarrow> exec_result res option" where
  "do_exec_redirect env outputfile input_str command =
     (let outfile_fd = x_creat env outputfile in
      if outfile_fd = -1 then Some (Inr (Returned False []))
      else
        map_option (\<lambda>r. res_bind r (\<lambda>arguments.
          Inr (if x_fork env = -1 then Returned False [outfile_fd]
               else if x_fork env = 0 then
                 (if x_dup2 env = -1 then ChildExits 1 else exec_child env True command arguments)
               else exec_parent env [outfile_fd])))
          (exec_arguments input_str command))"

subsection \<open>The program name\<close>

text \<open>The non-empty parts of a path between its slashes.\<close>

abbreviation slash :: char where "slash \<equiv> CHR ''/''"

function segments :: "string \<Rightarrow> string list" where
  "segments s =
     (case dropWhile (\<lambda>c. c = slash) s of
        [] \<Rightarrow> []
      | c # cs \<Rightarrow> takeWhile (\<lambda>c. c \<noteq> slash) (c # cs) # segments (dropWhile (\<lambda>c. c \<noteq> slash) cs))"
  by pat_completeness auto
termination
proof (relation "measure length")
  fix s c cs
  assume "dropWhile (\<lambda>c. c = slash) s = c # cs"
  then have "length (c # cs) \<le> length s" by (metis length_dropWhile_le)
  moreover have "length (dropWhile (\<lambda>c. c \<noteq> slash) cs) \<le> length cs" by (rule length_dropWhile_le)
  ultimately show "(dropWhile (\<lambda>c. c \<noteq> slash) cs, s) \<in> measure length" by simp
qed simp

declare segments.simps [simp del]

lemma segments_Nil [simp]: "segments [] = []"
  by (simp add: segments.simps)

lemma segments_slashes: "set ds \<subseteq> {slash} \<Longrightarrow> segments (ds @ s) = segments s"
  by (subst (1 2) segments.simps) (simp add: dropWhile_append2 subset_iff)

lemma segments_part:
  assumes "w \<noteq> []" "slash \<notin> set w"
  shows "segments w = [w]" "segments (w @ slash # s) = w # segments s"
proof -
  obtain c cs where w: "w = c # cs" "c \<noteq> slash" "slash \<notin> set cs" using assms by (cases w) auto
  have d: "dropWhile (\<lambda>c. c \<noteq> slash) cs = []" "takeWhile (\<lambda>c. c \<noteq> slash) cs = cs"
    using w(3) by (auto simp: takeWhile_eq_all_conv)
  have "segments (dropWhile (\<lambda>c. c \<noteq> slash) cs) = []" unfolding d(1) by simp
  then show "segments w = [w]" using w d(2) by (subst segments.simps) simp
  have "segments (slash # s) = segments s" using segments_slashes[of "[slash]" s] by simp
  moreover have "dropWhile (\<lambda>c. c \<noteq> slash) (cs @ slash # s) = slash # s"
      "takeWhile (\<lambda>c. c \<noteq> slash) (cs @ slash # s) = cs"
    using w(3) by (simp_all add: dropWhile_append takeWhile_append)
  ultimately show "segments (w @ slash # s) = w # segments s" using w by (subst segments.simps) simp
qed

lemma path_cases:
  obtains "set s \<subseteq> {slash}"
  | ds w where "s = ds @ w" "set ds \<subseteq> {slash}" "w \<noteq> []" "slash \<notin> set w"
  | ds w s' where "s = ds @ w @ slash # s'" "set ds \<subseteq> {slash}" "w \<noteq> []" "slash \<notin> set w"
proof -
  define ds where "ds = takeWhile (\<lambda>c. c = slash) s"
  define s1 where "s1 = dropWhile (\<lambda>c. c = slash) s"
  have s: "s = ds @ s1" by (simp add: ds_def s1_def)
  have ds: "set ds \<subseteq> {slash}" by (auto simp: ds_def dest: set_takeWhileD)
  show ?thesis
  proof (cases s1)
    case Nil
    then show ?thesis using that(1) s ds by simp
  next
    case (Cons c cs)
    have c: "c \<noteq> slash" using Cons unfolding s1_def by (simp add: dropWhile_eq_Cons_conv)
    show ?thesis
    proof (cases "slash \<in> set s1")
      case False
      then show ?thesis using that(2)[OF s ds] Cons by simp
    next
      case True
      then obtain w s' where w: "s1 = w @ slash # s'" "slash \<notin> set w" by (metis split_list_first)
      then have "w \<noteq> []" using Cons c by (cases w) auto
      then show ?thesis using that(3)[of ds w s'] s ds w by simp
    qed
  qed
qed

text \<open>From any position, the loop ends at the last segment of the rest of the string.\<close>

lemma name_loop_None [simp]: "name_loop buf None save arg0 = Some (Inr (buf, arg0))"
  by (subst name_loop.simps) simp

lemma name_loop_last:
  assumes "NUL \<notin> set s"
  shows "\<exists>buf tok save. c_strtok ''/'' (p @ s @ NUL # r) (length p) = Inr (buf, tok, save) \<and>
    (\<exists>buf' t. name_loop buf tok save arg0 = Some (Inr (buf', t)) \<and> take (length p) buf' = p \<and>
       (if segments s = [] then t = arg0 else \<exists>k. t = Some k \<and> c_string (drop k buf') = Inr (last (segments s))))"
  using assms
proof (induction "length s" arbitrary: s p arg0 rule: less_induct)
  case less
  have tok: "c_token ''/'' w" if "w \<noteq> []" "slash \<notin> set w" "set w \<subseteq> set s" for w
    using that less.prems by (auto simp: c_token_def)
  show ?case
  proof (cases rule: path_cases[of s])
    case 1
    then have "segments s = []" using segments_slashes[of s "[]"] by simp
    moreover have "c_strtok ''/'' (p @ s @ NUL # r) (length p) = Inr (p @ s @ NUL # r, None, length (p @ s))"
      using strtok_skip[of s "''/''" p "NUL # r"] strtok_end[of "''/''" "p @ s" r] 1 less.prems by simp
    ultimately show ?thesis by simp
  next
    case (2 ds w)
    have "c_strtok ''/'' (p @ s @ NUL # r) (length p) =
        Inr (p @ s @ NUL # r, Some (length (p @ ds)), length (p @ s))"
      using strtok_skip[of ds "''/''" p "w @ NUL # r"] strtok_last[OF tok[of w], of "p @ ds" r] 2 less.prems
      by simp
    moreover have "name_loop (p @ s @ NUL # r) (Some (length (p @ ds))) (length (p @ s)) arg0 =
        Some (Inr (p @ s @ NUL # r, Some (length (p @ ds))))"
      using strtok_end[of "''/''" "p @ s" r] by (subst name_loop.simps) simp
    moreover have "segments s = [w]" using segments_slashes[OF 2(2), of w] segments_part(1)[OF 2(3,4)] 2(1) by simp
    ultimately show ?thesis using 2(1) less.prems by simp
  next
    case (3 ds w s')
    let ?p = "p @ ds @ w @ [NUL]"
    have "c_token ''/'' w" using 3 by (intro tok) auto
    then have st: "c_strtok ''/'' (p @ s @ NUL # r) (length p) =
        Inr (?p @ s' @ NUL # r, Some (length (p @ ds)), length ?p)"
      using strtok_skip[of ds "''/''" p "w @ slash # s' @ NUL # r"]
        strtok_delim[of "''/''" w slash "p @ ds" "s' @ NUL # r"] 3 less.prems
      by (simp add: add.assoc)
    have "length s' < length s" "NUL \<notin> set s'" using 3(1) less.prems by simp_all
    from less.hyps[OF this, of ?p "Some (length (p @ ds))"] obtain buf tok save buf' t where ih:
      "c_strtok ''/'' (?p @ s' @ NUL # r) (length ?p) = Inr (buf, tok, save)"
      "name_loop buf tok save (Some (length (p @ ds))) = Some (Inr (buf', t))" "take (length ?p) buf' = ?p"
      "if segments s' = [] then t = Some (length (p @ ds))
       else \<exists>k. t = Some k \<and> c_string (drop k buf') = Inr (last (segments s'))"
      by blast
    have run: "name_loop (?p @ s' @ NUL # r) (Some (length (p @ ds))) (length ?p) arg0 = Some (Inr (buf', t))"
      using ih(1,2) by (subst name_loop.simps) simp
    obtain q where b: "buf' = ?p @ q" using ih(3) by (metis append_take_drop_id)
    have "segments s = w # segments s'"
      using segments_slashes[OF 3(2)] segments_part(2)[OF 3(3,4)] 3(1) by simp
    moreover have "c_string (drop (length (p @ ds)) buf') = Inr w"
      using b less.prems 3(1) c_string_app[of w q] by simp
    moreover have "take (length p) buf' = p" using b by simp
    ultimately show ?thesis using st run ih(4) by (auto split: if_splits)
  qed
qed

lemma program_name_cases:
  assumes "NUL \<notin> set path" "length input_str = 100"
  shows "program_name input_str path =
    Some (if 100 \<le> length path then Inl OutOfBounds
          else if segments path = [] then Inl UninitRead else Inr (last (segments path)))"
proof (cases "100 \<le> length path")
  case True
  then show ?thesis using assms c_string_app[of path "[]"]
    by (simp add: program_name_def c_strcpy_def mem_write_def)
next
  case False
  then have "c_strcpy input_str 0 (path @ [NUL]) = Inr ([] @ path @ NUL # drop (Suc (length path)) input_str)"
    using assms c_string_app[of path "[]"] by (simp add: c_strcpy_def mem_write_def)
  then show ?thesis
    using False name_loop_last[OF assms(1), of "[]" "drop (Suc (length path)) input_str" None]
    by (auto simp: program_name_def split: if_splits)
qed

subsection \<open>What the calls do\<close>

lemma exec_arguments_cases:
  assumes "NUL \<notin> set path" "length input_str = 100"
  shows "exec_arguments input_str (path # rest) =
    Some (if 100 \<le> length path then Inl OutOfBounds
          else if segments path = [] then Inl UninitRead else Inr (last (segments path) # rest))"
  using program_name_cases[OF assms] by (simp add: exec_arguments_def)

text \<open>
  C34: the child of \<open>do_exec\<close> runs the program at the given path with the last part of the path as
  its name and the other arguments unchanged, and exits with 1 when \<open>execv\<close> fails; a path of a
  hundred or more characters overruns the local array, and a path of slashes only leaves the name
  uninitialised.
\<close>

theorem do_exec_child:
  assumes "NUL \<notin> set path" "length input_str = 100" "x_fork env = 0"
    "\<forall>r. x_execv env path (last (segments path) # rest) = Some r \<longrightarrow> r = -1"
  shows "do_exec env input_str (path # rest) =
    Some (if 100 \<le> length path then Inl OutOfBounds
          else if segments path = [] then Inl UninitRead
          else Inr (if x_execv env path (last (segments path) # rest) = None
                    then Replaced path (last (segments path) # rest) False else ChildExits 1))"
  using assms(3,4) exec_arguments_cases[OF assms(1,2), of rest]
  by (auto simp: do_exec_def exec_child_def split: option.split)

lemma exitcode_status:
  assumes "unat c < 256"
  shows "WIFEXITED (W_EXITCODE c 0)" "WEXITSTATUS (W_EXITCODE c 0) = c" "W_EXITCODE c 0 \<noteq> -1"
proof -
  show s: "WEXITSTATUS (W_EXITCODE c 0) = c" and t: "WIFEXITED (W_EXITCODE c 0)"
    using exit_status_bits[of c 0] assms by (simp_all add: W_EXITCODE_def WIFEXITED_def)
  have "\<not> WIFEXITED (-1)" by (simp add: WIFEXITED_def WTERMSIG_def)
  then show "W_EXITCODE c 0 \<noteq> -1" using t by metis
qed

text \<open>
  C35: the verdict on a command that exits with status \<open>c\<close>. \<open>do_system\<close> reports success whatever \<open>c\<close>
  is, and \<open>do_exec\<close> and \<open>do_exec_redirect\<close> report failure for status 1 only, although the comments
  promise it for every non-zero status; \<open>do_exec_redirect\<close> leaves the output file open.
\<close>

theorem exec_verdicts:
  assumes "unat c < 256" "NUL \<notin> set path" "length path < 100" "segments path \<noteq> []" "length input_str = 100"
    and "x_fork env = pid" "0 < pid" "x_wait env = (pid, W_EXITCODE c 0)" "x_creat env out = fd" "0 \<le> fd"
  shows "do_system (\<lambda>_. W_EXITCODE c 0) cmd \<and>
    do_exec env input_str (path # rest) = Some (Inr (Returned (c \<noteq> 1) [])) \<and>
    do_exec_redirect env out input_str (path # rest) = Some (Inr (Returned (c \<noteq> 1) [fd]))"
  using assms exitcode_status[OF assms(1)] exec_arguments_cases[OF assms(2,5), of rest]
  by (simp add: do_system_def do_exec_def do_exec_redirect_def exec_parent_def Let_def)

text \<open>A child killed by a signal also counts as success.\<close>

lemma exec_signalled:
  assumes "unat sig < 128" "sig \<noteq> 0" "x_wait env = (pid, W_EXITCODE 0 sig)" "pid \<noteq> -1"
  shows "exec_parent env fds = Returned True fds"
proof -
  have "sig AND 0x7f = sig"
    using assms(1) and_0x7f_nat[of sig] word_unat_eq_iff[of "sig AND 0x7f" sig] by simp
  then have "\<not> WIFEXITED (W_EXITCODE 0 sig)"
    using exit_status_bits(3)[of 0 sig] assms(1,2) by (simp add: WIFEXITED_def W_EXITCODE_def)
  then show ?thesis using assms(3,4) by (simp add: exec_parent_def)
qed

end
