(* ===== verification/Threading.thy ===== *)
theory Threading
  imports C_Prelude
begin

text \<open>
  \<open>examples/threading/threading.c\<close>: a thread that sleeps, takes a mutex, sleeps again and releases
  it, and the function that starts it. The thread body is a function of what the pthread calls
  answer; any number of such threads on one mutex is a step relation, for which mutual exclusion
  is an invariant and every run ends with all threads finished.
\<close>

subsection \<open>The thread\<close>

record thread_data =
  td_thread :: nat
  td_mutex :: nat
  sleep_before_lock :: u32
  sleep_after_lock :: u32
  thread_complete_success :: bool

text \<open>The argument of \<open>usleep\<close>: milliseconds to microseconds in unsigned 32-bit arithmetic.\<close>

definition usleep_arg :: "u32 \<Rightarrow> u32" where
  "usleep_arg ms = ms * 1000"

text \<open>
  The body, with the results of the lock and unlock calls: the two sleeps and the updated data.
\<close>

definition threadfunc :: "int \<Rightarrow> int \<Rightarrow> thread_data \<Rightarrow> u32 list \<times> thread_data" where
  "threadfunc lock_ret unlock_ret args =
     (let d = (if lock_ret \<noteq> 0 then args\<lparr>thread_complete_success := False\<rparr> else args);
          d = (if unlock_ret \<noteq> 0 then d\<lparr>thread_complete_success := False\<rparr> else d);
          d = d\<lparr>thread_complete_success := True\<rparr>
      in ([usleep_arg (sleep_before_lock args), usleep_arg (sleep_after_lock args)], d))"

subsection \<open>Starting a thread\<close>

text \<open>
  The heap is the set of blocks \<open>malloc\<close> has handed out. A null result for the first block is
  dereferenced; the two others are overwritten at once. The success flag of a new block is \<open>junk\<close>.
\<close>

definition heap_free :: "nat set \<Rightarrow> nat \<Rightarrow> nat set res" where
  "heap_free heap p = (if p = 0 then Inr heap else if p \<in> heap then Inr (heap - {p}) else Inl BadFree)"

definition heap_add :: "nat \<Rightarrow> nat set \<Rightarrow> nat set" where
  "heap_add p heap = (if p = 0 then heap else insert p heap)"

definition start_thread_obtaining_mutex ::
    "nat \<times> nat \<times> nat \<Rightarrow> bool \<Rightarrow> int \<Rightarrow> nat set \<Rightarrow> nat \<Rightarrow> nat \<Rightarrow> u32 \<Rightarrow> u32 \<Rightarrow>
     (bool \<times> thread_data \<times> nat set) res" where
  "start_thread_obtaining_mutex blocks junk create_ret heap thread mutex wait_to_obtain_ms wait_to_release_ms =
     (case blocks of (thread_param, b1, b2) \<Rightarrow>
      if thread_param = 0 then Inl NullDeref
      else
        let heap = heap_add b2 (heap_add b1 (heap_add thread_param heap));
            d = \<lparr>td_thread = thread, td_mutex = mutex, sleep_before_lock = wait_to_obtain_ms,
                 sleep_after_lock = wait_to_release_ms, thread_complete_success = junk\<rparr>
        in if create_ret = 0 then Inr (True, d, heap)
           else res_bind (heap_free heap thread) (\<lambda>heap.
                res_bind (heap_free heap mutex) (\<lambda>heap. Inr (False, d, heap))))"

subsection \<open>Properties of one thread\<close>

text \<open>
  The sleep is the requested number of milliseconds exactly up to 4294967 ms, a little over 71
  minutes; for anything longer the multiplication wraps and the thread sleeps less.
\<close>

lemma usleep_arg_exact:
  "unat (usleep_arg ms) \<le> 1000 * unat ms \<and> (unat (usleep_arg ms) = 1000 * unat ms \<longleftrightarrow> unat ms \<le> 4294967)"
proof -
  have "unat (usleep_arg ms) = (1000 * unat ms) mod 2 ^ 32"
    by (simp add: usleep_arg_def unat_word_ariths mult.commute)
  moreover have "(1000 * unat ms) mod 2 ^ 32 = 1000 * unat ms \<longleftrightarrow> 1000 * unat ms < 2 ^ 32"
    by (rule mod_eq_self_iff_div_eq_0[THEN trans]) (simp add: div_eq_0_iff)
  ultimately show ?thesis by auto
qed

text \<open>The flag says success even when both pthread calls failed.\<close>

lemma threadfunc_always_succeeds:
  "thread_complete_success (snd (threadfunc lock_ret unlock_ret args))"
  by (simp add: threadfunc_def Let_def)

text \<open>
  Starting a thread keeps two blocks nobody can free and the block of its data; when
  \<open>pthread_create\<close> fails it frees the caller's thread and mutex objects, which is a fault unless they
  came from \<open>malloc\<close>, and the data block is lost.
\<close>

theorem start_thread_memory:
  assumes "p \<noteq> 0" "b1 \<noteq> 0" "b2 \<noteq> 0" "distinct [p, b1, b2]" "{p, b1, b2} \<inter> insert thread (insert mutex heap) = {}"
    "thread \<noteq> 0" "mutex \<noteq> 0" "thread \<noteq> mutex"
  shows "\<exists>d. start_thread_obtaining_mutex (p, b1, b2) junk ret heap thread mutex before after =
    (if ret = 0 then Inr (True, d, {p, b1, b2} \<union> heap)
     else if thread \<in> heap \<and> mutex \<in> heap then Inr (False, d, {p, b1, b2} \<union> (heap - {thread, mutex}))
     else Inl BadFree)"
  using assms
  by (auto simp: start_thread_obtaining_mutex_def heap_add_def heap_free_def Let_def insert_Diff_if)

subsection \<open>Threads on one mutex\<close>

text \<open>
  Where a thread is: in its first sleep or waiting for the mutex, in its second sleep with the
  mutex held, or finished. The mutex has an owner or none. A thread leaves its first sleep when it
  gets the mutex.
\<close>

datatype phase = Before | Holding | Finished

record mutex_state =
  phases :: "phase list"
  owner :: "nat option"

inductive mutex_step :: "mutex_state \<Rightarrow> mutex_state \<Rightarrow> bool" where
  step_lock: "\<lbrakk>i < length (phases s); phases s ! i = Before; owner s = None\<rbrakk>
     \<Longrightarrow> mutex_step s \<lparr>phases = (phases s)[i := Holding], owner = Some i\<rparr>"
| step_unlock: "\<lbrakk>i < length (phases s); phases s ! i = Holding; owner s = Some i\<rbrakk>
     \<Longrightarrow> mutex_step s \<lparr>phases = (phases s)[i := Finished], owner = None\<rparr>"

inductive_cases mutex_stepE: "mutex_step s s'"

definition mutex_start :: "nat \<Rightarrow> mutex_state" where
  "mutex_start n = \<lparr>phases = replicate n Before, owner = None\<rparr>"

text \<open>The thread in its critical section is the owner.\<close>

definition mutex_inv :: "mutex_state \<Rightarrow> bool" where
  "mutex_inv s \<longleftrightarrow> (\<forall>i < length (phases s). phases s ! i = Holding \<longleftrightarrow> owner s = Some i) \<and>
     (\<forall>i. owner s = Some i \<longrightarrow> i < length (phases s))"

lemma mutex_inv_start: "mutex_inv (mutex_start n)"
  by (simp add: mutex_inv_def mutex_start_def)

lemma mutex_inv_step: "mutex_step s s' \<Longrightarrow> mutex_inv s \<Longrightarrow> mutex_inv s'"
  by (erule mutex_stepE) (auto simp: mutex_inv_def nth_list_update split: if_splits)

lemma mutex_inv_run: "mutex_step\<^sup>*\<^sup>* s s' \<Longrightarrow> mutex_inv s \<Longrightarrow> mutex_inv s'"
  by (induction rule: rtranclp_induct) (auto intro: mutex_inv_step)

text \<open>
  Mutual exclusion: whatever the threads do, at most one of them is between lock and unlock, and
  one is exactly when the mutex has an owner.
\<close>

theorem threads_mutual_exclusion:
  assumes "mutex_step\<^sup>*\<^sup>* (mutex_start n) s"
  shows "length (filter (\<lambda>p. p = Holding) (phases s)) = (if owner s = None then 0 else 1)"
proof -
  have inv: "mutex_inv s" using mutex_inv_run[OF assms mutex_inv_start] .
  then have "{i. i < length (phases s) \<and> phases s ! i = Holding} = (case owner s of None \<Rightarrow> {} | Some i \<Rightarrow> {i})"
    by (auto simp: mutex_inv_def split: option.split)
  then show ?thesis by (simp add: length_filter_conv_card split: option.split)
qed

text \<open>Progress: what remains to be done decreases with every step, and a step exists until all is done.\<close>

fun phase_work :: "phase \<Rightarrow> nat" where
  "phase_work Before = 2"
| "phase_work Holding = 1"
| "phase_work Finished = 0"

definition work :: "mutex_state \<Rightarrow> nat" where
  "work s = sum_list (map phase_work (phases s))"

lemma work_step:
  assumes "mutex_step s s'"
  shows "work s = Suc (work s')"
proof -
  have "sum_list (map phase_work xs) = Suc (sum_list (map phase_work (xs[i := p])))"
    if "i < length xs" "phase_work (xs ! i) = Suc (phase_work p)" for xs i p
    using that by (induction xs arbitrary: i) (auto simp: less_Suc_eq_0_disj)
  then show ?thesis using assms by (auto simp: work_def elim!: mutex_stepE)
qed

lemma mutex_progress:
  assumes "mutex_inv s" "phases s ! i \<noteq> Finished" "i < length (phases s)"
  shows "\<exists>s'. mutex_step s s'"
proof (cases "owner s")
  case None
  then have "phases s ! i = Before" using assms by (cases "phases s ! i") (auto simp: mutex_inv_def)
  then show ?thesis using None assms(3) mutex_step.step_lock by blast
next
  case (Some j)
  then have "j < length (phases s)" "phases s ! j = Holding" using assms(1) by (auto simp: mutex_inv_def)
  then show ?thesis using Some mutex_step.step_unlock by blast
qed


end
