(* ===== verification/Tool_Witnesses.thy ===== *)
theory Tool_Witnesses
  imports Systemcalls Threading
begin

text \<open>
  Instances of the properties of the examples: a command that is run or exits, and threads that
  share a mutex.
\<close>

subsection \<open>Running a command\<close>

definition shell :: "int \<Rightarrow> int option \<Rightarrow> cint \<Rightarrow> exec_env" where
  "shell pid execv code = \<lparr>x_fork = pid, x_execv = \<lambda>_ _. execv, x_wait = (pid, W_EXITCODE code 0),
     x_creat = \<lambda>_. 9, x_dup2 = 1\<rparr>"

lemma ls_segments: "segments ''/bin/ls'' = [''bin'', ''ls'']"
  by (simp add: segments.simps)

theorem do_exec_child_witness:
  "do_exec (shell 0 None 0) (replicate 100 NUL) [''/bin/ls'', ''-l''] =
     Some (Inr (Replaced ''/bin/ls'' [''ls'', ''-l''] False)) \<and>
   do_exec (shell 0 (Some (-1)) 0) (replicate 100 NUL) [''/bin/ls'', ''-l''] = Some (Inr (ChildExits 1))"
  using do_exec_child[of "''/bin/ls''" "replicate 100 NUL" "shell 0 None 0" "[''-l'']"]
    do_exec_child[of "''/bin/ls''" "replicate 100 NUL" "shell 0 (Some (-1)) 0" "[''-l'']"]
  by (simp add: shell_def ls_segments)

theorem exec_verdicts_witness:
  "do_system (\<lambda>_. W_EXITCODE 2 0) ''false'' \<and>
   do_exec (shell 77 None 2) (replicate 100 NUL) [''/bin/ls''] = Some (Inr (Returned True [])) \<and>
   do_exec_redirect (shell 77 None 1) ''out'' (replicate 100 NUL) [''/bin/ls''] = Some (Inr (Returned False [9]))"
  using exec_verdicts[of 2 "''/bin/ls''" "replicate 100 NUL" "shell 77 None 2" 77 "''out''" 9 "''false''" "[]"]
    exec_verdicts[of 1 "''/bin/ls''" "replicate 100 NUL" "shell 77 None 1" 77 "''out''" 9 "''false''" "[]"]
  by (simp add: shell_def ls_segments)

subsection \<open>Threads\<close>

theorem start_thread_memory_witness:
  "(\<exists>d. start_thread_obtaining_mutex (1, 2, 3) False 0 {8, 9} 8 9 5 6 = Inr (True, d, {1, 2, 3, 8, 9})) \<and>
   (\<exists>d. start_thread_obtaining_mutex (1, 2, 3) False 11 {8, 9} 8 9 5 6 = Inr (False, d, {1, 2, 3})) \<and>
   start_thread_obtaining_mutex (1, 2, 3) False 11 {} 8 9 5 6 = Inl BadFree"
proof -
  have "{1, 2, 3} \<union> ({8, 9} - {8, 9}) = {1, 2, 3 :: nat}" "{1, 2, 3} \<union> {8, 9} = {1, 2, 3, 8, 9 :: nat}" by auto
  with start_thread_memory[of 1 2 3 8 9 "{8, 9}" False 0 5 6] start_thread_memory[of 1 2 3 8 9 "{8, 9}" False 11 5 6]
    start_thread_memory[of 1 2 3 8 9 "{}" False 11 5 6]
  show ?thesis by simp
qed

definition one_inside :: mutex_state where
  "one_inside = \<lparr>phases = [Holding, Before], owner = Some 0\<rparr>"

lemma one_inside_step: "mutex_step (mutex_start 2) one_inside"
  using step_lock[of 0 "mutex_start 2"] by (simp add: mutex_start_def one_inside_def numeral_2_eq_2)

theorem threads_mutual_exclusion_witness: "length (filter (\<lambda>p. p = Holding) (phases one_inside)) = 1"
  using threads_mutual_exclusion[of 2 one_inside] one_inside_step by (simp add: one_inside_def)

lemma one_thread_run: "(mutex_step ^^ 2) (mutex_start 1) \<lparr>phases = [Finished], owner = None\<rparr>"
  using step_lock[of 0 "mutex_start 1"] step_unlock[of 0 "\<lparr>phases = [Holding], owner = Some 0\<rparr>"]
  by (auto simp: mutex_start_def numeral_2_eq_2)


end
