(* ===== verification/Record_Walks.thy ===== *)
theory Record_Walks
  imports Byte_Order
begin

text \<open>
  Loops over records of varying length in one buffer, as the macros of \<open>linux/netlink.h\<close>,
  \<open>linux/rtnetlink.h\<close> and \<open>bits/socket.h\<close> are meant to be used: a test whether a record starts
  here, a step to the next one. This theory has the bytes of a number in memory, the loop, and the
  two contracts for it: what makes a loop over arbitrary bytes end inside the buffer, and what makes
  it return the records somebody laid out.
\<close>

unbundle bit_operations_syntax

subsection \<open>Numbers in memory\<close>

fun le_word :: "u8 list \<Rightarrow> 'a::len word" where
  "le_word [] = 0"
| "le_word (b # bs) = ucast b OR push_bit 8 (le_word bs)"

fun le_bytes :: "nat \<Rightarrow> 'a::len word \<Rightarrow> u8 list" where
  "le_bytes 0 w = []"
| "le_bytes (Suc n) w = ucast w # le_bytes n (drop_bit 8 w)"

definition in_order :: "byte_order \<Rightarrow> 'a list \<Rightarrow> 'a list" where
  "in_order order bs = (case order of LITTLE_ENDIAN \<Rightarrow> bs | BIG_ENDIAN \<Rightarrow> rev bs)"

text \<open>Load and store of a number of \<open>n\<close> bytes at an offset.\<close>

definition load :: "byte_order \<Rightarrow> nat \<Rightarrow> u8 list \<Rightarrow> nat \<Rightarrow> 'a::len word res" where
  "load order n buf p =
     (if p + n \<le> length buf then Inr (le_word (in_order order (take n (drop p buf)))) else Inl OutOfBounds)"

definition word_bytes :: "byte_order \<Rightarrow> nat \<Rightarrow> 'a::len word \<Rightarrow> u8 list" where
  "word_bytes order n w = in_order order (le_bytes n w)"

definition bytes_at :: "u8 list \<Rightarrow> nat \<Rightarrow> nat \<Rightarrow> u8 list res" where
  "bytes_at buf p n = (if p + n \<le> length buf then Inr (take n (drop p buf)) else Inl OutOfBounds)"

lemma unat_ucast_wider: "LENGTH('a) \<le> LENGTH('b) \<Longrightarrow> unat (ucast (w :: 'a::len word) :: 'b::len word) = unat w"
proof -
  assume "LENGTH('a) \<le> LENGTH('b)"
  then have "(2 :: nat) ^ LENGTH('a) \<le> 2 ^ LENGTH('b)" by (rule power_increasing) simp
  with unsigned_less[of w, where ?'a = nat] have "unat w < 2 ^ LENGTH('b)" by (rule order_less_le_trans)
  then show ?thesis by (simp add: unsigned_ucast_eq take_bit_nat_eq_self)
qed

lemma length_le_bytes [simp]: "length (le_bytes n w) = n"
  by (induction n arbitrary: w) simp_all

lemma in_order_simps [simp]:
  "length (in_order order bs) = length bs" "in_order order (in_order order bs) = bs"
  by (cases order; simp add: in_order_def)+

lemma length_word_bytes [simp]: "length (word_bytes order n w) = n"
  by (simp add: word_bytes_def)

lemma le_word_bytes_bit: "bit (le_word (le_bytes n w) :: 'a::len word) i \<longleftrightarrow> i < 8 * n \<and> bit (w :: 'a word) i"
proof (induction n arbitrary: w i)
  case (Suc n)
  show ?case
  proof (cases "i < 8")
    case True
    then show ?thesis by (auto simp: bit_simps dest: bit_imp_le_length)
  next
    case False
    then show ?thesis using Suc.IH[of "drop_bit 8 w" "i - 8"]
      by (auto simp: bit_simps dest: bit_imp_le_length)
  qed
qed simp

lemma le_word_bytes [simp]: "LENGTH('a) \<le> 8 * n \<Longrightarrow> le_word (le_bytes n w) = (w :: 'a::len word)"
  by (rule bit_word_eqI) (auto simp: le_word_bytes_bit dest: bit_imp_le_length)

lemma load_returns: "p + n \<le> length buf \<Longrightarrow> \<exists>w. load order n buf p = Inr w"
  by (simp add: load_def)

lemma load_word_bytes:
  "LENGTH('a) \<le> 8 * n \<Longrightarrow> p = length pre \<Longrightarrow>
   load order n (pre @ word_bytes order n w @ post) p = Inr (w :: 'a::len word)"
  by (simp add: load_def word_bytes_def)

lemma bytes_at_append: "p = length pre \<Longrightarrow> n = length bs \<Longrightarrow> bytes_at (pre @ bs @ post) p n = Inr bs"
  by (simp add: bytes_at_def)

subsection \<open>Alignment\<close>

lemma push_drop: "unat (push_bit k (drop_bit k (w :: 'a::len word))) = unat w div 2 ^ k * 2 ^ k"
proof -
  have "unat w div 2 ^ k * 2 ^ k \<le> unat w" by simp
  then have "unat w div 2 ^ k * 2 ^ k < 2 ^ LENGTH('a)" using unsigned_less[of w] order_le_less_trans by blast
  then show ?thesis
    by (simp only: unsigned_push_bit_eq unsigned_drop_bit_eq)
      (simp add: drop_bit_eq_div push_bit_eq_mult take_bit_eq_mod)
qed

lemma push_drop_2: "unat (push_bit 2 (drop_bit 2 (w :: 'a::len word))) = unat w div 4 * 4"
  using push_drop[of 2 w] by simp

lemma and_not_mask: "(w :: 'a::len word) AND NOT (mask k) = push_bit k (drop_bit k w)"
  by (rule bit_word_eqI) (auto simp: bit_simps not_less)

lemmas and_not_mask_2 = and_not_mask[of _ 2]

lemma aligned_bounds: "l \<le> (l + 3) div 4 * 4" "(l + 3) div 4 * 4 \<le> l + (3 :: nat)"
  by presburger+

subsection \<open>The loop\<close>

text \<open>
  \<open>for (c = first; OK(c); c = NEXT(c)) use(c)\<close>, with the results of the body collected.
\<close>

partial_function (option) for_records ::
    "('p \<Rightarrow> bool res) \<Rightarrow> ('p \<Rightarrow> 'p res) \<Rightarrow> ('p \<Rightarrow> 'd res) \<Rightarrow> 'p \<Rightarrow> 'd list res option" where
  "for_records ok step visit c =
     (case ok c of
        Inl e \<Rightarrow> Some (Inl e)
      | Inr b \<Rightarrow>
          if \<not> b then Some (Inr [])
          else case visit c of
            Inl e \<Rightarrow> Some (Inl e)
          | Inr d \<Rightarrow>
              (case step c of
                 Inl e \<Rightarrow> Some (Inl e)
               | Inr c' \<Rightarrow>
                   Option.bind (for_records ok step visit c') (\<lambda>r. Some (res_bind r (\<lambda>ds. Inr (d # ds))))))"

lemma for_records_stop: "ok c = Inr False \<Longrightarrow> for_records ok step visit c = Some (Inr [])"
  by (subst for_records.simps) simp

lemma for_records_step:
  "ok c = Inr True \<Longrightarrow> visit c = Inr d \<Longrightarrow> step c = Inr c' \<Longrightarrow>
   for_records ok step visit c' = Some (Inr ds) \<Longrightarrow> for_records ok step visit c = Some (Inr (d # ds))"
  by (subst for_records.simps) simp

lemma for_records_fault: "ok c = Inl e \<Longrightarrow> for_records ok step visit c = Some (Inl e)"
  by (subst for_records.simps) simp

lemma for_records_step_fault:
  "ok c = Inr True \<Longrightarrow> visit c = Inr d \<Longrightarrow> step c = Inr c' \<Longrightarrow>
   for_records ok step visit c' = Some (Inl e) \<Longrightarrow> for_records ok step visit c = Some (Inl e)"
  by (subst for_records.simps) simp

text \<open>A step that stays where it is keeps the loop going for ever.\<close>

lemma for_records_stuck:
  assumes "ok c = Inr True" "visit c = Inr d" "step c = Inr c"
  shows "for_records ok step visit c = None"
proof (rule ccontr)
  assume "for_records ok step visit c \<noteq> None"
  then obtain r where "for_records ok step visit c = Some r" by blast
  then show False using assms
    by (induction ok step visit c r rule: for_records.raw_induct[rotated, consumes 1, case_names step])
      (auto simp: bind_eq_Some_conv)
qed

subsection \<open>Loops over arbitrary bytes\<close>

text \<open>
  The contract: under an invariant of the cursor the test reads inside the buffer; where it says
  yes, the header of a record lies before \<open>limit\<close>, and the step goes forward, past the whole of the
  record when another one follows.
\<close>

locale record_walk =
  fixes ok :: "'p \<Rightarrow> bool res"
    and step :: "'p \<Rightarrow> 'p res"
    and pos :: "'p \<Rightarrow> nat"
    and span :: "'p \<Rightarrow> nat"
    and inv :: "'p \<Rightarrow> bool"
    and limit :: nat
  assumes ok_returns: "inv c \<Longrightarrow> \<exists>b. ok c = Inr b"
    and ok_inside: "inv c \<Longrightarrow> ok c = Inr True \<Longrightarrow> pos c < limit"
    and step_forward: "inv c \<Longrightarrow> ok c = Inr True \<Longrightarrow>
      \<exists>c'. step c = Inr c' \<and> inv c' \<and> pos c < pos c' \<and> (ok c' = Inr True \<longrightarrow> pos c + span c \<le> pos c')"
begin

text \<open>The loop ends without a fault; the records it visits are proper and do not overlap.\<close>

lemma walk_total:
  "inv c \<Longrightarrow>
   \<exists>cs. for_records ok step Inr c = Some (Inr cs) \<and> (\<forall>d\<in>set cs. inv d \<and> ok d = Inr True \<and> pos c \<le> pos d) \<and>
     sorted_wrt (\<lambda>d e. pos d + span d \<le> pos e) cs"
proof (induction "limit - pos c" arbitrary: c rule: less_induct)
  case less
  obtain b where b: "ok c = Inr b" using ok_returns[OF less.prems] by blast
  show ?case
  proof (cases b)
    case False
    then show ?thesis using for_records_stop[of ok c step Inr] b by (intro exI[of _ "[]"]) simp
  next
    case True
    with b have y: "ok c = Inr True" by simp
    obtain c' where s: "step c = Inr c'" "inv c'" "pos c < pos c'"
      and far: "ok c' = Inr True \<longrightarrow> pos c + span c \<le> pos c'"
      using step_forward[OF less.prems y] by blast
    have "limit - pos c' < limit - pos c" using ok_inside[OF less.prems y] s(3) by simp
    then obtain cs where cs: "for_records ok step Inr c' = Some (Inr cs)"
      "\<forall>d\<in>set cs. inv d \<and> ok d = Inr True \<and> pos c' \<le> pos d" "sorted_wrt (\<lambda>d e. pos d + span d \<le> pos e) cs"
      using less.hyps s(2) by blast
    have "pos c + span c \<le> pos d" if "d \<in> set cs" for d
    proof -
      obtain b' where "ok c' = Inr b'" using ok_returns[OF s(2)] by blast
      with that cs(1) have "ok c' = Inr True" by (cases b') (auto simp: for_records_stop)
      with far cs(2) that show ?thesis by fastforce
    qed
    moreover have "pos c \<le> pos d" if "d \<in> set cs" for d using cs(2) that s(3) by fastforce
    ultimately show ?thesis
      using for_records_step[of ok c Inr c step c' cs] y s(1) cs less.prems by (intro exI[of _ "c # cs"]) simp
  qed
qed

end

subsection \<open>Loops over records that were laid out\<close>

text \<open>
  The contract of an encoder with the test, the step and the decoder: wherever the encoding of a
  record stands in a buffer that is not too large, the three recognise it, and nothing is found
  where no bytes are left. A cursor is given by the offset and the bytes that are left.
\<close>

locale record_codec =
  fixes ok :: "u8 list \<Rightarrow> 'p \<Rightarrow> bool res"
    and step :: "u8 list \<Rightarrow> 'p \<Rightarrow> 'p res"
    and dec :: "u8 list \<Rightarrow> 'p \<Rightarrow> 'd res"
    and cursor :: "nat \<Rightarrow> nat \<Rightarrow> 'p"
    and enc :: "'d \<Rightarrow> u8 list"
    and fits :: "'d \<Rightarrow> bool"
    and room :: nat
  assumes enc_ok: "fits d \<Longrightarrow> length (pre @ enc d @ post) \<le> room \<Longrightarrow>
      ok (pre @ enc d @ post) (cursor (length pre) (length (enc d) + length post)) = Inr True"
    and enc_dec: "fits d \<Longrightarrow> length (pre @ enc d @ post) \<le> room \<Longrightarrow>
      dec (pre @ enc d @ post) (cursor (length pre) (length (enc d) + length post)) = Inr d"
    and enc_step: "fits d \<Longrightarrow> length (pre @ enc d @ post) \<le> room \<Longrightarrow>
      step (pre @ enc d @ post) (cursor (length pre) (length (enc d) + length post)) =
        Inr (cursor (length pre + length (enc d)) (length post))"
    and empty_stops: "ok buf (cursor p 0) = Inr False"
begin

lemma laid_out_from:
  "list_all fits ds \<Longrightarrow> buf = pre @ concat (map enc ds) \<Longrightarrow> length buf \<le> room \<Longrightarrow>
   for_records (ok buf) (step buf) (dec buf) (cursor (length pre) (length (concat (map enc ds)))) = Some (Inr ds)"
proof (induction ds arbitrary: pre)
  case Nil
  then show ?case using empty_stops[of buf "length pre"] by (simp add: for_records_stop)
next
  case (Cons d ds)
  let ?post = "concat (map enc ds)"
  have f: "fits d" "length (pre @ enc d @ ?post) \<le> room" "buf = pre @ enc d @ ?post" using Cons.prems by simp_all
  have "for_records (ok buf) (step buf) (dec buf) (cursor (length (pre @ enc d)) (length ?post)) = Some (Inr ds)"
    using Cons.prems by (intro Cons.IH) simp_all
  then show ?case
    using enc_ok[OF f(1,2)] enc_dec[OF f(1,2)] enc_step[OF f(1,2)] f(3)
    by (intro for_records_step[where d = d]) simp_all
qed

lemma laid_out:
  "list_all fits ds \<Longrightarrow> buf = concat (map enc ds) \<Longrightarrow> length buf \<le> room \<Longrightarrow>
   for_records (ok buf) (step buf) (dec buf) (cursor 0 (length buf)) = Some (Inr ds)"
  using laid_out_from[of ds buf "[]"] by simp

end

end
