(* ===== verification/Netlink.thy ===== *)
theory Netlink
  imports Record_Walks
begin

text \<open>
  The messages of \<open>linux/netlink.h\<close> and the attributes of \<open>linux/rtnetlink.h\<close>: alignment, lengths,
  and the macros that walk a received buffer. A pointer into the buffer is an offset; the remaining
  length is the \<open>int\<close> variable the macros update in place.
\<close>

subsection \<open>Messages\<close>

definition NLMSG_ALIGNTO :: u32 where "NLMSG_ALIGNTO = 4"

text \<open>
  The mask is an \<open>unsigned int\<close>: for a wider argument it is extended with zeros.
\<close>

definition NLMSG_ALIGN :: "'a::len word \<Rightarrow> 'a word" where
  "NLMSG_ALIGN len = (len + ucast NLMSG_ALIGNTO - 1) AND ucast (NOT (NLMSG_ALIGNTO - 1))"

record nlmsghdr =
  nlmsg_len :: u32
  nlmsg_type :: u16
  nlmsg_flags :: u16
  nlmsg_seq :: u32
  nlmsg_pid :: u32

definition sizeof_nlmsghdr :: size_t where "sizeof_nlmsghdr = 16"

definition NLMSG_HDRLEN :: cint where "NLMSG_HDRLEN = ucast (NLMSG_ALIGN sizeof_nlmsghdr)"
definition NLMSG_LENGTH :: "cint \<Rightarrow> cint" where "NLMSG_LENGTH len = len + NLMSG_HDRLEN"
definition NLMSG_SPACE :: "cint \<Rightarrow> u32" where "NLMSG_SPACE len = NLMSG_ALIGN (NLMSG_LENGTH len)"
definition NLMSG_DATA :: "nat \<Rightarrow> nat" where "NLMSG_DATA nlh = nlh + unat (NLMSG_LENGTH 0)"

text \<open>The fields of the header at an offset.\<close>

definition load_nlmsghdr :: "byte_order \<Rightarrow> u8 list \<Rightarrow> nat \<Rightarrow> nlmsghdr res" where
  "load_nlmsghdr order buf nlh =
     res_bind (load order 4 buf nlh) (\<lambda>len.
     res_bind (load order 2 buf (nlh + 4)) (\<lambda>ty.
     res_bind (load order 2 buf (nlh + 6)) (\<lambda>flags.
     res_bind (load order 4 buf (nlh + 8)) (\<lambda>sq.
     res_bind (load order 4 buf (nlh + 12)) (\<lambda>pid.
     Inr \<lparr>nlmsg_len = len, nlmsg_type = ty, nlmsg_flags = flags, nlmsg_seq = sq, nlmsg_pid = pid\<rparr>)))))"

definition nlmsg_len_at :: "byte_order \<Rightarrow> u8 list \<Rightarrow> nat \<Rightarrow> u32 res" where
  "nlmsg_len_at order buf nlh = load order 4 buf nlh"

definition NLMSG_NEXT :: "byte_order \<Rightarrow> u8 list \<Rightarrow> nat \<times> cint \<Rightarrow> (nat \<times> cint) res" where
  "NLMSG_NEXT order buf = (\<lambda>(nlh, len).
     res_bind (nlmsg_len_at order buf nlh) (\<lambda>l.
     Inr (nlh + unat (NLMSG_ALIGN l), len - NLMSG_ALIGN l)))"

definition NLMSG_OK :: "byte_order \<Rightarrow> u8 list \<Rightarrow> nat \<times> cint \<Rightarrow> bool res" where
  "NLMSG_OK order buf = (\<lambda>(nlh, len).
     if sint len < sint (ucast sizeof_nlmsghdr :: cint) then Inr False
     else res_bind (nlmsg_len_at order buf nlh) (\<lambda>l.
       Inr (sizeof_nlmsghdr \<le> ucast l \<and> l \<le> len)))"

definition NLMSG_PAYLOAD :: "byte_order \<Rightarrow> u8 list \<Rightarrow> nat \<Rightarrow> cint \<Rightarrow> u32 res" where
  "NLMSG_PAYLOAD order buf nlh len =
     res_bind (nlmsg_len_at order buf nlh) (\<lambda>l. Inr (l - NLMSG_SPACE len))"

subsection \<open>Routing attributes\<close>

definition RTA_ALIGNTO :: u32 where "RTA_ALIGNTO = 4"

definition RTA_ALIGN :: "'a::len word \<Rightarrow> 'a word" where
  "RTA_ALIGN len = (len + ucast RTA_ALIGNTO - 1) AND ucast (NOT (RTA_ALIGNTO - 1))"

record rtattr =
  rta_len :: u16
  rta_type :: u16

definition sizeof_rtattr :: size_t where "sizeof_rtattr = 4"

definition rta_len_at :: "byte_order \<Rightarrow> u8 list \<Rightarrow> nat \<Rightarrow> u16 res" where
  "rta_len_at order buf rta = load order 2 buf rta"

definition RTA_OK :: "byte_order \<Rightarrow> u8 list \<Rightarrow> nat \<times> cint \<Rightarrow> bool res" where
  "RTA_OK order buf = (\<lambda>(rta, len).
     if sint len < sint (ucast sizeof_rtattr :: cint) then Inr False
     else res_bind (rta_len_at order buf rta) (\<lambda>l.
       Inr (sizeof_rtattr \<le> ucast l \<and> sint (ucast l :: cint) \<le> sint len)))"

definition RTA_NEXT :: "byte_order \<Rightarrow> u8 list \<Rightarrow> nat \<times> cint \<Rightarrow> (nat \<times> cint) res" where
  "RTA_NEXT order buf = (\<lambda>(rta, attrlen).
     res_bind (rta_len_at order buf rta) (\<lambda>l.
     Inr (rta + unat (RTA_ALIGN (ucast l :: u32)), attrlen - RTA_ALIGN (ucast l :: u32))))"

definition RTA_LENGTH :: "size_t \<Rightarrow> size_t" where "RTA_LENGTH len = RTA_ALIGN sizeof_rtattr + len"
definition RTA_SPACE :: "size_t \<Rightarrow> size_t" where "RTA_SPACE len = RTA_ALIGN (RTA_LENGTH len)"
definition RTA_DATA :: "nat \<Rightarrow> nat" where "RTA_DATA rta = rta + unat (RTA_LENGTH 0)"

definition RTA_PAYLOAD :: "byte_order \<Rightarrow> u8 list \<Rightarrow> nat \<Rightarrow> size_t res" where
  "RTA_PAYLOAD order buf rta =
     res_bind (rta_len_at order buf rta) (\<lambda>l. Inr (ucast l - RTA_LENGTH 0))"

subsection \<open>Alignment\<close>

lemma not_3_mask: "NOT (4 - 1 :: u32) = NOT (mask 2)"
  by (simp add: mask_eq_exp_minus_1)

lemma align_32: "(w + ucast (4 :: u32) - 1) AND ucast (NOT (4 - 1 :: u32)) = push_bit 2 (drop_bit 2 (w + 3 :: u32))"
  by (simp only: not_3_mask) (simp add: ucast_id add.commute and_not_mask_2)

lemma unat_align:
  assumes "unat (l :: u32) + 3 < 2 ^ 32"
  shows "unat (NLMSG_ALIGN l) = (unat l + 3) div 4 * 4" "unat (RTA_ALIGN l) = (unat l + 3) div 4 * 4"
proof -
  have "unat (l + 3) = unat l + 3" using assms by (subst unat_add_lem[THEN iffD1]) simp_all
  then show "unat (NLMSG_ALIGN l) = (unat l + 3) div 4 * 4" "unat (RTA_ALIGN l) = (unat l + 3) div 4 * 4"
    by (simp_all only: NLMSG_ALIGN_def RTA_ALIGN_def NLMSG_ALIGNTO_def RTA_ALIGNTO_def align_32 push_drop_2)
qed

subsection \<open>The remaining length\<close>

lemma sint_nonneg:
  assumes "0 \<le> sint (len :: cint)"
  shows "sint len = int (unat len)" "unat len < 2 ^ 31"
proof -
  have "sint len < 2 ^ 31" using sint_lt[of len] by simp
  then show "sint len = int (unat len)" "unat len < 2 ^ 31"
    using assms uint_sint[of len] by (simp_all add: take_bit_int_eq_self nat_less_iff flip: nat_uint_eq)
qed

text \<open>
  Subtracting the aligned length of a record that fits leaves the rest, or up to three less than
  nothing when the padding is missing; it never wraps.
\<close>

lemma rest_after:
  assumes "0 \<le> sint len" "unat (a :: u32) \<le> unat (len :: cint) + 3"
  shows "sint (len - a) = int (unat len) - int (unat a)"
proof -
  have "len - a = word_of_int (int (unat len) - int (unat a))" by simp
  moreover have "sint len < 2147483648" using sint_lt[of len] by simp
  then have "- 2147483648 \<le> int (unat len) - int (unat a)" "int (unat len) - int (unat a) < 2147483648"
    using assms sint_nonneg(1)[OF assms(1)] by linarith+
  then have "signed_take_bit 31 (int (unat len) - int (unat a)) = int (unat len) - int (unat a)"
    by (intro signed_take_bit_int_eq_self) simp_all
  ultimately show ?thesis by (simp only: signed_of_int) simp
qed

definition inside_buffer :: "nat \<Rightarrow> nat \<times> cint \<Rightarrow> bool" where
  "inside_buffer n c \<longleftrightarrow> (0 \<le> sint (snd c) \<longrightarrow> fst c + unat (snd c) \<le> n)"

lemma inside_buffer_step:
  assumes "inside_buffer n (p, len)" "0 \<le> sint len" "unat a \<le> unat len + 3"
  shows "inside_buffer n (p + unat a, len - a)"
proof (cases "0 \<le> sint (len - a)")
  case True
  then have "int (unat (len - a)) = int (unat len) - int (unat a)"
    using rest_after[OF assms(2,3)] sint_nonneg(1)[OF True] by linarith
  moreover have "p + unat len \<le> n" using assms(1,2) by (simp add: inside_buffer_def)
  ultimately show ?thesis unfolding inside_buffer_def fst_conv snd_conv by linarith
qed (simp add: inside_buffer_def)

lemma inside_buffer_start: "length buf < 2 ^ 31 \<Longrightarrow> inside_buffer (length buf) (0, of_nat (length buf))"
  by (simp add: inside_buffer_def unat_of_nat take_bit_nat_eq_self)

subsection \<open>Walking a received buffer\<close>

definition nlmsg_span :: "byte_order \<Rightarrow> u8 list \<Rightarrow> nat \<times> cint \<Rightarrow> nat" where
  "nlmsg_span order buf c = (case nlmsg_len_at order buf (fst c) of Inl _ \<Rightarrow> 0 | Inr l \<Rightarrow> unat l)"

definition rta_span :: "byte_order \<Rightarrow> u8 list \<Rightarrow> nat \<times> cint \<Rightarrow> nat" where
  "rta_span order buf c = (case rta_len_at order buf (fst c) of Inl _ \<Rightarrow> 0 | Inr l \<Rightarrow> unat l)"

lemma sint_promoted: "sint (ucast (l :: u16) :: cint) = int (unat l)"
  using unsigned_less[of l, where ?'a = int] order_trans[of "- 2147483648" 0 "uint l"]
  by (simp add: signed_ucast_eq signed_take_bit_int_eq_self_iff)

lemma NLMSG_OK_cases:
  assumes "inside_buffer (length buf) c"
  obtains "NLMSG_OK order buf c = Inr False"
    | l where "NLMSG_OK order buf c = Inr True" "nlmsg_len_at order buf (fst c) = Inr l" "0 \<le> sint (snd c)"
        "16 \<le> unat l" "unat l \<le> unat (snd c)" "fst c + unat (snd c) \<le> length buf"
proof (cases "sint (snd c) < 16")
  case True
  then show ?thesis by (intro that(1)) (simp add: NLMSG_OK_def sizeof_nlmsghdr_def case_prod_unfold)
next
  case False
  then have s: "0 \<le> sint (snd c)" by simp
  have n: "fst c + unat (snd c) \<le> length buf" using assms s by (simp add: inside_buffer_def)
  have "16 \<le> unat (snd c)" using False sint_nonneg(1)[OF s] by linarith
  then obtain l where l: "nlmsg_len_at order buf (fst c) = Inr l"
    using n load_returns[of "fst c" 4 buf order] by (auto simp: nlmsg_len_at_def)
  have "NLMSG_OK order buf c = Inr (16 \<le> unat l \<and> unat l \<le> unat (snd c))"
    using False l by (simp add: NLMSG_OK_def sizeof_nlmsghdr_def word_le_nat_alt unat_ucast_wider case_prod_unfold)
  then show ?thesis using that l s n by (cases "16 \<le> unat l \<and> unat l \<le> unat (snd c)") auto
qed

lemma RTA_OK_cases:
  assumes "inside_buffer (length buf) c"
  obtains "RTA_OK order buf c = Inr False"
    | l where "RTA_OK order buf c = Inr True" "rta_len_at order buf (fst c) = Inr l" "0 \<le> sint (snd c)"
        "4 \<le> unat l" "unat l \<le> unat (snd c)" "fst c + unat (snd c) \<le> length buf"
proof (cases "sint (snd c) < 4")
  case True
  then show ?thesis by (intro that(1)) (simp add: RTA_OK_def sizeof_rtattr_def case_prod_unfold)
next
  case False
  then have s: "0 \<le> sint (snd c)" by simp
  have n: "fst c + unat (snd c) \<le> length buf" using assms s by (simp add: inside_buffer_def)
  have "4 \<le> unat (snd c)" using False sint_nonneg(1)[OF s] by linarith
  then obtain l where l: "rta_len_at order buf (fst c) = Inr l"
    using n load_returns[of "fst c" 2 buf order] by (auto simp: rta_len_at_def)
  have "sint (ucast l :: cint) \<le> sint (snd c) \<longleftrightarrow> unat l \<le> unat (snd c)"
    using sint_nonneg(1)[OF s] sint_promoted[of l] by linarith
  then have "RTA_OK order buf c = Inr (4 \<le> unat l \<and> unat l \<le> unat (snd c))"
    using False l by (simp add: RTA_OK_def sizeof_rtattr_def word_le_nat_alt unat_ucast_wider case_prod_unfold)
  then show ?thesis using that l s n by (cases "4 \<le> unat l \<and> unat l \<le> unat (snd c)") auto
qed

interpretation nlmsg: record_walk "NLMSG_OK order buf" "NLMSG_NEXT order buf" fst "nlmsg_span order buf"
  "inside_buffer (length buf)" "length buf"
  for order buf
proof
  fix c assume c: "inside_buffer (length buf) c"
  show "\<exists>b. NLMSG_OK order buf c = Inr b" by (rule NLMSG_OK_cases[OF c, of order]) auto
  assume ok: "NLMSG_OK order buf c = Inr True"
  show "fst c < length buf" by (rule NLMSG_OK_cases[OF c, of order]) (use ok in auto)
  show "\<exists>c'. NLMSG_NEXT order buf c = Inr c' \<and> inside_buffer (length buf) c' \<and> fst c < fst c' \<and>
    (NLMSG_OK order buf c' = Inr True \<longrightarrow> fst c + nlmsg_span order buf c \<le> fst c')"
  proof (rule NLMSG_OK_cases[OF c, of order])
    fix l assume l: "nlmsg_len_at order buf (fst c) = Inr l" "0 \<le> sint (snd c)" "16 \<le> unat l" "unat l \<le> unat (snd c)"
    have a: "unat (NLMSG_ALIGN l) = (unat l + 3) div 4 * 4"
      using l(4) sint_nonneg(2)[OF l(2)] by (intro unat_align) simp
    then have "inside_buffer (length buf) (fst c + unat (NLMSG_ALIGN l), snd c - NLMSG_ALIGN l)"
      using c l(2,4) aligned_bounds(2)[of "unat l"] by (intro inside_buffer_step) simp_all
    then show ?thesis using l a aligned_bounds(1)[of "unat l"]
      by (auto simp: NLMSG_NEXT_def nlmsg_span_def case_prod_unfold)
  qed (use ok in simp)
qed

interpretation rta: record_walk "RTA_OK order buf" "RTA_NEXT order buf" fst "rta_span order buf"
  "inside_buffer (length buf)" "length buf"
  for order buf
proof
  fix c assume c: "inside_buffer (length buf) c"
  show "\<exists>b. RTA_OK order buf c = Inr b" by (rule RTA_OK_cases[OF c, of order]) auto
  assume ok: "RTA_OK order buf c = Inr True"
  show "fst c < length buf" by (rule RTA_OK_cases[OF c, of order]) (use ok in auto)
  show "\<exists>c'. RTA_NEXT order buf c = Inr c' \<and> inside_buffer (length buf) c' \<and> fst c < fst c' \<and>
    (RTA_OK order buf c' = Inr True \<longrightarrow> fst c + rta_span order buf c \<le> fst c')"
  proof (rule RTA_OK_cases[OF c, of order])
    fix l assume l: "rta_len_at order buf (fst c) = Inr l" "0 \<le> sint (snd c)" "4 \<le> unat l" "unat l \<le> unat (snd c)"
    have u: "unat (ucast l :: u32) = unat l" by (simp add: unat_ucast_wider)
    have a: "unat (RTA_ALIGN (ucast l :: u32)) = (unat l + 3) div 4 * 4"
      using l(4) sint_nonneg(2)[OF l(2)] unat_align(2)[of "ucast l"] by (simp add: u)
    then have "inside_buffer (length buf) (fst c + unat (RTA_ALIGN (ucast l :: u32)), snd c - RTA_ALIGN (ucast l))"
      using c l(2,4) aligned_bounds(2)[of "unat l"] by (intro inside_buffer_step) simp_all
    then show ?thesis using l a aligned_bounds(1)[of "unat l"]
      by (auto simp: RTA_NEXT_def rta_span_def case_prod_unfold)
  qed (use ok in simp)
qed

lemma load_nlmsghdr_returns:
  assumes "nlh + 16 \<le> length buf" "nlmsg_len_at order buf nlh = Inr l"
  shows "\<exists>h. load_nlmsghdr order buf nlh = Inr h \<and> nlmsg_len h = l"
  using assms by (auto simp: load_nlmsghdr_def nlmsg_len_at_def load_def)

text \<open>
  C22: a walk with \<open>NLMSG_OK\<close> and \<open>NLMSG_NEXT\<close> over whatever bytes arrived ends without reading outside
  them; each message it visits has a header and, by the length in it, lies inside the buffer; no two
  messages overlap. The same holds for routing attributes with \<open>RTA_OK\<close> and \<open>RTA_NEXT\<close>.
\<close>

theorem netlink_walk_inside:
  assumes "length buf < 2 ^ 31"
  shows "(\<exists>cs. for_records (NLMSG_OK order buf) (NLMSG_NEXT order buf) Inr (0, of_nat (length buf)) = Some (Inr cs) \<and>
      (\<forall>c\<in>set cs. \<exists>h. load_nlmsghdr order buf (fst c) = Inr h \<and> 16 \<le> unat (nlmsg_len h) \<and>
         fst c + unat (nlmsg_len h) \<le> length buf) \<and>
      sorted_wrt (\<lambda>c d. fst c + nlmsg_span order buf c \<le> fst d) cs) \<and>
    (\<exists>cs. for_records (RTA_OK order buf) (RTA_NEXT order buf) Inr (0, of_nat (length buf)) = Some (Inr cs) \<and>
      (\<forall>c\<in>set cs. \<exists>l. rta_len_at order buf (fst c) = Inr l \<and> 4 \<le> unat l \<and> fst c + unat l \<le> length buf) \<and>
      sorted_wrt (\<lambda>c d. fst c + rta_span order buf c \<le> fst d) cs)"
proof -
  have m: "\<exists>h. load_nlmsghdr order buf (fst c) = Inr h \<and> 16 \<le> unat (nlmsg_len h) \<and>
      fst c + unat (nlmsg_len h) \<le> length buf"
    if "inside_buffer (length buf) c" "NLMSG_OK order buf c = Inr True" for c
  proof (rule NLMSG_OK_cases[OF that(1), of order])
    fix l assume l: "nlmsg_len_at order buf (fst c) = Inr l" "16 \<le> unat l" "unat l \<le> unat (snd c)"
      "fst c + unat (snd c) \<le> length buf"
    then show ?thesis using load_nlmsghdr_returns[OF _ l(1)] by auto
  qed (use that(2) in simp)
  have r: "\<exists>l. rta_len_at order buf (fst c) = Inr l \<and> 4 \<le> unat l \<and> fst c + unat l \<le> length buf"
    if "inside_buffer (length buf) c" "RTA_OK order buf c = Inr True" for c
    by (rule RTA_OK_cases[OF that(1), of order]) (use that(2) in auto)
  show ?thesis
    using nlmsg.walk_total[OF inside_buffer_start[OF assms], of order]
      rta.walk_total[OF inside_buffer_start[OF assms], of order] m r by (intro conjI) blast+
qed

subsection \<open>Laying out messages\<close>

text \<open>
  A message as a sender lays it out with the length macros: the header, the payload, and zeros up
  to \<open>NLMSG_SPACE\<close>; an attribute likewise. The readers take the payload where \<open>NLMSG_DATA\<close> and
  \<open>RTA_DATA\<close> point, in the length the payload macros give.
\<close>

definition nlmsg_bytes :: "byte_order \<Rightarrow> nlmsghdr \<times> u8 list \<Rightarrow> u8 list" where
  "nlmsg_bytes order = (\<lambda>(h, d).
     word_bytes order 4 (nlmsg_len h) @ word_bytes order 2 (nlmsg_type h) @ word_bytes order 2 (nlmsg_flags h) @
     word_bytes order 4 (nlmsg_seq h) @ word_bytes order 4 (nlmsg_pid h) @ d @
     replicate (unat (NLMSG_SPACE (of_nat (length d))) - unat (NLMSG_LENGTH (of_nat (length d)))) 0)"

definition nlmsg_fits :: "nlmsghdr \<times> u8 list \<Rightarrow> bool" where
  "nlmsg_fits = (\<lambda>(h, d). nlmsg_len h = NLMSG_LENGTH (of_nat (length d)))"

definition nlmsg_read :: "byte_order \<Rightarrow> u8 list \<Rightarrow> nat \<times> cint \<Rightarrow> (nlmsghdr \<times> u8 list) res" where
  "nlmsg_read order buf = (\<lambda>(nlh, len).
     res_bind (load_nlmsghdr order buf nlh) (\<lambda>h.
     res_bind (NLMSG_PAYLOAD order buf nlh 0) (\<lambda>n.
     res_bind (bytes_at buf (NLMSG_DATA nlh) (unat n)) (\<lambda>d. Inr (h, d)))))"

definition rta_bytes :: "byte_order \<Rightarrow> rtattr \<times> u8 list \<Rightarrow> u8 list" where
  "rta_bytes order = (\<lambda>(a, d).
     word_bytes order 2 (rta_len a) @ word_bytes order 2 (rta_type a) @ d @
     replicate (unat (RTA_SPACE (of_nat (length d))) - unat (RTA_LENGTH (of_nat (length d)))) 0)"

definition rta_fits :: "rtattr \<times> u8 list \<Rightarrow> bool" where
  "rta_fits = (\<lambda>(a, d). length d + 4 < 2 ^ 16 \<and> rta_len a = ucast (RTA_LENGTH (of_nat (length d))))"

definition rta_read :: "byte_order \<Rightarrow> u8 list \<Rightarrow> nat \<times> cint \<Rightarrow> (rtattr \<times> u8 list) res" where
  "rta_read order buf = (\<lambda>(rta, len).
     res_bind (rta_len_at order buf rta) (\<lambda>l.
     res_bind (load order 2 buf (rta + 2)) (\<lambda>ty.
     res_bind (RTA_PAYLOAD order buf rta) (\<lambda>n.
     res_bind (bytes_at buf (RTA_DATA rta) (unat n)) (\<lambda>d. Inr (\<lparr>rta_len = l, rta_type = ty\<rparr>, d))))))"

lemma NLMSG_consts: "NLMSG_HDRLEN = 16" "NLMSG_LENGTH 0 = 16" "NLMSG_SPACE 0 = 16"
  by (simp_all add: NLMSG_HDRLEN_def NLMSG_LENGTH_def NLMSG_SPACE_def NLMSG_ALIGN_def NLMSG_ALIGNTO_def sizeof_nlmsghdr_def)

lemma RTA_consts: "RTA_LENGTH 0 = 4" "RTA_LENGTH n = 4 + n"
  by (simp_all add: RTA_LENGTH_def RTA_ALIGN_def RTA_ALIGNTO_def sizeof_rtattr_def)

lemma unat_RTA_ALIGN_64:
  assumes "unat (w :: size_t) + 3 < 2 ^ 32"
  shows "unat (RTA_ALIGN w) = (unat w + 3) div 4 * 4"
proof -
  have u: "unat (w + 3) = unat w + 3" using assms by (subst unat_add_lem[THEN iffD1]) simp_all
  have b: "bit (w + 3) n \<Longrightarrow> n < 32" for n using bit_below[of "w + 3" 32 n] assms u by simp
  have "w + ucast (4 :: u32) - 1 = w + 3" by simp
  then have "RTA_ALIGN w = (w + 3) AND ucast (NOT (mask 2 :: u32))"
    by (simp only: RTA_ALIGN_def RTA_ALIGNTO_def not_3_mask)
  also have "\<dots> = (w + 3) AND NOT (mask 2)"
    by (rule bit_word_eqI) (use b in \<open>auto simp: bit_simps\<close>)
  finally show ?thesis by (simp only: and_not_mask_2 push_drop_2 u)
qed

lemma length_nlmsg_bytes:
  assumes "length d + 16 < 2 ^ 31"
  shows "unat (NLMSG_LENGTH (of_nat (length d))) = length d + 16"
    "length (nlmsg_bytes order (h, d)) = (length d + 16 + 3) div 4 * 4"
proof -
  have l: "unat (of_nat (length d) :: u32) = length d" using assms by (simp add: unat_of_nat take_bit_nat_eq_self)
  then have n: "unat (NLMSG_LENGTH (of_nat (length d))) = length d + 16"
    using assms by (subst (2) l[symmetric]) (simp add: NLMSG_LENGTH_def NLMSG_consts unat_add_lem[THEN iffD1])
  then show "unat (NLMSG_LENGTH (of_nat (length d))) = length d + 16" .
  have "unat (NLMSG_SPACE (of_nat (length d))) = (length d + 16 + 3) div 4 * 4"
    using assms unat_align(1)[of "NLMSG_LENGTH (of_nat (length d))"] by (simp only: NLMSG_SPACE_def n) simp
  then show "length (nlmsg_bytes order (h, d)) = (length d + 16 + 3) div 4 * 4"
    using aligned_bounds(1)[of "length d + 16"] by (simp only: nlmsg_bytes_def n prod.case) simp
qed

lemma length_rta_bytes:
  assumes "length d + 4 < 2 ^ 16"
  shows "length (rta_bytes order (a, d)) = (length d + 4 + 3) div 4 * 4"
proof -
  have n: "unat (RTA_LENGTH (of_nat (length d))) = length d + 4"
    using assms by (simp add: RTA_consts unat_word_ariths unat_of_nat take_bit_nat_eq_self)
  have "unat (RTA_SPACE (of_nat (length d))) = (length d + 4 + 3) div 4 * 4"
    using assms unat_RTA_ALIGN_64[of "RTA_LENGTH (of_nat (length d))"] by (simp only: RTA_SPACE_def n) simp
  then show ?thesis
    using aligned_bounds(1)[of "length d + 4"] by (simp only: rta_bytes_def n prod.case) simp
qed

subsection \<open>Reading back what was laid out\<close>

lemma nlmsg_fields:
  "nlmsg_len_at order (pre @ nlmsg_bytes order (h, d) @ post) (length pre) = Inr (nlmsg_len h)"
  "load_nlmsghdr order (pre @ nlmsg_bytes order (h, d) @ post) (length pre) = Inr h"
proof -
  let ?buf = "pre @ nlmsg_bytes order (h, d) @ post"
  let ?l = "word_bytes order 4 (nlmsg_len h)" and ?t = "word_bytes order 2 (nlmsg_type h)"
    and ?f = "word_bytes order 2 (nlmsg_flags h)" and ?s = "word_bytes order 4 (nlmsg_seq h)"
  have "load order 4 ?buf (length pre) = Inr (nlmsg_len h)"
    unfolding nlmsg_bytes_def prod.case append_assoc by (rule load_word_bytes) simp_all
  moreover have "load order 2 ?buf (length pre + 4) = Inr (nlmsg_type h)"
    unfolding nlmsg_bytes_def prod.case append_assoc
    by (subst append_assoc[of pre ?l, symmetric]) (rule load_word_bytes, simp_all)
  moreover have "load order 2 ?buf (length pre + 6) = Inr (nlmsg_flags h)"
    using load_word_bytes[of 2 _ "pre @ ?l @ ?t" order "nlmsg_flags h"] by (simp add: nlmsg_bytes_def)
  moreover have "load order 4 ?buf (length pre + 8) = Inr (nlmsg_seq h)"
    using load_word_bytes[of 4 _ "pre @ ?l @ ?t @ ?f" order "nlmsg_seq h"] by (simp add: nlmsg_bytes_def)
  moreover have "load order 4 ?buf (length pre + 12) = Inr (nlmsg_pid h)"
    using load_word_bytes[of 4 _ "pre @ ?l @ ?t @ ?f @ ?s" order "nlmsg_pid h"] by (simp add: nlmsg_bytes_def)
  ultimately show "nlmsg_len_at order ?buf (length pre) = Inr (nlmsg_len h)" "load_nlmsghdr order ?buf (length pre) = Inr h"
    by (simp_all add: nlmsg_len_at_def load_nlmsghdr_def)
qed

lemma nlmsg_payload:
  "bytes_at (pre @ nlmsg_bytes order (h, d) @ post) (length pre + 16) (length d) = Inr d"
  using bytes_at_append[of _ "pre @ word_bytes order 4 (nlmsg_len h) @ word_bytes order 2 (nlmsg_type h) @
    word_bytes order 2 (nlmsg_flags h) @ word_bytes order 4 (nlmsg_seq h) @ word_bytes order 4 (nlmsg_pid h)"]
  by (simp add: nlmsg_bytes_def)

lemma rta_fields:
  "rta_len_at order (pre @ rta_bytes order (a, d) @ post) (length pre) = Inr (rta_len a)"
  "load order 2 (pre @ rta_bytes order (a, d) @ post) (length pre + 2) = Inr (rta_type a)"
  "bytes_at (pre @ rta_bytes order (a, d) @ post) (length pre + 4) (length d) = Inr d"
  using load_word_bytes[of 2 "length pre" pre order "rta_len a"]
    load_word_bytes[of 2 _ "pre @ word_bytes order 2 (rta_len a)" order "rta_type a"]
    bytes_at_append[of _ "pre @ word_bytes order 2 (rta_len a) @ word_bytes order 2 (rta_type a)"]
  by (simp_all add: rta_bytes_def rta_len_at_def)

lemma small_int:
  assumes "n < 2 ^ 31"
  shows "unat (of_nat n :: cint) = n" "sint (of_nat n :: cint) = int n"
  using assms by (simp_all add: unat_of_nat take_bit_nat_eq_self signed_of_nat signed_take_bit_int_eq_self)

lemma nlmsg_laid:
  assumes "nlmsg_fits (h, d)" "length (pre @ nlmsg_bytes order (h, d) @ post) \<le> 2 ^ 31 - 1"
  defines "n \<equiv> length (nlmsg_bytes order (h, d))"
  shows "unat (nlmsg_len h) = length d + 16" "length d + 16 \<le> n" "NLMSG_ALIGN (nlmsg_len h) = of_nat n"
    "n + length post < 2 ^ 31"
proof -
  have "length d + 16 \<le> n" by (simp add: n_def nlmsg_bytes_def)
  then show len: "length d + 16 \<le> n" "n + length post < 2 ^ 31" using assms(2) by (simp_all add: n_def)
  then have d: "length d + 16 < 2 ^ 31" by linarith
  show u: "unat (nlmsg_len h) = length d + 16" using assms(1) length_nlmsg_bytes(1)[OF d] by (simp add: nlmsg_fits_def)
  have "unat (NLMSG_ALIGN (nlmsg_len h)) = n"
    using d length_nlmsg_bytes(2)[OF d, of order h] by (subst unat_align) (simp_all add: u n_def)
  then show "NLMSG_ALIGN (nlmsg_len h) = of_nat n" by (metis of_nat_unat ucast_id)
qed

interpretation nlmsg: record_codec "NLMSG_OK order" "NLMSG_NEXT order" "nlmsg_read order"
  "\<lambda>p n. (p, of_nat n)" "nlmsg_bytes order" nlmsg_fits "2 ^ 31 - 1"
  for order
proof (unfold_locales, goal_cases)
  case (1 m pre post)
  obtain h d where m: "m = (h, d)" by (rule prod.exhaust)
  note laid = nlmsg_laid[OF 1[unfolded m]]
  show ?case using laid small_int[OF laid(4)]
    by (simp add: m NLMSG_OK_def nlmsg_fields sizeof_nlmsghdr_def word_le_nat_alt unat_ucast_wider del: of_nat_add)
next
  case (2 m pre post)
  obtain h d where m: "m = (h, d)" by (rule prod.exhaust)
  note laid = nlmsg_laid[OF 2[unfolded m]]
  have "unat (nlmsg_len h - 16) = length d" using laid(1) by (subst unat_sub) (simp_all add: word_le_nat_alt)
  then show ?case
    by (simp add: m nlmsg_read_def nlmsg_fields NLMSG_PAYLOAD_def NLMSG_DATA_def NLMSG_consts nlmsg_payload)
next
  case (3 m pre post)
  obtain h d where m: "m = (h, d)" by (rule prod.exhaust)
  note laid = nlmsg_laid[OF 3[unfolded m]]
  have "length (nlmsg_bytes order (h, d)) < 2 ^ 31" using laid(4) by linarith
  then show ?case using small_int by (simp add: m NLMSG_NEXT_def nlmsg_fields laid(3))
next
  case (4 buf p)
  show ?case by (simp add: NLMSG_OK_def sizeof_nlmsghdr_def)
qed

lemma rta_laid:
  assumes "rta_fits (a, d)" "length (pre @ rta_bytes order (a, d) @ post) \<le> 2 ^ 31 - 1"
  defines "n \<equiv> length (rta_bytes order (a, d))"
  shows "unat (rta_len a) = length d + 4" "length d + 4 \<le> n" "RTA_ALIGN (ucast (rta_len a) :: u32) = of_nat n"
    "n + length post < 2 ^ 31"
proof -
  have "length d + 4 \<le> n" by (simp add: n_def rta_bytes_def)
  then show len: "length d + 4 \<le> n" "n + length post < 2 ^ 31" using assms(2) by (simp_all add: n_def)
  have d: "length d + 4 < 2 ^ 16" using assms(1) by (simp add: rta_fits_def)
  have "unat (of_nat (length d + 4) :: u16) = length d + 4"
    using d by (simp only: unat_of_nat take_bit_nat_eq_self) (simp add: take_bit_nat_eq_self)
  moreover have "rta_len a = of_nat (length d + 4)"
  proof -
    have "RTA_LENGTH (of_nat (length d)) = of_nat (length d + 4)" by (simp add: RTA_consts)
    then have "rta_len a = ucast (of_nat (length d + 4) :: size_t)" using assms(1) by (simp only: rta_fits_def prod.case)
    also have "\<dots> = of_nat (length d + 4)" using d by (simp only: unsigned_of_nat) (simp add: take_bit_nat_eq_self)
    finally show ?thesis .
  qed
  ultimately show u: "unat (rta_len a) = length d + 4" by simp
  have "unat (RTA_ALIGN (ucast (rta_len a) :: u32)) = n"
    using d length_rta_bytes[OF d, of order a] by (subst unat_align) (simp_all add: unat_ucast_wider u n_def)
  then show "RTA_ALIGN (ucast (rta_len a) :: u32) = of_nat n" by (metis of_nat_unat ucast_id)
qed

interpretation rta: record_codec "RTA_OK order" "RTA_NEXT order" "rta_read order"
  "\<lambda>p n. (p, of_nat n)" "rta_bytes order" rta_fits "2 ^ 31 - 1"
  for order
proof (unfold_locales, goal_cases)
  case (1 m pre post)
  obtain a d where m: "m = (a, d)" by (rule prod.exhaust)
  note laid = rta_laid[OF 1[unfolded m]]
  have "sint (ucast (rta_len a) :: cint) = int (length d + 4)" by (simp only: sint_promoted laid(1))
  then show ?case using laid small_int[OF laid(4)]
    by (simp add: m RTA_OK_def rta_fields sizeof_rtattr_def word_le_nat_alt unat_ucast_wider del: of_nat_add)
next
  case (2 m pre post)
  obtain a d where m: "m = (a, d)" by (rule prod.exhaust)
  note laid = rta_laid[OF 2[unfolded m]]
  have "unat (ucast (rta_len a) - 4 :: size_t) = length d"
    using laid(1) by (subst unat_sub) (simp_all add: word_le_nat_alt unat_ucast_wider)
  then show ?case
    using rta_fields(2)[of order pre a d post]
    by (simp add: m rta_read_def rta_fields RTA_PAYLOAD_def RTA_DATA_def RTA_consts(1))
next
  case (3 m pre post)
  obtain a d where m: "m = (a, d)" by (rule prod.exhaust)
  note laid = rta_laid[OF 3[unfolded m]]
  have "length (rta_bytes order (a, d)) < 2 ^ 31" using laid(4) by linarith
  then show ?case using small_int by (simp add: m RTA_NEXT_def rta_fields laid(3))
next
  case (4 buf p)
  show ?case by (simp add: RTA_OK_def sizeof_rtattr_def)
qed

text \<open>
  C24: messages laid out with the length macros are read back by the walk, each with its header and its
  payload, in order, on hosts of either byte order; attributes likewise.
\<close>

theorem netlink_roundtrip:
  assumes "list_all nlmsg_fits ms" "length (concat (map (nlmsg_bytes order) ms)) < 2 ^ 31"
    "list_all rta_fits as" "length (concat (map (rta_bytes order) as)) < 2 ^ 31"
  shows "(let buf = concat (map (nlmsg_bytes order) ms) in
      for_records (NLMSG_OK order buf) (NLMSG_NEXT order buf) (nlmsg_read order buf) (0, of_nat (length buf)) =
        Some (Inr ms)) \<and>
    (let buf = concat (map (rta_bytes order) as) in
      for_records (RTA_OK order buf) (RTA_NEXT order buf) (rta_read order buf) (0, of_nat (length buf)) =
        Some (Inr as))"
  using nlmsg.laid_out[OF assms(1) refl] rta.laid_out[OF assms(3) refl] assms(2,4) unfolding Let_def by simp

end
