(* ===== verification/Tipc_Config.thy ===== *)
theory Tipc_Config
  imports Record_Walks
begin

text \<open>
  The type/length/value items of \<open>linux/tipc_config.h\<close>: descriptors in network order, the functions
  that write one, and the list of items a reader steps through. Offsets into a buffer stand for
  pointers. The data pointer of the writers may be null and otherwise addresses a list of bytes.
\<close>

subsection \<open>Items\<close>

definition TLV_ALIGNTO :: cint where "TLV_ALIGNTO = 4"
definition sizeof_tlv_desc :: size_t where "sizeof_tlv_desc = 4"

text \<open>The mask is an \<open>int\<close>, extended with its sign for a wider argument.\<close>

definition TLV_ALIGN :: "'a::len word \<Rightarrow> 'a word" where
  "TLV_ALIGN datalen = (datalen + scast (TLV_ALIGNTO - 1)) AND scast (NOT (TLV_ALIGNTO - 1))"

definition TLV_LENGTH :: "size_t \<Rightarrow> size_t" where "TLV_LENGTH datalen = sizeof_tlv_desc + datalen"
definition TLV_SPACE :: "size_t \<Rightarrow> size_t" where "TLV_SPACE datalen = TLV_ALIGN (TLV_LENGTH datalen)"
definition TLV_DATA :: "nat \<Rightarrow> nat" where "TLV_DATA tlv = tlv + unat (TLV_LENGTH 0)"

definition tlv_len_at :: "byte_order \<Rightarrow> u8 list \<Rightarrow> nat \<Rightarrow> u16 res" where
  "tlv_len_at order buf tlv = load order 2 buf tlv"

definition tlv_type_at :: "byte_order \<Rightarrow> u8 list \<Rightarrow> nat \<Rightarrow> u16 res" where
  "tlv_type_at order buf tlv = load order 2 buf (tlv + 2)"

definition store_at :: "u8 list \<Rightarrow> nat \<Rightarrow> u8 list \<Rightarrow> u8 list res" where
  "store_at buf p bs =
     (if p + length bs \<le> length buf then Inr (take p buf @ bs @ drop (p + length bs) buf) else Inl OutOfBounds)"

definition TLV_OK :: "byte_order \<Rightarrow> u8 list \<Rightarrow> nat \<Rightarrow> u16 \<Rightarrow> bool res" where
  "TLV_OK order buf tlv space =
     (if ucast space < TLV_SPACE 0 then Inr False
      else res_bind (tlv_len_at order buf tlv) (\<lambda>l. Inr (ntohs order l \<le> space)))"

definition TLV_CHECK :: "byte_order \<Rightarrow> u8 list \<Rightarrow> nat \<Rightarrow> u16 \<Rightarrow> u16 \<Rightarrow> bool res" where
  "TLV_CHECK order buf tlv space exp_type =
     res_bind (TLV_OK order buf tlv space) (\<lambda>ok.
     if \<not> ok then Inr False
     else res_bind (tlv_type_at order buf tlv) (\<lambda>t. Inr (ntohs order t = exp_type)))"

definition TLV_GET_LEN :: "byte_order \<Rightarrow> u8 list \<Rightarrow> nat \<Rightarrow> cint res" where
  "TLV_GET_LEN order buf tlv = res_bind (tlv_len_at order buf tlv) (\<lambda>l. Inr (ucast (ntohs order l)))"

definition TLV_SET_LEN :: "byte_order \<Rightarrow> u8 list \<Rightarrow> nat \<Rightarrow> u16 \<Rightarrow> u8 list res" where
  "TLV_SET_LEN order buf tlv len = store_at buf tlv (word_bytes order 2 (htons order len))"

definition TLV_CHECK_TYPE :: "byte_order \<Rightarrow> u8 list \<Rightarrow> nat \<Rightarrow> u16 \<Rightarrow> bool res" where
  "TLV_CHECK_TYPE order buf tlv type = res_bind (tlv_type_at order buf tlv) (\<lambda>t. Inr (ntohs order t = type))"

definition TLV_SET_TYPE :: "byte_order \<Rightarrow> u8 list \<Rightarrow> nat \<Rightarrow> u16 \<Rightarrow> u8 list res" where
  "TLV_SET_TYPE order buf tlv type = store_at buf (tlv + 2) (word_bytes order 2 (htons order type))"

text \<open>The copy is of \<open>tlv_len\<close> bytes, which counts the descriptor as well.\<close>

definition TLV_SET :: "byte_order \<Rightarrow> u8 list \<Rightarrow> nat \<Rightarrow> u16 \<Rightarrow> u8 list option \<Rightarrow> u16 \<Rightarrow> (u8 list \<times> cint) res" where
  "TLV_SET order buf tlv type data len =
     (let tlv_len = ucast (TLV_LENGTH (ucast len)) :: cint in
      res_bind (store_at buf (tlv + 2) (word_bytes order 2 (htons order type))) (\<lambda>buf.
      res_bind (store_at buf tlv (word_bytes order 2 (htons order (ucast tlv_len)))) (\<lambda>buf.
      res_bind
        (case data of
           None \<Rightarrow> Inr buf
         | Some d \<Rightarrow>
             if len = 0 then Inr buf
             else res_bind (bytes_at d 0 (unat tlv_len)) (store_at buf (TLV_DATA tlv)))
        (\<lambda>buf. Inr (buf, ucast (TLV_SPACE (ucast len)))))))"

subsection \<open>Lists of items\<close>

record tlv_list_desc =
  tlv_ptr :: nat
  tlv_space :: u32

definition TLV_LIST_INIT :: "nat \<Rightarrow> u32 \<Rightarrow> tlv_list_desc" where
  "TLV_LIST_INIT data space = \<lparr>tlv_ptr = data, tlv_space = space\<rparr>"

definition TLV_LIST_EMPTY :: "tlv_list_desc \<Rightarrow> bool" where
  "TLV_LIST_EMPTY ls \<longleftrightarrow> tlv_space ls = 0"

definition TLV_LIST_CHECK :: "byte_order \<Rightarrow> u8 list \<Rightarrow> tlv_list_desc \<Rightarrow> u16 \<Rightarrow> bool res" where
  "TLV_LIST_CHECK order buf ls exp_type = TLV_CHECK order buf (tlv_ptr ls) (ucast (tlv_space ls)) exp_type"

definition TLV_LIST_DATA :: "tlv_list_desc \<Rightarrow> nat" where
  "TLV_LIST_DATA ls = TLV_DATA (tlv_ptr ls)"

definition TLV_LIST_STEP :: "byte_order \<Rightarrow> u8 list \<Rightarrow> tlv_list_desc \<Rightarrow> tlv_list_desc res" where
  "TLV_LIST_STEP order buf ls =
     res_bind (tlv_len_at order buf (tlv_ptr ls)) (\<lambda>l.
     let space = ucast (TLV_ALIGN (ucast (ntohs order l) :: cint)) :: u16 in
     Inr \<lparr>tlv_ptr = tlv_ptr ls + unat space, tlv_space = tlv_space ls - ucast space\<rparr>)"

subsection \<open>Configuration messages\<close>

definition sizeof_tipc_cfg_msg_hdr :: size_t where "sizeof_tipc_cfg_msg_hdr = 16"
definition TCM_ALIGN :: "size_t \<Rightarrow> size_t" where "TCM_ALIGN datalen = (datalen + 3) AND NOT 3"
definition TCM_LENGTH :: "size_t \<Rightarrow> size_t" where "TCM_LENGTH datalen = sizeof_tipc_cfg_msg_hdr + datalen"
definition TCM_SPACE :: "size_t \<Rightarrow> size_t" where "TCM_SPACE datalen = TCM_ALIGN (TCM_LENGTH datalen)"
definition TCM_DATA :: "nat \<Rightarrow> nat" where "TCM_DATA tcm_hdr = tcm_hdr + unat (TCM_LENGTH 0)"

definition TCM_SET :: "byte_order \<Rightarrow> u8 list \<Rightarrow> nat \<Rightarrow> u16 \<Rightarrow> u16 \<Rightarrow> u8 list option \<Rightarrow> u16 \<Rightarrow> (u8 list \<times> cint) res" where
  "TCM_SET order buf msg cmd flags data data_len =
     (let msg_len = ucast (TCM_LENGTH (ucast data_len)) :: cint in
      res_bind (store_at buf msg (word_bytes order 4 (htonl order msg_len))) (\<lambda>buf.
      res_bind (store_at buf (msg + 4) (word_bytes order 2 (htons order cmd))) (\<lambda>buf.
      res_bind (store_at buf (msg + 6) (word_bytes order 2 (htons order flags))) (\<lambda>buf.
      res_bind
        (case data of
           None \<Rightarrow> Inr buf
         | Some d \<Rightarrow>
             if data_len = 0 then Inr buf
             else res_bind (bytes_at d 0 (unat data_len)) (store_at buf (TCM_DATA msg)))
        (\<lambda>buf. Inr (buf, ucast (TCM_SPACE (ucast data_len))))))))"

subsection \<open>Arithmetic\<close>

lemma TLV_ALIGN_eq:
  "TLV_ALIGN (w :: cint) = push_bit 2 (drop_bit 2 (w + 3))" "TLV_ALIGN (x :: size_t) = push_bit 2 (drop_bit 2 (x + 3))"
proof -
  have m: "scast (NOT (4 - 1 :: cint)) = (NOT (mask 2) :: cint)" "scast (NOT (4 - 1 :: cint)) = (NOT (mask 2) :: size_t)"
    by (simp_all add: mask_eq_exp_minus_1)
  show "TLV_ALIGN (w :: cint) = push_bit 2 (drop_bit 2 (w + 3))" "TLV_ALIGN (x :: size_t) = push_bit 2 (drop_bit 2 (x + 3))"
    by (simp_all only: TLV_ALIGN_def TLV_ALIGNTO_def m and_not_mask_2) simp_all
qed

lemma unat_TLV_ALIGN:
  "unat (w :: cint) + 3 < 2 ^ 32 \<Longrightarrow> unat (TLV_ALIGN w) = (unat w + 3) div 4 * 4"
  "unat (x :: size_t) + 3 < 2 ^ 64 \<Longrightarrow> unat (TLV_ALIGN x) = (unat x + 3) div 4 * 4"
  by (simp_all only: TLV_ALIGN_eq push_drop_2) (subst unat_add_lem[THEN iffD1]; simp)+

lemma TLV_consts: "TLV_LENGTH 0 = 4" "TLV_LENGTH n = 4 + n" "TLV_SPACE 0 = 4"
  by (simp_all add: TLV_LENGTH_def TLV_SPACE_def TLV_ALIGN_def TLV_ALIGNTO_def sizeof_tlv_desc_def)

lemma ntohs_htons [simp]: "ntohs order (htons order x) = x"
  by (cases order) (simp_all add: endian_defs)

subsection \<open>Writing an item\<close>

lemma store_at_append: "p = length pre \<Longrightarrow> length old = length bs \<Longrightarrow> store_at (pre @ old @ post) p bs = Inr (pre @ bs @ post)"
  by (simp add: store_at_def)

lemma item_split:
  assumes "tlv + 4 \<le> length buf"
  obtains pre l t post where "buf = pre @ l @ t @ post" "length pre = tlv" "length l = 2" "length t = 2"
proof
  show "buf = take tlv buf @ take 2 (drop tlv buf) @ take 2 (drop (tlv + 2) buf) @ drop (tlv + 4) buf"
    by (metis append_take_drop_id drop_drop add.commute add.assoc numeral_Bit0 one_add_one)
qed (use assms in simp_all)

lemma descriptor_written:
  assumes "length pre = tlv" "length l = 2" "length t = 2"
  shows "res_bind (store_at (pre @ l @ t @ post) (tlv + 2) (word_bytes order 2 ty)) (\<lambda>buf.
      res_bind (store_at buf tlv (word_bytes order 2 len)) f) =
    f (pre @ word_bytes order 2 (len :: u16) @ word_bytes order 2 (ty :: u16) @ post)"
  using assms store_at_append[of "tlv + 2" "pre @ l" t "word_bytes order 2 ty" post]
    store_at_append[of tlv pre l "word_bytes order 2 len" "word_bytes order 2 ty @ post"] by simp

lemma TLV_lengths:
  assumes "unat (len :: u16) = n"
  shows "unat (ucast (TLV_LENGTH (ucast len)) :: cint) = n + 4" "ucast (ucast (TLV_LENGTH (ucast len)) :: cint) = (of_nat (n + 4) :: u16)"
    "ucast (TLV_SPACE (ucast len)) = (of_nat ((n + 4 + 3) div 4 * 4) :: cint)"
proof -
  have n: "n < 2 ^ 16" using assms unsigned_less[of len, where ?'a = nat] by simp
  have "ucast len = (of_nat n :: size_t)" using assms by (metis of_nat_unat)
  then have l: "TLV_LENGTH (ucast len) = of_nat (n + 4)" by (simp add: TLV_consts)
  have u: "unat (TLV_LENGTH (ucast len)) = n + 4" using n by (subst l, subst unat_of_nat_64) simp_all
  show "unat (ucast (TLV_LENGTH (ucast len)) :: cint) = n + 4"
    using n by (simp only: unsigned_ucast_eq u) (simp add: take_bit_nat_eq_self)
  show "ucast (ucast (TLV_LENGTH (ucast len)) :: cint) = (of_nat (n + 4) :: u16)"
    using n by (simp only: l unsigned_of_nat) (simp add: take_bit_nat_eq_self)
  have "unat (TLV_SPACE (ucast len)) = (n + 4 + 3) div 4 * 4"
    using n by (simp only: TLV_SPACE_def) (subst unat_TLV_ALIGN; simp only: u; simp)
  then show "ucast (TLV_SPACE (ucast len)) = (of_nat ((n + 4 + 3) div 4 * 4) :: cint)" by (metis of_nat_unat)
qed

text \<open>
  C27: what a call of \<open>TLV_SET\<close> with data does. It needs four bytes more than the length it is given, both behind
  the data and behind the place for the value, or it leaves one of the two arrays.
\<close>

theorem TLV_SET_outcome:
  assumes "tlv + 4 \<le> length buf" "unat len = n" "0 < n"
  shows "TLV_SET order buf tlv ty (Some d) len =
    (if n + 4 \<le> length d \<and> tlv + 8 + n \<le> length buf
     then Inr (take tlv buf @ word_bytes order 2 (htons order (of_nat (n + 4))) @
                 word_bytes order 2 (htons order ty) @ take (n + 4) d @ drop (tlv + 8 + n) buf,
               of_nat ((n + 4 + 3) div 4 * 4))
     else Inl OutOfBounds)"
proof -
  obtain pre l t post where b: "buf = pre @ l @ t @ post" "length pre = tlv" "length l = 2" "length t = 2"
    by (rule item_split[OF assms(1)])
  have "len \<noteq> 0" using assms(2,3) by auto
  then show ?thesis
    unfolding TLV_SET_def Let_def b(1) descriptor_written[OF b(2-4)] TLV_lengths[OF assms(2)]
    using b(2-4) by (simp add: bytes_at_def store_at_def TLV_DATA_def TLV_consts)
qed

lemma TLV_SET_no_data:
  assumes "tlv + 4 \<le> length buf" "data = None \<or> len = 0" "unat len = n"
  shows "TLV_SET order buf tlv ty data len =
    Inr (take tlv buf @ word_bytes order 2 (htons order (of_nat (n + 4))) @ word_bytes order 2 (htons order ty) @
           drop (tlv + 4) buf, of_nat ((n + 4 + 3) div 4 * 4))"
proof -
  obtain pre l t post where b: "buf = pre @ l @ t @ post" "length pre = tlv" "length l = 2" "length t = 2"
    by (rule item_split[OF assms(1)])
  then show ?thesis
    unfolding TLV_SET_def Let_def b(1) descriptor_written[OF b(2-4)] TLV_lengths[OF assms(3)]
    using assms(2) b(2-4) by (auto split: option.splits)
qed

subsection \<open>Reading a list of items\<close>

text \<open>
  A reader of items of one type: it goes on while the list is not empty and the item passes the
  check, and takes the value from where \<open>TLV_LIST_DATA\<close> points.
\<close>

definition tlv_more :: "byte_order \<Rightarrow> u16 \<Rightarrow> u8 list \<Rightarrow> tlv_list_desc \<Rightarrow> bool res" where
  "tlv_more order ty buf ls = (if TLV_LIST_EMPTY ls then Inr False else TLV_LIST_CHECK order buf ls ty)"

definition tlv_read :: "byte_order \<Rightarrow> u8 list \<Rightarrow> tlv_list_desc \<Rightarrow> u8 list res" where
  "tlv_read order buf ls =
     res_bind (TLV_GET_LEN order buf (tlv_ptr ls)) (\<lambda>l. bytes_at buf (TLV_LIST_DATA ls) (unat l - unat (TLV_LENGTH 0)))"

text \<open>An item as the comment in the header describes it: descriptor, value, padding.\<close>

definition tlv_bytes :: "byte_order \<Rightarrow> u16 \<Rightarrow> u8 list \<Rightarrow> u8 list" where
  "tlv_bytes order ty d =
     word_bytes order 2 (htons order (of_nat (length d + 4))) @ word_bytes order 2 (htons order ty) @ d @
     replicate ((length d + 4 + 3) div 4 * 4 - (length d + 4)) 0"

lemma tlv_fields:
  "tlv_len_at order (pre @ tlv_bytes order ty d @ post) (length pre) = Inr (htons order (of_nat (length d + 4)))"
  "tlv_type_at order (pre @ tlv_bytes order ty d @ post) (length pre) = Inr (htons order ty)"
  "bytes_at (pre @ tlv_bytes order ty d @ post) (length pre + 4) (length d) = Inr d"
  using load_word_bytes[of 2 "length pre" pre order "htons order (of_nat (length d + 4))"]
    load_word_bytes[of 2 _ "pre @ word_bytes order 2 (htons order (of_nat (length d + 4)))" order "htons order ty"]
    bytes_at_append[of _ "pre @ word_bytes order 2 (htons order (of_nat (length d + 4))) @ word_bytes order 2 (htons order ty)"]
  by (simp_all add: tlv_bytes_def tlv_len_at_def tlv_type_at_def)

lemma length_tlv_bytes: "length (tlv_bytes order ty d) = (length d + 4 + 3) div 4 * 4"
  using aligned_bounds(1)[of "length d + 4"] by (simp add: tlv_bytes_def)

lemma step_space:
  assumes "n < 2 ^ 16 - 3"
  shows "ucast (TLV_ALIGN (ucast (of_nat n :: u16) :: cint)) = (of_nat ((n + 3) div 4 * 4) :: u16)"
proof -
  have "unat (of_nat n :: u16) = n" using assms by (simp add: unat_of_nat take_bit_nat_eq_self)
  then have u: "unat (ucast (of_nat n :: u16) :: cint) = n" by (simp add: unat_ucast_wider)
  have "unat (TLV_ALIGN (ucast (of_nat n :: u16) :: cint)) = (n + 3) div 4 * 4"
    using assms by (subst unat_TLV_ALIGN; simp only: u; simp)
  then show ?thesis by (metis of_nat_unat)
qed

lemma small_16: "n < 2 ^ 16 \<Longrightarrow> unat (of_nat n :: u16) = n" "n < 2 ^ 16 \<Longrightarrow> unat (of_nat n :: u32) = n"
  "n < 2 ^ 16 \<Longrightarrow> ucast (of_nat n :: u32) = (of_nat n :: u16)" "n < 2 ^ 16 \<Longrightarrow> ucast (of_nat n :: u16) = (of_nat n :: u32)"
  by (simp_all add: unat_of_nat unsigned_of_nat take_bit_nat_eq_self)

lemma tlv_laid:
  assumes "length d + 4 < 2 ^ 16 - 3" "length (pre @ tlv_bytes order ty d @ post) \<le> 2 ^ 16 - 1"
  defines "n \<equiv> length (tlv_bytes order ty d)"
  shows "length d + 4 \<le> n" "n + length post < 2 ^ 16" "unat (of_nat (length d + 4) :: u16) = length d + 4"
    "ucast (TLV_ALIGN (ucast (of_nat (length d + 4) :: u16) :: cint)) = (of_nat n :: u16)"
  using assms small_16(1)[of "length d + 4"] step_space[of "length d + 4"] aligned_bounds(1)[of "length d + 4"]
  by (simp_all add: n_def length_tlv_bytes)

interpretation tlv: record_codec "tlv_more order ty" "TLV_LIST_STEP order" "tlv_read order"
  "\<lambda>p n. TLV_LIST_INIT p (of_nat n)" "tlv_bytes order ty" "\<lambda>d. length d + 4 < 2 ^ 16 - 3" "2 ^ 16 - 1"
  for order ty
proof (unfold_locales, goal_cases)
  case (1 d pre post)
  note laid = tlv_laid[OF 1]
  let ?n = "length (tlv_bytes order ty d) + length post"
  have z: "(of_nat ?n :: u32) \<noteq> 0" using laid(1) small_16(2)[OF laid(2)] by (metis add_is_0 le_zero_eq unsigned_0 zero_neq_numeral)
  have u: "unat (ucast (of_nat ?n :: u16) :: size_t) = ?n"
    by (subst unat_ucast_wider) (simp, rule small_16(1)[OF laid(2)])
  have "\<not> (ucast (of_nat ?n :: u16) :: size_t) < 4" using laid(1) by (subst word_less_nat_alt, subst u) simp
  moreover have "of_nat (length d + 4) \<le> (of_nat ?n :: u16)"
    using laid(1) by (subst word_le_nat_alt, subst laid(3), subst small_16(1)[OF laid(2)]) simp
  ultimately show ?case using z
    by (simp only: tlv_more_def TLV_LIST_EMPTY_def TLV_LIST_INIT_def TLV_LIST_CHECK_def TLV_CHECK_def TLV_OK_def
        tlv_list_desc.simps small_16(3)[OF laid(2)] TLV_consts tlv_fields res_bind_Inr ntohs_htons) simp
next
  case (2 d pre post)
  note laid = tlv_laid[OF 2]
  show ?case
    by (simp only: tlv_read_def TLV_GET_LEN_def TLV_LIST_INIT_def TLV_LIST_DATA_def TLV_DATA_def tlv_list_desc.simps
        tlv_fields res_bind_Inr ntohs_htons unat_ucast_wider TLV_consts) (simp add: unat_ucast_wider laid tlv_fields del: of_nat_add)
next
  case (3 d pre post)
  note laid = tlv_laid[OF 3]
  have n: "length (tlv_bytes order ty d) < 2 ^ 16" using laid(2) by linarith
  show ?case
    by (simp only: TLV_LIST_STEP_def TLV_LIST_INIT_def tlv_list_desc.simps tlv_fields res_bind_Inr ntohs_htons Let_def
        laid(4) small_16(1)[OF n] small_16(4)[OF n]) simp
next
  case (4 buf p)
  show ?case by (simp add: tlv_more_def TLV_LIST_EMPTY_def TLV_LIST_INIT_def)
qed

text \<open>
  C25: a list of items of one type, laid out as the comment in the header describes, is read back value
  by value by a loop over \<open>TLV_LIST_CHECK\<close> and \<open>TLV_LIST_STEP\<close>.
\<close>

theorem tlv_list_roundtrip:
  assumes "list_all (\<lambda>d. length d + 4 < 2 ^ 16 - 3) ds" "buf = concat (map (tlv_bytes order ty) ds)"
    "length buf < 2 ^ 16"
  shows "for_records (tlv_more order ty buf) (TLV_LIST_STEP order buf) (tlv_read order buf)
    (TLV_LIST_INIT 0 (of_nat (length buf))) = Some (Inr ds)"
  using tlv.laid_out[OF assms(1,2)] assms(3) by simp

subsection \<open>Lists from elsewhere\<close>

text \<open>
  A descriptor at the start of the buffer that passes \<open>TLV_CHECK\<close>, with any length field that is not
  beyond the end.
\<close>

lemma descriptor_at_start:
  assumes "buf = word_bytes order 2 (htons order l) @ word_bytes order 2 (htons order ty) @ rest"
  shows "tlv_len_at order buf 0 = Inr (htons order l)" "tlv_type_at order buf 0 = Inr (htons order ty)"
  using load_word_bytes[of 2 0 "[]" order "htons order l"]
    load_word_bytes[of 2 2 "word_bytes order 2 (htons order l)" order "htons order ty"]
  by (simp_all add: assms tlv_len_at_def tlv_type_at_def del: add_2_eq_Suc')

lemma first_item_passes:
  assumes "buf = word_bytes order 2 (htons order l) @ word_bytes order 2 (htons order ty) @ rest"
    "length buf < 2 ^ 16" "unat l \<le> length buf"
  shows "tlv_more order ty buf (TLV_LIST_INIT 0 (of_nat (length buf))) = Inr True"
proof -
  have n: "4 \<le> length buf" by (simp add: assms(1))
  have z: "(of_nat (length buf) :: u32) \<noteq> 0"
    using n small_16(2)[OF assms(2)] by (metis le_zero_eq unsigned_0 zero_neq_numeral)
  have "unat (ucast (of_nat (length buf) :: u16) :: size_t) = length buf"
    by (subst unat_ucast_wider) (simp, rule small_16(1)[OF assms(2)])
  then have "\<not> (ucast (of_nat (length buf) :: u16) :: size_t) < 4" using n by (simp add: word_less_nat_alt)
  moreover have "l \<le> of_nat (length buf)" using assms(3) by (simp add: word_le_nat_alt small_16(1)[OF assms(2)])
  ultimately show ?thesis using z
    by (simp only: tlv_more_def TLV_LIST_EMPTY_def TLV_LIST_INIT_def TLV_LIST_CHECK_def TLV_CHECK_def TLV_OK_def
        tlv_list_desc.simps small_16(3)[OF assms(2)] TLV_consts descriptor_at_start[OF assms(1)] res_bind_Inr ntohs_htons) simp
qed

lemma wrapped_space_faults:
  assumes "length buf = l" "l < a" "a \<le> l + 3"
  shows "tlv_more order ty buf \<lparr>tlv_ptr = a, tlv_space = of_nat l - of_nat a\<rparr> = Inl OutOfBounds"
proof -
  define k where "k = a - l"
  have e: "of_nat l - of_nat a = (- of_nat k :: u32)" using assms by (simp add: k_def of_nat_diff)
  have f: "tlv_len_at order buf a = Inl OutOfBounds" using assms by (simp add: tlv_len_at_def load_def)
  have m: "(ucast (ucast (- 1 :: u32) :: u16) :: size_t) = 0xFFFF"
    by (simp add: unsigned_minus_1_eq_mask mask_eq_exp_minus_1)
  consider "k = 1" | "k = 2" | "k = 3" using assms unfolding k_def by linarith
  then show ?thesis
    by cases (simp_all add: e f m tlv_more_def TLV_LIST_EMPTY_def TLV_LIST_CHECK_def TLV_CHECK_def TLV_OK_def TLV_consts)
qed

text \<open>
  C26: the checks do not make a list from an untrusted source safe. A length of zero passes, and the step
  then stays where it is: the loop never ends. A last item whose length is not a multiple of four
  passes too; the step goes past the end by the missing padding, the remaining space wraps to
  almost $2^{32}$, and the next check reads outside the buffer.
\<close>

theorem tlv_list_unchecked:
  assumes "length rest + 4 < 2 ^ 16 - 3" "(length rest + 4) mod 4 \<noteq> 0"
  shows "(let buf = word_bytes order 2 (htons order 0) @ word_bytes order 2 (htons order ty) @ rest in
      for_records (tlv_more order ty buf) (TLV_LIST_STEP order buf) Inr (TLV_LIST_INIT 0 (of_nat (length buf))) = None) \<and>
    (let buf = word_bytes order 2 (htons order (of_nat (length rest + 4))) @ word_bytes order 2 (htons order ty) @ rest in
      for_records (tlv_more order ty buf) (TLV_LIST_STEP order buf) Inr (TLV_LIST_INIT 0 (of_nat (length buf))) =
        Some (Inl OutOfBounds))"
proof (intro conjI)
  let ?buf = "word_bytes order 2 (htons order 0) @ word_bytes order 2 (htons order ty) @ rest"
  let ?ls = "TLV_LIST_INIT 0 (of_nat (length ?buf))"
  have "TLV_LIST_STEP order ?buf ?ls = Inr ?ls"
    by (simp add: TLV_LIST_STEP_def TLV_LIST_INIT_def descriptor_at_start[OF refl] TLV_ALIGN_def TLV_ALIGNTO_def)
  then show "let buf = ?buf in for_records (tlv_more order ty buf) (TLV_LIST_STEP order buf) Inr
      (TLV_LIST_INIT 0 (of_nat (length buf))) = None"
    unfolding Let_def using first_item_passes[OF refl, of order 0 ty rest] assms(1)
    by (intro for_records_stuck) simp_all
next
  let ?l = "length rest + 4"
  let ?buf = "word_bytes order 2 (htons order (of_nat ?l)) @ word_bytes order 2 (htons order ty) @ rest"
  have n: "length ?buf = ?l" by simp
  define a where "a = (?l + 3) div 4 * 4"
  have a: "?l < a" "a \<le> ?l + 3" "a < 2 ^ 16" using assms aligned_bounds[of ?l] unfolding a_def by presburger+
  let ?ls = "\<lparr>tlv_ptr = a, tlv_space = of_nat ?l - of_nat a\<rparr>"
  have "TLV_LIST_STEP order ?buf (TLV_LIST_INIT 0 (of_nat (length ?buf))) = Inr ?ls"
    using step_space[OF assms(1)] small_16(1,4)[OF a(3)]
    by (simp only: TLV_LIST_STEP_def TLV_LIST_INIT_def descriptor_at_start[OF refl] tlv_list_desc.simps res_bind_Inr
        ntohs_htons Let_def n flip: a_def) simp
  moreover have "tlv_more order ty ?buf ?ls = Inl OutOfBounds"
    using a n by (intro wrapped_space_faults) simp_all
  ultimately show "let buf = ?buf in for_records (tlv_more order ty buf) (TLV_LIST_STEP order buf) Inr
      (TLV_LIST_INIT 0 (of_nat (length buf))) = Some (Inl OutOfBounds)"
    unfolding Let_def using first_item_passes[OF refl, of order "of_nat ?l" ty rest] assms(1) small_16(1)[of ?l]
    by (intro for_records_step_fault[OF _ _ _ for_records_fault]) simp_all
qed

subsection \<open>Configuration messages\<close>

lemma TCM_lengths:
  assumes "unat (len :: u16) = n"
  shows "ucast (TCM_LENGTH (ucast len)) = (of_nat (n + 16) :: cint)" "unat (TCM_SPACE (ucast len)) = (n + 16 + 3) div 4 * 4"
proof -
  have n: "n < 2 ^ 16" using assms unsigned_less[of len, where ?'a = nat] by simp
  have "ucast len = (of_nat n :: size_t)" using assms by (metis of_nat_unat)
  then have l: "TCM_LENGTH (ucast len) = of_nat (n + 16)" by (simp add: TCM_LENGTH_def sizeof_tipc_cfg_msg_hdr_def)
  then show "ucast (TCM_LENGTH (ucast len)) = (of_nat (n + 16) :: cint)"
    using n by (simp only: unsigned_of_nat) (simp add: take_bit_nat_eq_self)
  have "unat (of_nat (n + 16 + 3) :: size_t) = n + 16 + 3" using n by (intro unat_of_nat_64) simp
  moreover have "TCM_SPACE (ucast len) = push_bit 2 (drop_bit 2 (of_nat (n + 16 + 3)))"
    by (simp add: TCM_SPACE_def TCM_ALIGN_def l and_not_mask_2[symmetric] mask_eq_exp_minus_1 add.commute)
  ultimately show "unat (TCM_SPACE (ucast len)) = (n + 16 + 3) div 4 * 4" by (simp only: push_drop_2)
qed

text \<open>
  The message writer copies just the data; the reserved bytes keep what was in the buffer.
\<close>

lemma TCM_SET_result:
  assumes "buf = pre @ l @ t @ f @ reserved @ old @ post" "length l = 4" "length t = 2" "length f = 2"
    "length reserved = 8" "length old = n" "n \<le> length d" "unat len = n"
  shows "TCM_SET order buf (length pre) cmd flags (Some d) len =
    Inr (pre @ word_bytes order 4 (htonl order (of_nat (n + 16))) @ word_bytes order 2 (htons order cmd) @
           word_bytes order 2 (htons order flags) @ reserved @ take n d @ post,
         of_nat ((n + 16 + 3) div 4 * 4))"
proof -
  let ?l = "word_bytes order 4 (htonl order (of_nat (n + 16) :: u32))" and ?t = "word_bytes order 2 (htons order cmd)"
    and ?f = "word_bytes order 2 (htons order flags)"
  have "store_at buf (length pre) ?l = Inr (pre @ ?l @ t @ f @ reserved @ old @ post)"
    "store_at (pre @ ?l @ t @ f @ reserved @ old @ post) (length pre + 4) ?t =
       Inr (pre @ ?l @ ?t @ f @ reserved @ old @ post)"
    "store_at (pre @ ?l @ ?t @ f @ reserved @ old @ post) (length pre + 6) ?f =
       Inr (pre @ ?l @ ?t @ ?f @ reserved @ old @ post)"
    "store_at (pre @ ?l @ ?t @ ?f @ reserved @ old @ post) (length pre + 16) (take n d) =
       Inr (pre @ ?l @ ?t @ ?f @ reserved @ take n d @ post)"
    using assms by (simp_all add: store_at_def)
  moreover have "old = []" if "len = 0" using assms(6,8) that by simp
  moreover have "ucast (TCM_SPACE (ucast len)) = (of_nat ((n + 16 + 3) div 4 * 4) :: cint)"
    using TCM_lengths(2)[OF assms(8)] by (metis of_nat_unat)
  ultimately show ?thesis using assms(6-8) TCM_lengths(1)[OF assms(8)]
    by (auto simp: TCM_SET_def Let_def bytes_at_def TCM_DATA_def TCM_LENGTH_def sizeof_tipc_cfg_msg_hdr_def)
qed

end
