(* ===== verification/Control_Messages.thy ===== *)
theory Control_Messages
  imports Record_Walks
begin

text \<open>
  The ancillary data of a socket message, from \<open>bits/socket.h\<close>: the macros that size and align
  control messages and \<open>__cmsg_nxthdr\<close>, which steps to the next one without trusting the length of the
  current one. The control buffer is a list of bytes and a header pointer is an offset into it, or
  null.
\<close>

definition sizeof_cmsghdr :: size_t where "sizeof_cmsghdr = 16"
definition sizeof_size_t :: size_t where "sizeof_size_t = 8"

record cmsghdr =
  cmsg_len :: size_t
  cmsg_level :: cint
  cmsg_type :: cint

definition CMSG_ALIGN :: "size_t \<Rightarrow> size_t" where
  "CMSG_ALIGN len = (len + sizeof_size_t - 1) AND NOT (sizeof_size_t - 1)"

definition CMSG_SPACE :: "size_t \<Rightarrow> size_t" where
  "CMSG_SPACE len = CMSG_ALIGN len + CMSG_ALIGN sizeof_cmsghdr"

definition CMSG_LEN :: "size_t \<Rightarrow> size_t" where
  "CMSG_LEN len = CMSG_ALIGN sizeof_cmsghdr + len"

definition CMSG_PADDING :: "size_t \<Rightarrow> size_t" where
  "CMSG_PADDING len = (sizeof_size_t - (len AND (sizeof_size_t - 1))) AND (sizeof_size_t - 1)"

definition CMSG_DATA :: "nat \<Rightarrow> nat" where
  "CMSG_DATA cmsg = cmsg + unat sizeof_cmsghdr"

definition CMSG_FIRSTHDR :: "size_t \<Rightarrow> nat option" where
  "CMSG_FIRSTHDR msg_controllen = (if sizeof_cmsghdr \<le> msg_controllen then Some 0 else None)"

definition cmsg_len_at :: "byte_order \<Rightarrow> u8 list \<Rightarrow> nat \<Rightarrow> size_t res" where
  "cmsg_len_at order control cmsg = load order 8 control cmsg"

definition cmsg_nxthdr :: "byte_order \<Rightarrow> u8 list \<Rightarrow> size_t \<Rightarrow> nat \<Rightarrow> nat option res" where
  "cmsg_nxthdr order control msg_controllen cmsg =
     res_bind (cmsg_len_at order control cmsg) (\<lambda>len.
     let size_needed = sizeof_cmsghdr + CMSG_PADDING len; left = msg_controllen - of_nat cmsg in
     if len < sizeof_cmsghdr then Inr None
     else if left < size_needed \<or> left - size_needed < len then Inr None
     else Inr (Some (cmsg + unat (CMSG_ALIGN len))))"

text \<open>\<open>CMSG_NXTHDR\<close> as the step of a loop that runs while the header is not null.\<close>

definition cmsg_more :: "nat option \<Rightarrow> bool res" where
  "cmsg_more c = Inr (c \<noteq> None)"

definition CMSG_NXTHDR :: "byte_order \<Rightarrow> u8 list \<Rightarrow> nat option \<Rightarrow> nat option res" where
  "CMSG_NXTHDR order control c =
     (case c of None \<Rightarrow> Inl NullDeref | Some p \<Rightarrow> cmsg_nxthdr order control (of_nat (length control)) p)"

subsection \<open>Arithmetic\<close>

lemma mask_7: "sizeof_size_t - 1 = mask 3"
  by (simp add: sizeof_size_t_def mask_eq_exp_minus_1)

lemma unat_CMSG_ALIGN: "unat l + 7 < 2 ^ 64 \<Longrightarrow> unat (CMSG_ALIGN l) = (unat l + 7) div 8 * 8"
proof -
  assume "unat l + 7 < 2 ^ 64"
  then have u: "unat (l + 7) = unat l + 7" by (subst unat_add_lem[THEN iffD1]) simp_all
  have "CMSG_ALIGN l = (l + 7) AND NOT (mask 3)"
    by (simp only: CMSG_ALIGN_def mask_7) (simp add: sizeof_size_t_def add.commute)
  then show ?thesis using push_drop[of 3 "l + 7"] by (simp add: and_not_mask u)
qed

lemma CMSG_consts: "CMSG_ALIGN sizeof_cmsghdr = 16" "CMSG_LEN n = 16 + n" "CMSG_SPACE n = CMSG_ALIGN n + 16"
  by (simp_all add: CMSG_ALIGN_def CMSG_LEN_def CMSG_SPACE_def sizeof_cmsghdr_def sizeof_size_t_def)

lemma pad_8: "n + (8 - n mod 8) mod 8 = (n + 7) div 8 * (8 :: nat)"
proof -
  define q r where "q = n div 8" and "r = n mod 8"
  have n: "n = r + 8 * q" "r < 8" by (simp_all add: q_def r_def)
  have "(n + 7) div 8 = q + (r + 7) div 8" by (simp add: n(1) add.commute add.left_commute)
  moreover have "(r + 7) div 8 = (if r = 0 then 0 else 1)"
    using n(2) by (auto intro: div_nat_eqI)
  moreover have "(8 - r) mod 8 = (if r = 0 then 0 else 8 - r)" using n(2) by simp
  ultimately show ?thesis using n by (simp flip: r_def)
qed

lemma unat_and_7: "unat ((x :: size_t) AND mask 3) = unat x mod 8"
  by (simp only: take_bit_eq_mask[symmetric] unsigned_take_bit_eq) (simp add: take_bit_eq_mod)

lemma unat_CMSG_PADDING: "unat (CMSG_PADDING l) = (8 - unat l mod 8) mod 8"
proof -
  have "(l AND mask 3) \<le> 8" by (simp only: word_le_nat_alt unat_and_7) simp
  then have "unat (8 - (l AND mask 3)) = 8 - unat l mod 8" by (simp only: unat_sub unat_and_7) simp
  then show ?thesis unfolding CMSG_PADDING_def mask_7 unat_and_7 by (simp only: sizeof_size_t_def)
qed

text \<open>The comment above \<open>__CMSG_PADDING\<close> states this equation.\<close>

lemma CMSG_PADDING_aligns:
  "unat l + 7 < 2 ^ 64 \<Longrightarrow> unat l + unat (CMSG_PADDING l) = unat (CMSG_ALIGN l)"
  by (simp only: unat_CMSG_ALIGN unat_CMSG_PADDING pad_8)

subsection \<open>The next header\<close>

text \<open>
  In numbers: there is a next header just if the current one has a proper length and the buffer has
  room for it, its padding and another header.
\<close>

lemma cmsg_nxthdr_eq:
  assumes "p + 16 \<le> length control" "length control < 2 ^ 63" "cmsg_len_at order control p = Inr l"
  defines "whole \<equiv> (unat l + 7) div 8 * 8"
  shows "cmsg_nxthdr order control (of_nat (length control)) p =
    Inr (if 16 \<le> unat l \<and> p + whole + 16 \<le> length control then Some (p + whole) else None)"
proof -
  define pad where "pad = (8 - unat l mod 8) mod 8"
  let ?left = "of_nat (length control) - of_nat p :: size_t" and ?need = "sizeof_cmsghdr + CMSG_PADDING l"
  have whole: "whole = unat l + pad" "pad < 8" by (simp_all add: whole_def pad_def pad_8)
  have "?left = of_nat (length control - p)" using assms(1) by (simp add: of_nat_diff)
  moreover have "length control - p < 2 ^ 64" using assms(2) by simp
  ultimately have left: "unat ?left = length control - p" by (simp only: unat_of_nat_64)
  have "unat (CMSG_PADDING l) = pad" by (simp add: unat_CMSG_PADDING pad_def)
  then have need: "unat ?need = 16 + pad"
    using whole(2) by (simp add: sizeof_cmsghdr_def) (subst unat_add_lem[THEN iffD1]; simp)
  have fits: "(?left < ?need \<or> ?left - ?need < l) \<longleftrightarrow> \<not> p + whole + 16 \<le> length control"
  proof (cases "?left < ?need")
    case False
    then have n: "16 + pad \<le> length control - p" by (simp only: word_less_nat_alt left need not_less)
    have "unat (?left - ?need) = length control - p - (16 + pad)"
      using False by (subst unat_sub) (simp_all only: not_less left need)
    then have "?left - ?need < l \<longleftrightarrow> length control - p - (16 + pad) < unat l" by (simp only: word_less_nat_alt)
    then show ?thesis using False n whole(1) by auto
  qed (auto simp only: word_less_nat_alt left need whole(1))
  have "unat (CMSG_ALIGN l) = whole" if "p + whole + 16 \<le> length control"
    using that assms(2) whole(1) unat_CMSG_ALIGN[of l] by (simp add: whole_def)
  then show ?thesis using fits assms(3)
    by (simp add: cmsg_nxthdr_def Let_def word_less_nat_alt[of l] sizeof_cmsghdr_def[THEN arg_cong[of _ _ unat]])
qed

subsection \<open>Walking a control buffer\<close>

definition cmsg_pos :: "u8 list \<Rightarrow> nat option \<Rightarrow> nat" where
  "cmsg_pos control c = (case c of None \<Rightarrow> length control | Some p \<Rightarrow> p)"

definition cmsg_inv :: "u8 list \<Rightarrow> nat option \<Rightarrow> bool" where
  "cmsg_inv control c \<longleftrightarrow> length control < 2 ^ 63 \<and> (\<forall>p. c = Some p \<longrightarrow> p + 16 \<le> length control)"

definition cmsg_span :: "byte_order \<Rightarrow> u8 list \<Rightarrow> nat option \<Rightarrow> nat" where
  "cmsg_span order control c =
     (case c of None \<Rightarrow> 0 | Some p \<Rightarrow> (case cmsg_len_at order control p of Inl _ \<Rightarrow> 0 | Inr l \<Rightarrow> unat l))"

lemma up_to_8: "n \<le> (n + 7) div 8 * (8 :: nat)"
  using pad_8[of n] by linarith

interpretation cmsg: record_walk cmsg_more "CMSG_NXTHDR order control" "cmsg_pos control" "cmsg_span order control"
  "cmsg_inv control" "length control"
  for order control
proof (unfold_locales, goal_cases)
  case (1 c)
  then show ?case by (simp add: cmsg_more_def)
next
  case (2 c)
  then show ?case by (auto simp: cmsg_more_def cmsg_inv_def cmsg_pos_def)
next
  case (3 c)
  then obtain p where p: "c = Some p" "p + 16 \<le> length control" "length control < 2 ^ 63"
    by (auto simp: cmsg_more_def cmsg_inv_def)
  obtain l where l: "cmsg_len_at order control p = Inr l"
    using p(2) load_returns[of p 8 control order] by (auto simp: cmsg_len_at_def)
  show ?case using p l up_to_8[of "unat l"]
    by (auto simp: CMSG_NXTHDR_def cmsg_nxthdr_eq[OF p(2,3) l] cmsg_inv_def cmsg_pos_def cmsg_span_def cmsg_more_def)
qed

lemma CMSG_FIRSTHDR_eq:
  "length control < 2 ^ 63 \<Longrightarrow> CMSG_FIRSTHDR (of_nat (length control)) = (if 16 \<le> length control then Some 0 else None)"
  using unat_of_nat_64[of "length control"] by (simp add: CMSG_FIRSTHDR_def sizeof_cmsghdr_def word_le_nat_alt)

text \<open>
  C23: whatever the control buffer holds, the walk from \<open>CMSG_FIRSTHDR\<close> with \<open>CMSG_NXTHDR\<close> ends, every
  header it visits lies inside the buffer, and each message ends before the next one starts.
\<close>

theorem cmsg_walk_inside:
  assumes "length control < 2 ^ 63"
  shows "\<exists>cs. for_records cmsg_more (CMSG_NXTHDR order control) Inr (CMSG_FIRSTHDR (of_nat (length control))) =
      Some (Inr cs) \<and>
    (\<forall>c\<in>set cs. \<exists>p l. c = Some p \<and> p + 16 \<le> length control \<and> cmsg_len_at order control p = Inr l) \<and>
    sorted_wrt (\<lambda>c d. cmsg_pos control c + cmsg_span order control c \<le> cmsg_pos control d) cs"
proof -
  have "\<exists>p l. c = Some p \<and> p + 16 \<le> length control \<and> cmsg_len_at order control p = Inr l"
    if "cmsg_inv control c" "cmsg_more c = Inr True" for c
    using that by (auto simp: cmsg_inv_def cmsg_more_def cmsg_len_at_def load_def)
  moreover have "cmsg_inv control (CMSG_FIRSTHDR (of_nat (length control)))"
    using assms by (simp add: CMSG_FIRSTHDR_eq cmsg_inv_def)
  ultimately show ?thesis using cmsg.walk_total by blast
qed

subsection \<open>Laying out control messages\<close>

definition cmsg_bytes :: "byte_order \<Rightarrow> cmsghdr \<times> u8 list \<Rightarrow> u8 list" where
  "cmsg_bytes order = (\<lambda>(h, d).
     word_bytes order 8 (cmsg_len h) @ word_bytes order 4 (cmsg_level h) @ word_bytes order 4 (cmsg_type h) @ d @
     replicate (unat (CMSG_SPACE (of_nat (length d))) - unat (CMSG_LEN (of_nat (length d)))) 0)"

definition cmsg_fits :: "cmsghdr \<times> u8 list \<Rightarrow> bool" where
  "cmsg_fits = (\<lambda>(h, d). cmsg_len h = CMSG_LEN (of_nat (length d)))"

definition cmsg_cursor :: "nat \<Rightarrow> nat \<Rightarrow> nat option" where
  "cmsg_cursor p n = (if 16 \<le> n then Some p else None)"

definition cmsg_read :: "byte_order \<Rightarrow> u8 list \<Rightarrow> nat option \<Rightarrow> (cmsghdr \<times> u8 list) res" where
  "cmsg_read order control c =
     (case c of
        None \<Rightarrow> Inl NullDeref
      | Some p \<Rightarrow>
          res_bind (cmsg_len_at order control p) (\<lambda>l.
          res_bind (load order 4 control (p + 8)) (\<lambda>lev.
          res_bind (load order 4 control (p + 12)) (\<lambda>ty.
          res_bind (bytes_at control (CMSG_DATA p) (unat (l - CMSG_LEN 0))) (\<lambda>d.
          Inr (\<lparr>cmsg_len = l, cmsg_level = lev, cmsg_type = ty\<rparr>, d))))))"

lemma cmsg_fields:
  "cmsg_len_at order (pre @ cmsg_bytes order (h, d) @ post) (length pre) = Inr (cmsg_len h)"
  "load order 4 (pre @ cmsg_bytes order (h, d) @ post) (length pre + 8) = Inr (cmsg_level h)"
  "load order 4 (pre @ cmsg_bytes order (h, d) @ post) (length pre + 12) = Inr (cmsg_type h)"
  "bytes_at (pre @ cmsg_bytes order (h, d) @ post) (length pre + 16) (length d) = Inr d"
  using load_word_bytes[of 8 "length pre" pre order "cmsg_len h"]
    load_word_bytes[of 4 _ "pre @ word_bytes order 8 (cmsg_len h)" order "cmsg_level h"]
    load_word_bytes[of 4 _ "pre @ word_bytes order 8 (cmsg_len h) @ word_bytes order 4 (cmsg_level h)" order "cmsg_type h"]
    bytes_at_append[of _ "pre @ word_bytes order 8 (cmsg_len h) @ word_bytes order 4 (cmsg_level h) @
      word_bytes order 4 (cmsg_type h)"]
  by (simp_all add: cmsg_bytes_def cmsg_len_at_def)

lemma cmsg_laid:
  assumes "cmsg_fits (h, d)" "length (pre @ cmsg_bytes order (h, d) @ post) \<le> 2 ^ 63 - 1"
  shows "unat (cmsg_len h) = length d + 16" "length (cmsg_bytes order (h, d)) = (unat (cmsg_len h) + 7) div 8 * 8"
    "16 \<le> length (cmsg_bytes order (h, d))"
proof -
  have d: "length d + 16 < 2 ^ 63" using assms(2) by (simp add: cmsg_bytes_def)
  have l: "unat (of_nat (length d) :: size_t) = length d" using d by (intro unat_of_nat_64) simp
  have n: "unat (CMSG_LEN (of_nat (length d))) = length d + 16"
    using d l by (simp add: CMSG_consts) (subst unat_add_lem[THEN iffD1]; simp)
  then show u: "unat (cmsg_len h) = length d + 16" using assms(1) by (simp add: cmsg_fits_def)
  have a: "unat (CMSG_ALIGN (of_nat (length d))) = (length d + 7) div 8 * 8" using d l by (subst unat_CMSG_ALIGN) simp_all
  have "(length d + 7) div 8 * 8 \<le> length d + 7" by simp
  then have "unat (CMSG_SPACE (of_nat (length d))) = (length d + 7) div 8 * 8 + 16"
    using d a by (simp add: CMSG_consts) (subst unat_add_lem[THEN iffD1]; simp)
  moreover have "(length d + 16 + 7) div 8 = (length d + 7) div 8 + 2"
    using div_mult_self1[of 8 "length d + 7" 2] by simp
  ultimately show "length (cmsg_bytes order (h, d)) = (unat (cmsg_len h) + 7) div 8 * 8"
    using up_to_8[of "length d"] by (simp only: cmsg_bytes_def prod.case n u) simp
  show "16 \<le> length (cmsg_bytes order (h, d))" by (simp add: cmsg_bytes_def)
qed

interpretation cmsg: record_codec "\<lambda>_. cmsg_more" "CMSG_NXTHDR order" "cmsg_read order" cmsg_cursor
  "cmsg_bytes order" cmsg_fits "2 ^ 63 - 1"
  for order
proof (unfold_locales, goal_cases)
  case (1 m pre post)
  obtain h d where m: "m = (h, d)" by (rule prod.exhaust)
  show ?case using cmsg_laid(3)[OF 1[unfolded m]] by (simp add: m cmsg_more_def cmsg_cursor_def)
next
  case (2 m pre post)
  obtain h d where m: "m = (h, d)" by (rule prod.exhaust)
  note laid = cmsg_laid[OF 2[unfolded m]]
  have "unat (cmsg_len h - 16) = length d" using laid(1) by (subst unat_sub) (simp_all add: word_le_nat_alt)
  then show ?case using laid(3)
    by (simp add: m cmsg_read_def cmsg_cursor_def cmsg_fields CMSG_DATA_def CMSG_consts sizeof_cmsghdr_def)
next
  case (3 m pre post)
  obtain h d where m: "m = (h, d)" by (rule prod.exhaust)
  note laid = cmsg_laid[OF 3[unfolded m]]
  let ?control = "pre @ cmsg_bytes order (h, d) @ post"
  have "length pre + 16 \<le> length ?control" "length ?control < 2 ^ 63" using laid(3) 3(2) by (simp_all add: m)
  from cmsg_nxthdr_eq[OF this cmsg_fields(1)] laid show ?case
    by (auto simp: m CMSG_NXTHDR_def cmsg_cursor_def)
next
  case (4 buf p)
  show ?case by (simp add: cmsg_more_def cmsg_cursor_def)
qed

lemma cmsg_roundtrip:
  assumes "list_all cmsg_fits ms" "control = concat (map (cmsg_bytes order) ms)" "length control < 2 ^ 63"
  shows "for_records cmsg_more (CMSG_NXTHDR order control) (cmsg_read order control)
    (CMSG_FIRSTHDR (of_nat (length control))) = Some (Inr ms)"
  using cmsg.laid_out[OF assms(1,2)] assms(3) by (simp add: CMSG_FIRSTHDR_eq cmsg_cursor_def)

end
