(* ===== verification/Record_Witnesses.thy ===== *)
theory Record_Witnesses
  imports Netlink Tipc_Config Control_Messages
begin

text \<open>
  Instances of the properties of the record loops: two messages and two attributes, three items of
  one type, and control buffers.
\<close>

definition hello_msg :: "nlmsghdr \<times> u8 list" where
  "hello_msg = (\<lparr>nlmsg_len = 21, nlmsg_type = 16, nlmsg_flags = 1, nlmsg_seq = 7, nlmsg_pid = 99\<rparr>, [104, 101, 108, 108, 111])"

definition empty_msg :: "nlmsghdr \<times> u8 list" where
  "empty_msg = (\<lparr>nlmsg_len = 16, nlmsg_type = 3, nlmsg_flags = 0, nlmsg_seq = 7, nlmsg_pid = 99\<rparr>, [])"

definition name_attr :: "rtattr \<times> u8 list" where
  "name_attr = (\<lparr>rta_len = 7, rta_type = 3\<rparr>, [108, 111, 0])"

lemma sample_fits: "nlmsg_fits hello_msg" "nlmsg_fits empty_msg" "rta_fits name_attr"
  by (simp_all add: nlmsg_fits_def rta_fits_def hello_msg_def empty_msg_def name_attr_def NLMSG_LENGTH_def NLMSG_consts RTA_consts)

lemma sample_lengths:
  "length (nlmsg_bytes order hello_msg) = 24" "length (nlmsg_bytes order empty_msg) = 16" "length (rta_bytes order name_attr) = 8"
  by (simp_all add: hello_msg_def empty_msg_def name_attr_def length_nlmsg_bytes length_rta_bytes)

theorem netlink_roundtrip_witness:
  "(let buf = nlmsg_bytes BIG_ENDIAN hello_msg @ nlmsg_bytes BIG_ENDIAN empty_msg in
      for_records (NLMSG_OK BIG_ENDIAN buf) (NLMSG_NEXT BIG_ENDIAN buf) (nlmsg_read BIG_ENDIAN buf) (0, of_nat (length buf)) =
        Some (Inr [hello_msg, empty_msg])) \<and>
   (let buf = rta_bytes BIG_ENDIAN name_attr in
      for_records (RTA_OK BIG_ENDIAN buf) (RTA_NEXT BIG_ENDIAN buf) (rta_read BIG_ENDIAN buf) (0, of_nat (length buf)) =
        Some (Inr [name_attr]))"
  using netlink_roundtrip[of "[hello_msg, empty_msg]" BIG_ENDIAN "[name_attr]"]
  by (simp add: sample_fits sample_lengths Let_def)

theorem netlink_walk_inside_witness:
  "\<exists>cs. for_records (NLMSG_OK LITTLE_ENDIAN (replicate 40 17)) (NLMSG_NEXT LITTLE_ENDIAN (replicate 40 17)) Inr (0, 40) = Some (Inr cs) \<and>
      (\<forall>c\<in>set cs. fst c \<le> 40)"
proof -
  have "length (replicate 40 (17 :: u8)) < 2 ^ 31" by simp
  from netlink_walk_inside[OF this, of LITTLE_ENDIAN] obtain cs where
    "for_records (NLMSG_OK LITTLE_ENDIAN (replicate 40 17)) (NLMSG_NEXT LITTLE_ENDIAN (replicate 40 17)) Inr (0, 40) = Some (Inr cs)"
    "\<forall>c\<in>set cs. \<exists>h. load_nlmsghdr LITTLE_ENDIAN (replicate 40 17) (fst c) = Inr h \<and> 16 \<le> unat (nlmsg_len h) \<and>
       fst c + unat (nlmsg_len h) \<le> 40"
    by auto
  then show ?thesis by (intro exI[of _ cs]) fastforce
qed

theorem cmsg_walk_inside_witness:
  "\<exists>cs. for_records cmsg_more (CMSG_NXTHDR LITTLE_ENDIAN (replicate 40 16)) Inr (CMSG_FIRSTHDR 40) = Some (Inr cs) \<and>
      (\<forall>c\<in>set cs. \<exists>p. c = Some p \<and> p \<le> 24)"
proof -
  have "length (replicate 40 (16 :: u8)) < 2 ^ 63" by simp
  from cmsg_walk_inside[OF this, of LITTLE_ENDIAN] obtain cs where
    "for_records cmsg_more (CMSG_NXTHDR LITTLE_ENDIAN (replicate 40 16)) Inr (CMSG_FIRSTHDR 40) = Some (Inr cs)"
    "\<forall>c\<in>set cs. \<exists>p l. c = Some p \<and> p + 16 \<le> 40 \<and> cmsg_len_at LITTLE_ENDIAN (replicate 40 16) p = Inr l"
    by auto
  then show ?thesis by (intro exI[of _ cs]) fastforce
qed

theorem TLV_SET_outcome_witness:
  "TLV_SET BIG_ENDIAN (replicate 12 0) 0 2 (Some [1, 2, 3, 4]) 4 = Inl OutOfBounds \<and>
   TLV_SET BIG_ENDIAN (replicate 12 0) 0 2 (Some [1, 2, 3, 4, 5, 6, 7, 8]) 4 =
     Inr (word_bytes BIG_ENDIAN 2 (htons BIG_ENDIAN 8) @ word_bytes BIG_ENDIAN 2 (htons BIG_ENDIAN 2) @
          [1, 2, 3, 4, 5, 6, 7, 8], 8)"
  using TLV_SET_outcome[of 0 "replicate 12 0" 4 4 BIG_ENDIAN 2 "[1, 2, 3, 4]"]
    TLV_SET_outcome[of 0 "replicate 12 0" 4 4 BIG_ENDIAN 2 "[1, 2, 3, 4, 5, 6, 7, 8]"]
  by simp

theorem tlv_list_roundtrip_witness:
  "for_records (tlv_more LITTLE_ENDIAN 2 (concat (map (tlv_bytes LITTLE_ENDIAN 2) [[1], [], [2, 3, 4, 5]])))
     (TLV_LIST_STEP LITTLE_ENDIAN (concat (map (tlv_bytes LITTLE_ENDIAN 2) [[1], [], [2, 3, 4, 5]])))
     (tlv_read LITTLE_ENDIAN (concat (map (tlv_bytes LITTLE_ENDIAN 2) [[1], [], [2, 3, 4, 5]])))
     (TLV_LIST_INIT 0 20) = Some (Inr [[1], [], [2, 3, 4, 5]])"
  using tlv_list_roundtrip[of "[[1], [], [2, 3, 4, 5]]" _ LITTLE_ENDIAN 2, OF _ refl] by (simp add: length_tlv_bytes)

theorem tlv_list_unchecked_witness:
  "(let buf = word_bytes BIG_ENDIAN 2 (htons BIG_ENDIAN 5) @ word_bytes BIG_ENDIAN 2 (htons BIG_ENDIAN 2) @ [9] in
      for_records (tlv_more BIG_ENDIAN 2 buf) (TLV_LIST_STEP BIG_ENDIAN buf) Inr (TLV_LIST_INIT 0 5) = Some (Inl OutOfBounds))"
  using tlv_list_unchecked[of "[9]" BIG_ENDIAN 2] by (simp add: Let_def)

end
