(* ===== verification/Inline_Functions.thy ===== *)
theory Inline_Functions
  imports Record_Walks
begin

text \<open>
  Short functions that headers define inline: \<open>bsearch\<close> (\<open>bits/stdlib-bsearch.h\<close>), device numbers
  (\<open>bits/sysmacros.h\<close>), with which \<open>mknod\<close> names the driver's device, and the ring layout of
  \<open>linux/virtio_ring.h\<close>.
\<close>

subsection \<open>Binary search\<close>

text \<open>
  The comparison is given the byte offset of an element from \<open>base\<close> and fails where the array ends. The
  sum of the two bounds is taken in \<open>size_t\<close>; for more than $2^{63}$ elements it would wrap and the
  loop need not end, so it is a partial function.
\<close>

partial_function (option) bsearch_loop :: "(size_t \<Rightarrow> cint res) \<Rightarrow> size_t \<Rightarrow> size_t \<Rightarrow> size_t \<Rightarrow> size_t option res option" where
  "bsearch_loop compar sz l u =
     (if l < u then
        (let idx = (l + u) div 2; p = idx * sz in
         case compar p of
           Inl e \<Rightarrow> Some (Inl e)
         | Inr comparison \<Rightarrow>
             if sint comparison < 0 then bsearch_loop compar sz l idx
             else if sint comparison > 0 then bsearch_loop compar sz (idx + 1) u
             else Some (Inr (Some p)))
      else Some (Inr None))"

definition bsearch :: "(size_t \<Rightarrow> cint res) \<Rightarrow> size_t \<Rightarrow> size_t \<Rightarrow> size_t option res option" where
  "bsearch compar nmemb sz = bsearch_loop compar sz 0 nmemb"

text \<open>An array of elements of a given size, and a key's comparison with its elements.\<close>

definition compare_at :: "('a \<Rightarrow> cint) \<Rightarrow> 'a list \<Rightarrow> nat \<Rightarrow> size_t \<Rightarrow> cint res" where
  "compare_at cmp xs sz p =
     (if sz dvd unat p \<and> unat p div sz < length xs then Inr (cmp (xs ! (unat p div sz))) else Inl OutOfBounds)"

definition ordered_for :: "('a \<Rightarrow> cint) \<Rightarrow> 'a list \<Rightarrow> bool" where
  "ordered_for cmp xs \<longleftrightarrow>
     sorted_wrt (\<lambda>x y. (sint (cmp x) < 0 \<longrightarrow> sint (cmp y) < 0) \<and> (0 < sint (cmp y) \<longrightarrow> 0 < sint (cmp x))) xs"

lemma ordered_forD:
  assumes "ordered_for cmp xs" "i \<le> j" "j < length xs"
  shows "sint (cmp (xs ! i)) < 0 \<Longrightarrow> sint (cmp (xs ! j)) < 0" "0 < sint (cmp (xs ! j)) \<Longrightarrow> 0 < sint (cmp (xs ! i))"
  using assms sorted_wrt_nth_less[of _ xs i j] unfolding ordered_for_def by (cases "i = j"; fastforce)+

lemma middle:
  assumes "unat (u :: size_t) < 2 ^ 63" "l < u"
  shows "unat ((l + u) div 2) = (unat l + unat u) div 2" "unat l \<le> (unat l + unat u) div 2" "(unat l + unat u) div 2 < unat u"
proof -
  have lu: "unat l < unat u" using assms(2) by (simp add: word_less_nat_alt)
  then have "unat (l + u) = unat l + unat u" using assms(1) by (subst unat_add_lem[THEN iffD1]) simp_all
  then show "unat ((l + u) div 2) = (unat l + unat u) div 2" by (simp add: unat_div)
  show "unat l \<le> (unat l + unat u) div 2" "(unat l + unat u) div 2 < unat u" using lu by linarith+
qed

text \<open>A round of the loop looks at an element of the array.\<close>

lemma bsearch_loop_probe:
  assumes "length xs < 2 ^ 63" "0 < sz" "length xs * sz < 2 ^ 64" "unat u \<le> length xs" "l < u"
    "idx = (l + u) div 2" "i = unat idx"
  shows "unat l \<le> i" "i < unat u" "unat (idx + 1) = i + 1" "unat (idx * of_nat sz) = i * sz"
    "bsearch_loop (compare_at cmp xs sz) (of_nat sz) l u =
       (if sint (cmp (xs ! i)) < 0 then bsearch_loop (compare_at cmp xs sz) (of_nat sz) l idx
        else if 0 < sint (cmp (xs ! i)) then bsearch_loop (compare_at cmp xs sz) (of_nat sz) (idx + 1) u
        else Some (Inr (Some (idx * of_nat sz))))"
proof -
  have u: "unat u < 2 ^ 63" using assms(4,1) by (rule order_le_less_trans)
  show i: "unat l \<le> i" "i < unat u" using middle[OF u assms(5)] assms(6,7) by simp_all
  show "unat (idx + 1) = i + 1" using i u assms(7) by (subst unat_add_lem[THEN iffD1]) simp_all
  have il: "i < length xs" using i assms(4) by simp
  then have "i * sz \<le> length xs * sz" by (intro mult_le_mono1) simp
  then have "i * sz < 2 ^ 64" using assms(3) by (rule order_le_less_trans)
  moreover have "idx * of_nat sz = of_nat (i * sz)" by (simp add: assms(7))
  ultimately show p: "unat (idx * of_nat sz) = i * sz" by (simp only: unat_of_nat_64)
  have c: "compare_at cmp xs sz (idx * of_nat sz) = Inr (cmp (xs ! i))"
    using il assms(2) by (simp add: compare_at_def p)
  show "bsearch_loop (compare_at cmp xs sz) (of_nat sz) l u =
       (if sint (cmp (xs ! i)) < 0 then bsearch_loop (compare_at cmp xs sz) (of_nat sz) l idx
        else if 0 < sint (cmp (xs ! i)) then bsearch_loop (compare_at cmp xs sz) (of_nat sz) (idx + 1) u
        else Some (Inr (Some (idx * of_nat sz))))"
    using c assms(5) by (subst bsearch_loop.simps) (simp add: Let_def flip: assms(6))
qed

lemma bsearch_loop_result:
  assumes xs: "length xs < 2 ^ 63" "0 < sz" "length xs * sz < 2 ^ 64" and ord: "ordered_for cmp xs"
    and bounds: "unat l \<le> unat u" "unat u \<le> length xs" "\<forall>i < unat l. 0 < sint (cmp (xs ! i))"
    "\<forall>i. unat u \<le> i \<and> i < length xs \<longrightarrow> sint (cmp (xs ! i)) < 0"
  shows "\<exists>r. bsearch_loop (compare_at cmp xs sz) (of_nat sz) l u = Some (Inr r) \<and>
    (case r of None \<Rightarrow> \<forall>x\<in>set xs. cmp x \<noteq> 0
     | Some p \<Rightarrow> \<exists>i < length xs. unat p = i * sz \<and> cmp (xs ! i) = 0)"
  using bounds
proof (induction "unat u - unat l" arbitrary: l u rule: less_induct)
  case less
  show ?case
  proof (cases "l < u")
    case False
    then have "unat l = unat u" using less.prems(1) by (simp add: word_less_nat_alt)
    then have "cmp x \<noteq> 0" if x: "x \<in> set xs" for x
      using less.prems(3,4) x by (metis in_set_conv_nth less_irrefl not_le signed_0)
    then show ?thesis using False by (subst bsearch_loop.simps) simp
  next
    case True
    define idx where "idx = (l + u) div 2"
    define i where "i = unat idx"
    note probe = bsearch_loop_probe[OF xs less.prems(2) True idx_def i_def]
    have il: "i < length xs" using probe(2) less.prems(2) by simp
    consider "sint (cmp (xs ! i)) < 0" | "0 < sint (cmp (xs ! i))" | "sint (cmp (xs ! i)) = 0" by linarith
    then show ?thesis
    proof cases
      case 1
      then have "\<forall>j. unat idx \<le> j \<and> j < length xs \<longrightarrow> sint (cmp (xs ! j)) < 0"
        using ordered_forD(1)[OF ord] i_def by blast
      then show ?thesis unfolding probe(5) if_P[OF 1]
        using less.hyps[of idx l] less.prems probe(1,2) i_def by simp
    next
      case 2
      then have "\<forall>j < unat (idx + 1). 0 < sint (cmp (xs ! j))"
        using ordered_forD(2)[OF ord _ il] by (simp add: probe(3))
      moreover have "\<not> sint (cmp (xs ! i)) < 0" using 2 by simp
      ultimately show ?thesis unfolding probe(5) if_P[OF 2]
        using less.hyps[of u "idx + 1"] less.prems probe(1,2,3) by simp
    next
      case 3
      then have "cmp (xs ! i) = 0" by (metis signed_0 signed_word_eqI)
      then show ?thesis using 3 il probe(4,5) by auto
    qed
  qed
qed

text \<open>
  C38: \<open>bsearch\<close> on an ordered array returns, never looks outside the array, and finds an element equal to the
  key exactly when there is one.
\<close>

theorem bsearch_finds:
  assumes "length xs < 2 ^ 63" "0 < sz" "length xs * sz < 2 ^ 64" "ordered_for cmp xs"
  shows "\<exists>r. bsearch (compare_at cmp xs sz) (of_nat (length xs)) (of_nat sz) = Some (Inr r) \<and>
    (case r of None \<Rightarrow> \<forall>x\<in>set xs. cmp x \<noteq> 0
     | Some p \<Rightarrow> \<exists>i < length xs. unat p = i * sz \<and> cmp (xs ! i) = 0)"
proof -
  have "unat (of_nat (length xs) :: size_t) = length xs"
    using assms(1) by (simp add: unat_of_nat_64)
  then show ?thesis unfolding bsearch_def
    by (intro bsearch_loop_result assms) simp_all
qed

theorem bsearch_finds_witness:
  "ordered_for (\<lambda>x. 5 - x) [2, 5, 9] \<and>
   (\<exists>r. bsearch (compare_at (\<lambda>x. 5 - x) [2, 5, 9] 4) 3 4 = Some (Inr r) \<and>
     (case r of None \<Rightarrow> \<forall>x\<in>set [2, 5, 9]. 5 - x \<noteq> (0 :: cint)
      | Some p \<Rightarrow> \<exists>i < length [2, 5, 9 :: cint]. unat p = i * 4 \<and> 5 - [2, 5, 9] ! i = (0 :: cint)))"
proof -
  have "ordered_for (\<lambda>x. 5 - x) [2, 5, 9 :: cint]" by code_simp
  then show ?thesis using bsearch_finds[of "[2, 5, 9 :: cint]" 4 "\<lambda>x. 5 - x"] by simp
qed

subsection \<open>Device numbers\<close>

definition gnu_dev_major :: "u64 \<Rightarrow> u32" where
  "gnu_dev_major dev =
     ucast (drop_bit 8 (dev AND 0x00000000000fff00)) OR ucast (drop_bit 32 (dev AND 0xfffff00000000000))"

definition gnu_dev_minor :: "u64 \<Rightarrow> u32" where
  "gnu_dev_minor dev =
     ucast (drop_bit 0 (dev AND 0x00000000000000ff)) OR ucast (drop_bit 12 (dev AND 0x00000ffffff00000))"

definition gnu_dev_makedev :: "u32 \<Rightarrow> u32 \<Rightarrow> u64" where
  "gnu_dev_makedev major minor =
     push_bit 8 (ucast (major AND 0x00000fff)) OR push_bit 32 (ucast (major AND 0xfffff000)) OR
     push_bit 0 (ucast (minor AND 0x000000ff)) OR push_bit 12 (ucast (minor AND 0xffffff00))"

lemma dev_masks:
  "(0x00000000000fff00 :: u64) = push_bit 8 (mask 12)" "(0xfffff00000000000 :: u64) = push_bit 44 (mask 20)"
  "(0x00000000000000ff :: u64) = mask 8" "(0x00000ffffff00000 :: u64) = push_bit 20 (mask 24)"
  "(0x00000fff :: u32) = mask 12" "(0xfffff000 :: u32) = push_bit 12 (mask 20)"
  "(0x000000ff :: u32) = mask 8" "(0xffffff00 :: u32) = push_bit 8 (mask 24)"
  by (simp_all add: mask_eq_exp_minus_1 push_bit_eq_mult)

lemma gnu_dev_makedev_bit:
  "bit (gnu_dev_makedev ma mi) n \<longleftrightarrow>
     (if n < 8 then bit mi n else if n < 20 then bit ma (n - 8)
      else if n < 44 then bit mi (n - 12) else n < 64 \<and> bit ma (n - 32))"
  unfolding gnu_dev_makedev_def dev_masks by (auto simp: bit_simps)

lemma gnu_dev_part_bits:
  "bit (gnu_dev_major dev) n \<longleftrightarrow> (if n < 12 then bit dev (8 + n) else n < 32 \<and> bit dev (32 + n))"
  "bit (gnu_dev_minor dev) n \<longleftrightarrow> (if n < 8 then bit dev n else n < 32 \<and> bit dev (12 + n))"
  unfolding gnu_dev_major_def gnu_dev_minor_def dev_masks by (auto simp: bit_simps)

text \<open>A device number is the pair of its major and its minor number, none of their bits lost.\<close>

lemma gnu_dev_roundtrip:
  "gnu_dev_major (gnu_dev_makedev ma mi) = ma" "gnu_dev_minor (gnu_dev_makedev ma mi) = mi"
  "gnu_dev_makedev (gnu_dev_major dev) (gnu_dev_minor dev) = dev"
proof -
  show "gnu_dev_major (gnu_dev_makedev ma mi) = ma" "gnu_dev_minor (gnu_dev_makedev ma mi) = mi"
    by (rule bit_word_eqI; simp add: gnu_dev_makedev_bit gnu_dev_part_bits)+
  show "gnu_dev_makedev (gnu_dev_major dev) (gnu_dev_minor dev) = dev"
  proof (rule bit_word_eqI)
    fix n assume "n < LENGTH(64)"
    then consider "n < 8" | "8 \<le> n" "n < 20" | "20 \<le> n" "n < 44" | "44 \<le> n" "n < 64" by fastforce
    then show "bit (gnu_dev_makedev (gnu_dev_major dev) (gnu_dev_minor dev)) n = bit dev n"
      by cases (simp_all add: gnu_dev_makedev_bit gnu_dev_part_bits less_diff_conv2)
  qed
qed

subsection \<open>Virtio rings\<close>

record vring =
  vr_num :: u32
  vr_desc :: u64
  vr_avail :: u64
  vr_used :: u64

definition vring_init :: "u32 \<Rightarrow> u64 \<Rightarrow> u64 \<Rightarrow> vring" where
  "vring_init num p align =
     (let avail = p + ucast num * 16 in
      \<lparr>vr_num = num, vr_desc = p, vr_avail = avail,
       vr_used = (avail + 4 + 2 * ucast num + 2 + align - 1) AND NOT (align - 1)\<rparr>)"

text \<open>\<open>3 + num\<close> is a sum of \<open>unsigned int\<close>, and the result is cut to one.\<close>

definition vring_size :: "u32 \<Rightarrow> u64 \<Rightarrow> u32" where
  "vring_size num align =
     ucast (((16 * ucast num + 2 * ucast (3 + num) + align - 1) AND NOT (align - 1)) + 2 * 3 + 8 * ucast num)"

definition vring_need_event :: "u16 \<Rightarrow> u16 \<Rightarrow> u16 \<Rightarrow> bool" where
  "vring_need_event event_idx new_idx old \<longleftrightarrow> new_idx - event_idx - 1 < new_idx - old"

text \<open>
  An event is due exactly when the index passed the one the other side asked for, on its way from the old
  to the new value, around the end of the 16 bits where it must.
\<close>

lemma vring_need_event_passed:
  "vring_need_event event_idx new_idx old \<longleftrightarrow> (\<exists>k < unat (new_idx - old). event_idx = old + of_nat k)"
proof
  let ?a = "new_idx - event_idx - 1" and ?b = "new_idx - old"
  assume "vring_need_event event_idx new_idx old"
  then have less: "unat ?a < unat ?b" by (simp add: vring_need_event_def word_less_nat_alt)
  then have "(of_nat (unat ?b - 1 - unat ?a) :: u16) = ?b - 1 - ?a"
    by (simp add: of_nat_diff)
  then have "event_idx = old + of_nat (unat ?b - 1 - unat ?a)" by simp
  moreover have "unat ?b - 1 - unat ?a < unat ?b" using less by simp
  ultimately show "\<exists>k < unat ?b. event_idx = old + of_nat k" by blast
next
  assume "\<exists>k < unat (new_idx - old). event_idx = old + of_nat k"
  then obtain k where k: "k < unat (new_idx - old)" "event_idx = old + of_nat k" by blast
  then have "new_idx - event_idx - 1 = of_nat (unat (new_idx - old) - 1 - k)"
    by (simp add: of_nat_diff)
  moreover have "unat (new_idx - old) - 1 - k < 2 ^ LENGTH(16)"
    using unsigned_less[of "new_idx - old", where ?'a = nat] by (simp del: unsigned_less)
  ultimately have "unat (new_idx - event_idx - 1) = unat (new_idx - old) - 1 - k"
    by (simp add: unat_of_nat take_bit_nat_eq_self)
  then show "vring_need_event event_idx new_idx old"
    using k(1) by (simp add: vring_need_event_def word_less_nat_alt)
qed

lemma align_up:
  assumes "unat (w :: u64) + 2 ^ k \<le> 2 ^ 64" "k < 64"
  shows "unat ((w + 2 ^ k - 1) AND NOT (2 ^ k - 1)) = (unat w + 2 ^ k - 1) div 2 ^ k * 2 ^ k"
proof -
  have m: "2 ^ k - 1 = (mask k :: u64)" by (simp add: mask_eq_exp_minus_1)
  have "(2 :: nat) ^ k - 1 < 2 ^ 64" using assms(1) by (simp add: less_imp_diff_less)
  moreover have "(mask k :: u64) = of_nat (2 ^ k - 1)" using of_nat_mask_eq[of k] by (simp add: mask_eq_exp_minus_1)
  ultimately have "unat (mask k :: u64) = 2 ^ k - 1" by (simp only: unat_of_nat_64)
  then have "unat (w + mask k) = unat w + 2 ^ k - 1"
    using assms(1) by (subst unat_add_lem[THEN iffD1]) simp_all
  moreover have "w + 2 ^ k - 1 = w + mask k" by (simp flip: m)
  ultimately show ?thesis by (simp only: m and_not_mask push_drop)
qed

lemma round_up:
  assumes "(a :: nat) dvd p" "0 < a"
  shows "(p + n + a - 1) div a * a = p + (n + a - 1) div a * a" "n \<le> (n + a - 1) div a * a"
    "(n + a - 1) div a * a < n + a"
proof -
  obtain q where q: "p = a * q" using assms(1) by blast
  have "p + n + a - 1 = (n + a - 1) + a * q" using q assms(2) by simp
  then have "(p + n + a - 1) div a = q + (n + a - 1) div a" using assms(2) by (simp only: div_mult_self2)
  then show "(p + n + a - 1) div a * a = p + (n + a - 1) div a * a" by (simp add: q add_mult_distrib)
  have "(n + a - 1) div a * a + (n + a - 1) mod a = n + a - 1" by simp
  moreover have "(n + a - 1) mod a < a" using assms(2) by simp
  ultimately show "n \<le> (n + a - 1) div a * a" "(n + a - 1) div a * a < n + a" using assms(2) by linarith+
qed

lemma vring_size_value:
  assumes "unat num \<le> 32768" "k \<le> 12"
  shows "unat (vring_size num (2 ^ k)) = (18 * unat num + 6 + 2 ^ k - 1) div 2 ^ k * 2 ^ k + 2 * 3 + 8 * unat num"
proof -
  let ?N = "unat num" and ?n = "ucast num :: u64"
  let ?w = "16 * ?n + 2 * ucast (3 + num) :: u64"
  let ?up = "(18 * ?N + 6 + 2 ^ k - 1) div 2 ^ k * 2 ^ k :: nat"
  have k: "(2 :: nat) ^ k \<le> 4096" using power_increasing[OF assms(2), of "2 :: nat"] by simp
  have up: "?up \<le> 18 * ?N + 6 + 4096" using round_up(3)[of "2 ^ k" 0 "18 * ?N + 6"] k by simp
  have "unat (3 + num) = 3 + ?N" using assms(1) by (subst unat_add_lem[THEN iffD1]) simp_all
  then have "(ucast (3 + num) :: u64) = of_nat (3 + ?N)" by (metis of_nat_unat)
  then have "?w = of_nat (18 * ?N + 6)" by simp
  moreover have "18 * ?N + 6 < 2 ^ 64" using assms(1) by simp
  ultimately have w: "unat ?w = 18 * ?N + 6" by (simp only: unat_of_nat_64)
  then have "unat ((?w + 2 ^ k - 1) AND NOT (2 ^ k - 1)) = ?up" using align_up[of ?w k] k assms by simp
  moreover have "x + 2 * 3 + 8 * ?n = of_nat (unat x + 2 * 3 + 8 * ?N)" for x :: u64 by simp
  ultimately have "vring_size num (2 ^ k) = ucast (of_nat (?up + 2 * 3 + 8 * ?N) :: u64)"
    by (simp only: vring_size_def)
  moreover have "unat (ucast (of_nat m :: u64) :: u32) = m" if "m < 2 ^ 32" for m
    using that by (simp add: unsigned_ucast_eq unat_of_nat take_bit_nat_eq_self)
  moreover have "?up + 2 * 3 + 8 * ?N < 2 ^ 32" using up assms(1) by simp
  ultimately show ?thesis by (simp only:)
qed

text \<open>
  The three parts of a ring lie one after the other, the used ring on a boundary, and \<open>vring_size\<close> is
  the room they take, for the queue sizes up to 32768 that virtio allows and an alignment up to a page.
\<close>

lemma vring_layout:
  assumes "unat num \<le> 32768" "k \<le> 12" "align = 2 ^ k" "unat p + 2 ^ 20 < 2 ^ 64" "2 ^ k dvd unat p"
    "vr = vring_init num p align"
  shows "unat (vr_avail vr) = unat (vr_desc vr) + 16 * unat num"
    "unat (vr_avail vr) + 2 * (3 + unat num) \<le> unat (vr_used vr)"
    "2 ^ k dvd unat (vr_used vr)"
    "unat (vr_used vr) + 2 * 3 + 8 * unat num = unat p + unat (vring_size num align)"
proof -
  let ?N = "unat num" and ?n = "ucast num :: u64" and ?up = "\<lambda>m. (m + 2 ^ k - 1) div 2 ^ k * 2 ^ k :: nat"
  have k: "(2 :: nat) ^ k \<le> 4096" using power_increasing[OF assms(2), of "2 :: nat"] by simp
  have up: "?up (18 * ?N + 6) \<le> 18 * ?N + 6 + 4096"
    using round_up(3)[OF assms(5), of "18 * ?N + 6"] k by simp
  have room: "unat p + 16 * ?N < 2 ^ 64" "unat p + (18 * ?N + 6) < 2 ^ 64" using assms(1,4) by simp_all
  have "p + ?n * 16 = of_nat (unat p + 16 * ?N)" by simp
  with room have avail: "unat (p + ?n * 16) = unat p + 16 * ?N" by (simp only: unat_of_nat_64)
  have "p + ?n * 16 + 4 + 2 * ?n + 2 = of_nat (unat p + (18 * ?N + 6))" by simp
  with room have "unat (p + ?n * 16 + 4 + 2 * ?n + 2) = unat p + (18 * ?N + 6)" by (simp only: unat_of_nat_64)
  then have used: "unat (vr_used vr) = unat p + ?up (18 * ?N + 6)"
    using align_up[of "p + ?n * 16 + 4 + 2 * ?n + 2" k] k assms(1,2,4) round_up(1)[OF assms(5), of "18 * ?N + 6"]
    by (simp add: assms(3,6) vring_init_def Let_def)
  show "unat (vr_avail vr) = unat (vr_desc vr) + 16 * ?N"
    using avail by (simp add: assms(6) vring_init_def)
  show "unat (vr_avail vr) + 2 * (3 + ?N) \<le> unat (vr_used vr)"
    using avail used round_up(2)[OF assms(5), of "18 * ?N + 6"] by (simp add: assms(6) vring_init_def)
  show "2 ^ k dvd unat (vr_used vr)" using used assms(5) by simp
  show "unat (vr_used vr) + 2 * 3 + 8 * ?N = unat p + unat (vring_size num align)"
    using used vring_size_value[OF assms(1,2)] by (simp add: assms(3))
qed

end
