(* ===== verification/Writer.thy ===== *)
theory Writer
  imports C_Strings
begin

text \<open>
  \<open>finder-app/writer.c\<close>, which writes a string to a file, and the functions, the
  main program and the student's test of \<open>examples/autotest-validate\<close>. The file system is a parameter: \<open>creat\<close> and \<open>write\<close> on a world.
\<close>

subsection \<open>The writer\<close>

text \<open>The arguments include the program name; the result is the exit status and the world.\<close>

definition writer_main ::
    "(string \<Rightarrow> 'w \<Rightarrow> int \<times> 'w) \<Rightarrow> (int \<Rightarrow> string \<Rightarrow> 'w \<Rightarrow> int \<times> 'w) \<Rightarrow> string list \<Rightarrow> 'w \<Rightarrow> int \<times> 'w" where
  "writer_main creat write argv w =
     (if length argv \<noteq> 3 then (1, w)
      else
        let (writer_fd, w) = creat (argv ! 1) w in
        if writer_fd = -1 then (1, w)
        else
          let (num_bytes_written, w) = write writer_fd (argv ! 2) w in
          if num_bytes_written \<noteq> int (length (argv ! 2)) then (1, w) else (0, w))"

text \<open>
  What the writer relies on: \<open>creat\<close> gives an empty file and a descriptor for it, and \<open>write\<close>
  appends some prefix of the bytes and returns its length, or fails.
\<close>

definition creat_law ::
    "(string \<Rightarrow> 'w \<Rightarrow> int \<times> 'w) \<Rightarrow> ('w \<Rightarrow> int \<Rightarrow> string option) \<Rightarrow> ('w \<Rightarrow> string \<Rightarrow> string option) \<Rightarrow> bool" where
  "creat_law creat target content \<longleftrightarrow>
     (\<forall>p w fd w'. creat p w = (fd, w') \<longrightarrow> fd \<noteq> -1 \<longrightarrow> target w' fd = Some p \<and> content w' p = Some [])"

definition write_law ::
    "(int \<Rightarrow> string \<Rightarrow> 'w \<Rightarrow> int \<times> 'w) \<Rightarrow> ('w \<Rightarrow> int \<Rightarrow> string option) \<Rightarrow> ('w \<Rightarrow> string \<Rightarrow> string option) \<Rightarrow> bool" where
  "write_law write target content \<longleftrightarrow>
     (\<forall>fd bs w n w' p c. write fd bs w = (n, w') \<longrightarrow> target w fd = Some p \<longrightarrow> content w p = Some c \<longrightarrow>
        n = -1 \<or> (0 \<le> n \<and> n \<le> int (length bs) \<and> content w' p = Some (c @ take (nat n) bs)))"

text \<open>
  The writer exits with 0 only when the file holds exactly the given string, exits with 1 in
  every other case, and does nothing when it is not given two arguments.
\<close>

theorem writer_writes:
  assumes "creat_law creat target content" "write_law write target content"
    "writer_main creat write argv w = (r, w')"
  shows "(r = 0 \<longrightarrow> length argv = 3 \<and> content w' (argv ! 1) = Some (argv ! 2)) \<and>
    (r = 0 \<or> r = 1) \<and> (length argv \<noteq> 3 \<longrightarrow> r = 1 \<and> w' = w)"
proof (cases "length argv = 3")
  case True
  obtain fd w1 where c: "creat (argv ! 1) w = (fd, w1)" by fastforce
  show ?thesis
  proof (cases "fd = -1")
    case False
    obtain n w2 where wr: "write fd (argv ! 2) w1 = (n, w2)" by fastforce
    have "target w1 fd = Some (argv ! 1)" "content w1 (argv ! 1) = Some []"
      using assms(1) c False by (auto simp: creat_law_def)
    then have "n = -1 \<or> content w2 (argv ! 1) = Some (take (nat n) (argv ! 2))"
      using assms(2) wr unfolding write_law_def by fastforce
    then show ?thesis using assms(3) True False c wr by (auto simp: writer_main_def split: if_splits)
  qed (use assms(3) True c in \<open>auto simp: writer_main_def\<close>)
qed (use assms(3) in \<open>auto simp: writer_main_def\<close>)

subsection \<open>A file system\<close>

text \<open>One that keeps the laws: descriptors are numbered in order, and no write is short.\<close>

record fs =
  files :: "string \<rightharpoonup> string"
  opened :: "string list"

definition fs_creat :: "string \<Rightarrow> fs \<Rightarrow> int \<times> fs" where
  "fs_creat p w = (int (length (opened w)), w\<lparr>files := (files w)(p \<mapsto> []), opened := opened w @ [p]\<rparr>)"

definition fs_target :: "fs \<Rightarrow> int \<Rightarrow> string option" where
  "fs_target w fd = (if 0 \<le> fd \<and> nat fd < length (opened w) then Some (opened w ! nat fd) else None)"

definition fs_write :: "int \<Rightarrow> string \<Rightarrow> fs \<Rightarrow> int \<times> fs" where
  "fs_write fd bs w =
     (case fs_target w fd of
        None \<Rightarrow> (-1, w)
      | Some p \<Rightarrow> (int (length bs), w\<lparr>files := (files w)(p \<mapsto> (case files w p of None \<Rightarrow> [] | Some c \<Rightarrow> c) @ bs)\<rparr>))"

lemma fs_laws: "creat_law fs_creat fs_target files" "write_law fs_write fs_target files"
  by (auto simp: creat_law_def write_law_def fs_creat_def fs_target_def fs_write_def split: option.splits)

theorem writer_writes_witness:
  "writer_main fs_creat fs_write [''writer'', ''/tmp/f'', ''hello''] \<lparr>files = Map.empty, opened = []\<rparr> =
     (0, \<lparr>files = [''/tmp/f'' \<mapsto> ''hello''], opened = [''/tmp/f'']\<rparr>) \<and>
   files \<lparr>files = [''/tmp/f'' \<mapsto> ''hello''], opened = [''/tmp/f'']\<rparr> ''/tmp/f'' = Some ''hello''"
proof
  show run: "writer_main fs_creat fs_write [''writer'', ''/tmp/f'', ''hello''] \<lparr>files = Map.empty, opened = []\<rparr> =
     (0, \<lparr>files = [''/tmp/f'' \<mapsto> ''hello''], opened = [''/tmp/f'']\<rparr>)"
    by (simp add: writer_main_def fs_creat_def fs_write_def fs_target_def numeral_3_eq_3)
  show "files \<lparr>files = [''/tmp/f'' \<mapsto> ''hello''], opened = [''/tmp/f'']\<rparr> ''/tmp/f'' = Some ''hello''"
    using writer_writes[OF fs_laws run] by simp
qed

subsection \<open>The functions of the test set-up\<close>

definition this_function_returns_true :: bool where "this_function_returns_true = True"
definition this_function_returns_false :: bool where "this_function_returns_false = False"
definition my_username :: string where "my_username = ''geoffreyjensen6''"
definition git_username :: string where "git_username = ''akshita-bhasin''"

definition truth :: "bool \<Rightarrow> string" where "truth b = (if b then ''true'' else ''false'')"

text \<open>\<open>main\<close> of the test program: what it prints, and the status 0 of falling off the end.\<close>

definition autotest_main :: "string \<times> int" where
  "autotest_main =
     (''this_function_returns_true returned '' @ truth this_function_returns_true @ ''\<newline>'' @
      ''this_function_returns_false returned '' @ truth this_function_returns_false @ ''\<newline>'', 0)"

text \<open>
  The student's test hands the two names to an assertion of the Unity framework; the framework and
  the reader of \<open>conf/username.txt\<close> are in a submodule.
\<close>

definition test_validate_my_username :: "(string \<Rightarrow> string \<Rightarrow> 'r) \<Rightarrow> string \<Rightarrow> 'r" where
  "test_validate_my_username assert_equal_string username_from_conf_file =
     assert_equal_string my_username username_from_conf_file"

lemma autotest_main_output:
  "autotest_main = (''this_function_returns_true returned true'' @ ''\<newline>'' @
     ''this_function_returns_false returned false'' @ ''\<newline>'', 0)"
  by (simp add: autotest_main_def truth_def this_function_returns_true_def this_function_returns_false_def)

lemma username_test_verdict:
  "test_validate_my_username (=) username_from_conf_file \<longleftrightarrow> username_from_conf_file = ''geoffreyjensen6''"
  by (auto simp: test_validate_my_username_def my_username_def)

text \<open>The two names the test program knows for the same user differ.\<close>

lemma usernames_differ: "my_username \<noteq> git_username"
  by (simp add: my_username_def git_username_def)

end
