(* ===== verification/Finder.thy ===== *)
theory Finder
  imports Writer Inet_Address
begin

text \<open>
  The shell scripts of \<open>finder-app\<close> that work together with the writer: \<open>finder.sh\<close>, which counts
  files and matching lines, and \<open>finder-test.sh\<close>, which writes files with \<open>writer\<close>, runs
  \<open>finder.sh\<close> on them and compares its output with what it expects. The file system is a list of
  files and a list of folders; the utilities \<open>ls\<close>, \<open>grep\<close>, \<open>wc\<close>, \<open>seq\<close>, \<open>mkdir -p\<close> and \<open>rm -rf\<close>
  are modelled as far as the scripts use them. The scripts leave their variables unquoted; words
  with blanks or pattern characters, which the shell would take apart, are not modelled.
\<close>

subsection \<open>Files\<close>

record shell_fs =
  tree :: "(string \<times> string) list"
  folders :: "string list"
  descs :: "string list"

abbreviation slash :: char where "slash \<equiv> CHR ''/''"

definition dirname :: "string \<Rightarrow> string" where
  "dirname p = rev (drop 1 (dropWhile (\<lambda>c. c \<noteq> slash) (rev p)))"

definition below :: "string \<Rightarrow> string \<Rightarrow> bool" where
  "below d p \<longleftrightarrow> take (length d + 1) p = d @ [slash]"

definition inside :: "string \<Rightarrow> string \<Rightarrow> string" where
  "inside d p = drop (length d + 1) p"

definition hidden :: "string \<Rightarrow> bool" where
  "hidden n \<longleftrightarrow> n = [] \<or> hd n = CHR ''.''"

text \<open>The names that \<open>ls\<close> prints for a folder, given all paths.\<close>

definition listed :: "string \<Rightarrow> string list \<Rightarrow> string list" where
  "listed d ps = filter (\<lambda>n. \<not> hidden n \<and> slash \<notin> set n) (map (inside d) (filter (below d) ps))"

text \<open>Lines of a text, with or without a newline after the last one.\<close>

function text_lines :: "string \<Rightarrow> string list" where
  "text_lines s =
     (if s = [] then []
      else takeWhile (\<lambda>c. c \<noteq> newline) s # text_lines (drop 1 (dropWhile (\<lambda>c. c \<noteq> newline) s)))"
  by auto

termination
proof (relation "measure length")
  fix s :: string
  assume "s \<noteq> []"
  then have n: "0 < length s" by simp
  have "length (drop 1 (dropWhile (\<lambda>c. c \<noteq> newline) s)) < length s"
    unfolding length_drop using n length_dropWhile_le[of "\<lambda>c. c \<noteq> newline" s] by linarith
  then show "(drop 1 (dropWhile (\<lambda>c. c \<noteq> newline) s), s) \<in> measure length" by simp
qed simp

declare text_lines.simps [simp del]

fun contains :: "string \<Rightarrow> string \<Rightarrow> bool" where
  "contains s [] \<longleftrightarrow> s = []"
| "contains s (c # cs) \<longleftrightarrow> take (length s) (c # cs) = s \<or> contains s cs"

text \<open>\<open>ls -l d | wc -l\<close>: a line with the total and one for each name.\<close>

definition ls_lines :: "string \<Rightarrow> shell_fs \<Rightarrow> nat" where
  "ls_lines d w = 1 + length (listed d (folders w)) + length (listed d (map fst (tree w)))"

text \<open>\<open>grep -r s d/* | wc -l\<close>: the lines with the word in all files below the visible names of the folder.\<close>

definition grep_lines :: "string \<Rightarrow> string \<Rightarrow> shell_fs \<Rightarrow> nat" where
  "grep_lines s d w =
     (\<Sum>(p, c)\<leftarrow>filter (\<lambda>q. below d (fst q) \<and> \<not> hidden (inside d (fst q))) (tree w).
        length (filter (contains s) (text_lines c)))"

definition rm_rf :: "string \<Rightarrow> shell_fs \<Rightarrow> shell_fs" where
  "rm_rf d w = w\<lparr>tree := filter (\<lambda>q. fst q \<noteq> d \<and> \<not> below d (fst q)) (tree w),
     folders := filter (\<lambda>p. p \<noteq> d \<and> \<not> below d p) (folders w)\<rparr>"

definition mkdir_p :: "string \<Rightarrow> shell_fs \<Rightarrow> shell_fs" where
  "mkdir_p d w = w\<lparr>folders := folders w @
     filter (\<lambda>p. p \<notin> set (folders w)) (map (\<lambda>n. take n d) (filter (\<lambda>n. d ! n = slash) [1..<length d]) @ [d])\<rparr>"

definition put_file :: "string \<Rightarrow> string \<Rightarrow> shell_fs \<Rightarrow> shell_fs" where
  "put_file p c w = w\<lparr>tree := (p, c) # filter (\<lambda>q. fst q \<noteq> p) (tree w)\<rparr>"

definition sh_creat :: "string \<Rightarrow> shell_fs \<Rightarrow> int \<times> shell_fs" where
  "sh_creat p w =
     (if dirname p \<in> set (folders w)
      then (int (length (descs w)), (put_file p [] w)\<lparr>descs := descs w @ [p]\<rparr>) else (-1, w))"

definition sh_write :: "int \<Rightarrow> string \<Rightarrow> shell_fs \<Rightarrow> int \<times> shell_fs" where
  "sh_write fd bs w =
     (if 0 \<le> fd \<and> nat fd < length (descs w)
      then (int (length bs), w\<lparr>tree := map (\<lambda>(q, c). if q = descs w ! nat fd then (q, c @ bs) else (q, c)) (tree w)\<rparr>)
      else (-1, w))"

subsection \<open>The finder\<close>

definition count_line :: "string \<Rightarrow> string \<Rightarrow> string" where
  "count_line nfiles nlines =
     ''The number of files are '' @ nfiles @ '' and the number of matching lines are '' @ nlines"

text \<open>Exit status and standard output, for the arguments after the script's name.\<close>

definition finder :: "string list \<Rightarrow> shell_fs \<Rightarrow> int \<times> string list" where
  "finder args w =
     (if length args \<noteq> 2 then
        (1, [''Incorrect number of input arguments provided.'',
             ''Please ensure you use the following format:'',
             ''./finder.sh Directory SearchString'',
             ''Argument #1 (Directory) must be an existing directory'',
             ''Argument #2 (SearchString) is the string you want to search for in the files of that directory''])
      else let filesdir = args ! 0; searchstr = args ! 1 in
      if filesdir \<notin> set (folders w) then
        (1, [''Unable to find directory: '' @ filesdir @ ''.'',
             ''Please correct the input argument to an existing directory.''])
      else
        (let fileNum = ls_lines filesdir w - 1; matchCount = grep_lines searchstr filesdir w in
         (0, [count_line (dec fileNum) (dec matchCount)])))"

subsection \<open>The test script\<close>

definition digits_of :: "string \<Rightarrow> nat" where
  "digits_of s = foldl (\<lambda>n c. 10 * n + (of_char c - 48)) 0 s"

text \<open>\<open>seq 1 n\<close>, which prints nothing when its argument is not a number.\<close>

definition seq_to :: "string \<Rightarrow> nat list" where
  "seq_to s = (if s \<noteq> [] \<and> list_all (\<lambda>c. of_char c \<in> {48..57::nat}) s then [1..<Suc (digits_of s)] else [])"

definition OUTPUT_FILE :: string where "OUTPUT_FILE = ''/tmp/assignment4-result.txt''"

text \<open>The variables \<open>NUMFILES\<close>, \<open>WRITESTR\<close> and \<open>WRITEDIR\<close> for given arguments.\<close>

definition test_settings :: "string list \<Rightarrow> string \<times> string \<times> string" where
  "test_settings args =
     (if length args < 3 then
        (if length args < 1 then ''10'' else args ! 0, ''AELD_IS_FUN'', ''/tmp/aeld-data'')
      else (args ! 0, args ! 1, ''/tmp/aeld-data/'' @ args ! 2))"

fun write_files :: "string \<Rightarrow> string \<Rightarrow> string \<Rightarrow> nat list \<Rightarrow> shell_fs \<Rightarrow> int \<times> shell_fs" where
  "write_files dir username str [] w = (0, w)"
| "write_files dir username str (i # is) w =
     (case writer_main sh_creat sh_write [''writer'', dir @ [slash] @ username @ dec i @ ''.txt'', str] w of
        (r, w) \<Rightarrow> if r = 0 then write_files dir username str is w else (r, w))"

text \<open>
  The script, for the contents of its two configuration files. Under \<open>set -e\<close> it ends with the
  status of the first command that fails.
\<close>

definition finder_test :: "string \<Rightarrow> string \<Rightarrow> string list \<Rightarrow> shell_fs \<Rightarrow> int \<times> shell_fs" where
  "finder_test username assignment args w =
     (case test_settings args of (numfiles, str, dir) \<Rightarrow>
      let matchstr = count_line numfiles numfiles;
          w = rm_rf dir w;
          w = (if assignment \<noteq> ''assignment1'' then mkdir_p dir w else w) in
      if assignment \<noteq> ''assignment1'' \<and> dir \<notin> set (folders w) then (1, w)
      else case write_files dir username str (seq_to numfiles) w of (r, w) \<Rightarrow>
      if r \<noteq> 0 then (r, w)
      else case finder [dir, str] w of (r, out) \<Rightarrow>
      if r \<noteq> 0 then (r, w)
      else let w = rm_rf ''/tmp/aeld-data'' w; outputstring = concat out in
      if contains matchstr outputstring
      then (0, put_file OUTPUT_FILE (outputstring @ [newline] @ ''success'' @ [newline]) w)
      else (1, put_file OUTPUT_FILE
        (''failed: expected  '' @ matchstr @ '' in '' @ outputstring @ '' but instead found'' @ [newline]) w))"

subsection \<open>The writer script\<close>

text \<open>
  \<open>writer.sh\<close>, for a full path to the file. The exit status is 0 whatever becomes of the redirection.
\<close>

definition writer_sh :: "string list \<Rightarrow> shell_fs \<Rightarrow> int \<times> shell_fs" where
  "writer_sh args w =
     (if length args \<noteq> 2 then (1, w)
      else let writefile = args ! 0; writestr = args ! 1; directoryName = dirname writefile;
               w = (if directoryName \<notin> set (folders w) then mkdir_p directoryName w else w) in
      (0, if dirname writefile \<in> set (folders w) \<and> writefile \<notin> set (folders w)
          then put_file writefile (writestr @ [newline]) w else w))"

subsection \<open>Numbers\<close>

lemma digits_of_snoc: "digits_of (s @ [c]) = 10 * digits_of s + (of_char c - 48)"
  by (simp add: digits_of_def)

lemma digits_of_dec [simp]: "digits_of (dec n) = n"
proof (induction n rule: dec.induct)
  case (1 n)
  have d: "of_char (char_of (48 + k :: nat) :: char) - 48 = k" if "k < 10" for k :: nat
    using that by (simp add: of_char_of)
  show ?case
  proof (cases "n < 10")
    case True
    then show ?thesis using d[of n] by (subst dec.simps) (simp add: digits_of_def)
  next
    case False
    then show ?thesis using 1 d[of "n mod 10"] by (subst dec.simps) (simp add: digits_of_snoc)
  qed
qed

lemma dec_inject [simp]: "dec m = dec n \<longleftrightarrow> m = n"
  by (metis digits_of_dec)

lemma dec_not_Nil [simp]: "dec n \<noteq> []"
  by (subst dec.simps) simp

lemma seq_to_dec [simp]: "seq_to (dec n) = [1..<Suc n]"
  using dec_digits[of _ n] by (auto simp: seq_to_def list_all_iff)

subsection \<open>Writing the files\<close>

definition file_name :: "string \<Rightarrow> string \<Rightarrow> nat \<Rightarrow> string" where
  "file_name dir username i = dir @ [slash] @ username @ dec i @ ''.txt''"

text \<open>Words that neither the shell nor \<open>grep\<close> takes apart or reads as a pattern.\<close>

definition plain :: "string \<Rightarrow> bool" where
  "plain s \<longleftrightarrow> s \<noteq> [] \<and>
     list_all (\<lambda>c. c \<notin> {CHR '' '', CHR 0x09, newline, CHR ''*'', CHR ''?'', CHR ''['', CHR 0x5C, CHR ''^'', CHR ''$''}) s"

definition word_ok :: "string \<Rightarrow> bool" where
  "word_ok s \<longleftrightarrow> plain s \<and> \<not> hidden s \<and> slash \<notin> set s"

lemma slash_dec [simp]: "slash \<notin> set (dec n)"
  using dec_digits[of slash n] by auto

lemma dirname_file [simp]: "slash \<notin> set n \<Longrightarrow> dirname (d @ slash # n) = d"
proof -
  assume "slash \<notin> set n"
  then have "dropWhile (\<lambda>c. c \<noteq> slash) (rev n @ slash # rev d) = slash # rev d"
    by (subst dropWhile_append2) auto
  then show ?thesis by (simp add: dirname_def)
qed

lemma below_simps [simp]: "below d (d @ slash # n)" "inside d (d @ slash # n) = n"
  by (simp_all add: below_def inside_def)

lemma writer_runs:
  assumes "d \<in> set (folders w)" "slash \<notin> set n" "d @ slash # n \<notin> fst ` set (tree w)"
  shows "writer_main sh_creat sh_write [''writer'', d @ slash # n, str] w =
    (0, w\<lparr>tree := (d @ slash # n, str) # tree w, descs := descs w @ [d @ slash # n]\<rparr>)"
proof -
  have "filter (\<lambda>q. fst q \<noteq> d @ slash # n) (tree w) = tree w"
    "map (\<lambda>(q, c). if q = d @ slash # n then (q, c @ str) else (q, c)) (tree w) = tree w"
    using assms(3) by (force simp: filter_id_conv intro!: map_idI)+
  then show ?thesis using assms(1,2)
    by (simp add: writer_main_def numeral_3_eq_3 numeral_2_eq_2 sh_creat_def sh_write_def put_file_def)
qed

lemma write_files_result:
  "d \<in> set (folders w) \<Longrightarrow> slash \<notin> set username \<Longrightarrow> distinct is \<Longrightarrow>
   (\<And>i. i \<in> set is \<Longrightarrow> file_name d username i \<notin> fst ` set (tree w)) \<Longrightarrow>
   \<exists>ds. write_files d username str is w =
     (0, w\<lparr>tree := map (\<lambda>i. (file_name d username i, str)) (rev is) @ tree w, descs := ds\<rparr>)"
proof (induction "is" arbitrary: w)
  case (Cons i js)
  let ?n = "username @ dec i @ ''.txt''"
  let ?w = "w\<lparr>tree := (d @ slash # ?n, str) # tree w, descs := descs w @ [d @ slash # ?n]\<rparr>"
  have "writer_main sh_creat sh_write [''writer'', d @ slash # ?n, str] w = (0, ?w)"
    using Cons.prems(1,2) Cons.prems(4)[of i] by (intro writer_runs) (auto simp: file_name_def)
  moreover have "file_name d username j \<notin> fst ` set (tree ?w)" if "j \<in> set js" for j
    using that Cons.prems(3) Cons.prems(4)[of j] by (auto simp: file_name_def)
  ultimately show ?case using Cons.IH[of ?w] Cons.prems by (auto simp: file_name_def)
next
  case Nil
  then show ?case by (intro exI[of _ "descs w"]) simp
qed

text \<open>
  The script and the program it was replaced by agree on a file in an existing folder up to the
  newline of \<open>echo\<close>; only the script makes a missing folder.
\<close>

lemma writer_sh_result:
  assumes "slash \<notin> set n" "d @ slash # n \<notin> set (folders (mkdir_p d w))"
  shows "\<exists>w'. writer_sh [d @ slash # n, str] w = (0, w') \<and> d \<in> set (folders w') \<and>
    map_of (tree w') (d @ slash # n) = Some (str @ [newline])"
  using assms by (auto simp: writer_sh_def Let_def put_file_def mkdir_p_def numeral_2_eq_2)

lemma writer_needs_folder:
  assumes "slash \<notin> set n" "d \<notin> set (folders w)"
  shows "writer_main sh_creat sh_write [''writer'', d @ slash # n, str] w = (1, w)"
  using assms by (simp add: writer_main_def sh_creat_def numeral_3_eq_3 numeral_2_eq_2)

subsection \<open>Counting them\<close>

lemma contains_append [simp]: "contains s (s @ t)"
proof (cases "s @ t")
  case (Cons c cs)
  then have "take (length s) (c # cs) = s" by (metis append_eq_conv_conj)
  then show ?thesis using Cons by simp
qed simp

lemma contains_self [simp]: "contains s s"
  using contains_append[of s "[]"] by simp

lemma text_lines_word: "s \<noteq> [] \<Longrightarrow> newline \<notin> set s \<Longrightarrow> text_lines s = [s]"
proof -
  assume a: "s \<noteq> []" "newline \<notin> set s"
  have t: "takeWhile (\<lambda>c. c \<noteq> newline) s = s" using a(2) by (auto simp: takeWhile_eq_all_conv)
  have d: "dropWhile (\<lambda>c. c \<noteq> newline) s = []" using a(2) by (auto simp: dropWhile_eq_Nil_conv)
  show ?thesis using text_lines.simps[of s] a(1) unfolding t d by (simp add: text_lines.simps)
qed

definition untouched :: "string \<Rightarrow> shell_fs \<Rightarrow> bool" where
  "untouched d w \<longleftrightarrow> (\<forall>q \<in> set (tree w). \<not> below d (fst q)) \<and> (\<forall>p \<in> set (folders w). \<not> below d p)"

lemma finder_counts:
  assumes "untouched d w" "d \<in> set (folders w)" "word_ok username" "s \<noteq> []" "newline \<notin> set s"
  shows "finder [d, s] (w\<lparr>tree := map (\<lambda>i. (file_name d username i, s)) js @ tree w, descs := ds\<rparr>) =
    (0, [count_line (dec (length js)) (dec (length js))])"
proof -
  have u: "\<not> hidden (username @ x)" "slash \<notin> set username" for x
    using assms(3) by (auto simp: word_ok_def hidden_def)
  have none: "filter (below d) (map fst (tree w)) = []" "filter (below d) (folders w) = []"
    "filter (\<lambda>q. below d (fst q) \<and> \<not> hidden (inside d (fst q))) (tree w) = []"
    using assms(1) by (auto simp: untouched_def filter_empty_conv)
  have new: "filter (below d) (map (fst \<circ> (\<lambda>i. (file_name d username i, s))) js) = map (file_name d username) js"
    "filter (\<lambda>q. below d (fst q) \<and> \<not> hidden (inside d (fst q))) (map (\<lambda>i. (file_name d username i, s)) js) =
     map (\<lambda>i. (file_name d username i, s)) js"
    using u by (auto simp: file_name_def comp_def filter_map filter_id_conv)
  have ls: "listed d (map fst (map (\<lambda>i. (file_name d username i, s)) js @ tree w)) = map (\<lambda>i. username @ dec i @ ''.txt'') js"
    using none new u by (auto simp: listed_def comp_def file_name_def filter_id_conv)
  have gr: "grep_lines s d (w\<lparr>tree := map (\<lambda>i. (file_name d username i, s)) js @ tree w, descs := ds\<rparr>) = length js"
    using none new text_lines_word[OF assms(4,5)] by (simp add: grep_lines_def comp_def sum_list_triv)
  show ?thesis using assms(2) none(2) ls gr by (simp add: finder_def ls_lines_def listed_def[of d "folders w"])
qed

text \<open>Removing a folder and making it again leaves it empty.\<close>

lemma not_below_shorter: "length p \<le> length d \<Longrightarrow> \<not> below d p"
proof
  assume "length p \<le> length d" "below d p"
  then have "length (take (length d + 1) p) = length d + 1" by (simp add: below_def)
  then show False using \<open>length p \<le> length d\<close> by simp
qed

lemma untouched_fresh: "untouched d (mkdir_p d (rm_rf d w))" "d \<in> set (folders (mkdir_p d (rm_rf d w)))"
  by (auto simp: untouched_def mkdir_p_def rm_rf_def not_below_shorter)

lemma untouched_below: "untouched d w \<Longrightarrow> file_name d username i \<notin> fst ` set (tree w)"
  by (force simp: untouched_def file_name_def)

definition settings_ok :: "string list \<Rightarrow> nat \<Rightarrow> bool" where
  "settings_ok args n \<longleftrightarrow>
     (case test_settings args of (numfiles, str, dir) \<Rightarrow> numfiles = dec n \<and> plain str \<and> plain dir)"



text \<open>
  The comparison is a search for the expected line inside the output, so a count of matching lines
  that only begins with the expected digits is accepted as well.
\<close>

lemma finder_test_accepts_more:
  assumes "prefix_digits = dec n @ ds"
  shows "contains (count_line (dec n) (dec n)) (count_line (dec n) prefix_digits)"
  using contains_append[of "count_line (dec n) (dec n)" ds] assms by (simp add: count_line_def)

text \<open>
  With the configuration of the first assignment the folder is not made, and the C writer, unlike the
  script it replaced, does not make it either: the test fails at the first file.
\<close>

lemma finder_test_assignment1:
  assumes "settings_ok args (Suc n)" "slash \<notin> set username"
  shows "fst (finder_test username ''assignment1'' args w) = 1"
proof -
  obtain numfiles str dir where st: "test_settings args = (numfiles, str, dir)" by (rule prod_cases3)
  have s: "numfiles = dec (Suc n)" using assms(1) st by (auto simp: settings_ok_def)
  have nd: "dir \<notin> set (folders (rm_rf dir w))" by (simp add: rm_rf_def)
  obtain j js where j: "seq_to numfiles = j # js" by (cases "seq_to numfiles") (auto simp: s)
  have "write_files dir username str (seq_to numfiles) (rm_rf dir w) = (1, rm_rf dir w)"
    using assms(2) nd by (simp add: j writer_main_def sh_creat_def numeral_3_eq_3 numeral_2_eq_2)
  then show ?thesis using st by (simp add: finder_test_def Let_def)
qed

end
