(* ===== verification/Queue_Chains.thy ===== *)
theory Queue_Chains
  imports Sys_Queue
begin

text \<open>
  What the queue families of \<open>sys/queue.h\<close> with tail or back pointers have in common. Such a pointer
  is the address of a \<open>next\<close> field: that of the head or that of an element. A chain follows the
  \<open>next\<close> fields from a slot to the null pointer.
\<close>

subsection \<open>Slots and chains\<close>

datatype qslot = QHead nat | QNext nat

type_synonym cells = "qslot \<Rightarrow> nat option option"

fun chain :: "cells \<Rightarrow> qslot \<Rightarrow> nat list \<Rightarrow> bool" where
  "chain cell s [] \<longleftrightarrow> cell s = Some None"
| "chain cell s (x # xs) \<longleftrightarrow> cell s = Some (Some x) \<and> chain cell (QNext x) xs"

fun backs :: "(nat \<Rightarrow> qslot option) \<Rightarrow> qslot \<Rightarrow> nat list \<Rightarrow> bool" where
  "backs prv s [] \<longleftrightarrow> True"
| "backs prv s (x # xs) \<longleftrightarrow> prv x = Some s \<and> backs prv (QNext x) xs"

fun end_slot :: "qslot \<Rightarrow> nat list \<Rightarrow> qslot" where
  "end_slot s [] = s"
| "end_slot s (x # xs) = end_slot (QNext x) xs"

lemma head_not_next [simp]: "QHead h \<notin> QNext ` A"
  by auto

lemma end_slot_snoc [simp]: "end_slot s (xs @ [x]) = QNext x"
  by (induction xs arbitrary: s) auto

lemma end_slot_append: "end_slot s (us @ vs) = end_slot (end_slot s us) vs"
  by (induction us arbitrary: s) auto

lemma end_slot_cases: "end_slot s xs = (if xs = [] then s else QNext (last xs))"
  by (induction xs arbitrary: s) auto

lemma chain_end: "chain cell s xs \<Longrightarrow> cell (end_slot s xs) = Some None"
  by (induction xs arbitrary: s) auto

lemma chain_live: "chain cell s xs \<Longrightarrow> x \<in> set xs \<Longrightarrow> cell (QNext x) \<noteq> None"
proof (induction xs arbitrary: s)
  case (Cons y ys)
  then show ?case by (cases ys) auto
qed simp

lemma chain_slot: "chain cell s (us @ vs) \<Longrightarrow> cell (end_slot s us) = Some (case vs of [] \<Rightarrow> None | v # _ \<Rightarrow> Some v)"
  by (induction us arbitrary: s) (auto split: list.split)

lemma chain_at: "chain cell s (us @ x # vs) \<Longrightarrow> cell (QNext x) = Some (case vs of [] \<Rightarrow> None | v # _ \<Rightarrow> Some v)"
  using chain_slot[of cell s "us @ [x]" vs] by simp

lemma chain_upd_other: "t \<noteq> s \<Longrightarrow> t \<notin> QNext ` set xs \<Longrightarrow> chain (cell(t := v)) s xs = chain cell s xs"
  by (induction xs arbitrary: s) auto

text \<open>
  Insertion behind a prefix: the slot that ends the prefix takes the element, whose own slot takes
  what was there. Removal: the slot that points to the element takes what the element's slot holds.
\<close>

lemma chain_insert:
  assumes "chain cell s (us @ vs)" "distinct (us @ vs)" "e \<notin> set (us @ vs)" "s \<notin> QNext ` set (e # us @ vs)"
    "cell' = cell(QNext e := cell (end_slot s us), end_slot s us := Some (Some e))"
  shows "chain cell' s (us @ e # vs)"
  unfolding assms(5) using assms(1-4)
proof (induction us arbitrary: s)
  case Nil
  have "chain (cell(QNext e := cell s, s := Some (Some e))) (QNext e) vs"
    using Nil by (cases vs) (auto simp: chain_upd_other image_iff)
  then show ?case by (simp del: fun_upd_apply add: fun_upd_same)
next
  case (Cons u us)
  have "end_slot (QNext u) us \<noteq> s" using Cons.prems(4) by (auto simp: end_slot_cases)
  then show ?case using Cons.IH[of "QNext u"] Cons.prems by auto
qed

lemma chain_remove:
  assumes "chain cell s (us @ e # vs)" "distinct (us @ e # vs)" "s \<notin> QNext ` set (us @ e # vs)"
    "cell' = cell(end_slot s us := cell (QNext e))"
  shows "chain cell' s (us @ vs)"
  unfolding assms(4) using assms(1-3)
proof (induction us arbitrary: s)
  case Nil
  then show ?case
    by (cases vs) (auto simp del: fun_upd_apply simp: fun_upd_same fun_upd_other chain_upd_other image_iff)
next
  case (Cons u us)
  have "end_slot (QNext u) us \<noteq> s" using Cons.prems(3) by (auto simp: end_slot_cases)
  then show ?case using Cons.IH[of "QNext u"] Cons.prems by auto
qed

lemma chain_concat:
  assumes "chain cell s xs" "chain cell t (y # ys)" "distinct (xs @ y # ys)" "s \<notin> QNext ` set (xs @ y # ys)"
    "cell' = cell(end_slot s xs := cell t)"
  shows "chain cell' s (xs @ y # ys)"
  unfolding assms(5) using assms(1-4)
proof (induction xs arbitrary: s)
  case Nil
  then show ?case by (auto simp del: fun_upd_apply simp: fun_upd_same chain_upd_other)
next
  case (Cons x xs)
  have "end_slot (QNext x) xs \<noteq> s" using Cons.prems(4) by (auto simp: end_slot_cases)
  then show ?case using Cons.IH[of "QNext x"] Cons.prems by auto
qed

lemma backs_upd_other: "x \<notin> set xs \<Longrightarrow> backs (prv(x := v)) s xs = backs prv s xs"
  by (induction xs arbitrary: s) auto

lemma backs_append: "backs prv s (us @ vs) \<longleftrightarrow> backs prv s us \<and> backs prv (end_slot s us) vs"
  by (induction us arbitrary: s) auto

lemma backs_at: "backs prv s (us @ x # vs) \<Longrightarrow> prv x = Some (end_slot s us)"
  by (simp add: backs_append)

lemma backs_insert:
  assumes "backs prv s (us @ vs)" "distinct (us @ vs)" "e \<notin> set (us @ vs)"
    "prv' = (case vs of [] \<Rightarrow> prv | v # _ \<Rightarrow> prv(v := Some (QNext e)))(e := Some (end_slot s us))"
  shows "backs prv' s (us @ e # vs)"
  unfolding assms(4) using assms(1-3) by (cases vs) (auto simp: backs_append backs_upd_other)

lemma backs_remove:
  assumes "backs prv s (us @ e # vs)" "distinct (us @ e # vs)"
    "prv' = (case vs of [] \<Rightarrow> prv | v # _ \<Rightarrow> prv(v := Some (end_slot s us)))"
  shows "backs prv' s (us @ vs)"
  unfolding assms(3) using assms(1,2) by (cases vs) (auto simp: backs_append backs_upd_other)

subsection \<open>Loops over a queue\<close>

text \<open>
  The \<open>for\<close> loops of the \<open>FOREACH\<close> macros: the body may change state and queue and may break.
\<close>

partial_function (option) q_foreach ::
    "('q \<Rightarrow> nat \<Rightarrow> nat option res) \<Rightarrow> ('s \<Rightarrow> 'q \<Rightarrow> nat \<Rightarrow> ('s \<times> 'q \<times> bool) res) \<Rightarrow> 's \<Rightarrow> 'q \<Rightarrow> nat option \<Rightarrow>
     ('s \<times> 'q) res option" where
  "q_foreach step body s q var =
     (case var of
        None \<Rightarrow> Some (Inr (s, q))
      | Some a \<Rightarrow>
          (case body s q a of
             Inl e \<Rightarrow> Some (Inl e)
           | Inr (s, q, brk) \<Rightarrow>
               if brk then Some (Inr (s, q))
               else
                 (case step q a of
                    Inl e \<Rightarrow> Some (Inl e)
                  | Inr var \<Rightarrow> q_foreach step body s q var)))"

definition collect :: "nat list \<Rightarrow> 'q \<Rightarrow> nat \<Rightarrow> (nat list \<times> 'q \<times> bool) res" where
  "collect seen q a = Inr (seen @ [a], q, False)"

fun visits :: "('q \<Rightarrow> nat \<Rightarrow> nat option res) \<Rightarrow> 'q \<Rightarrow> nat option \<Rightarrow> nat list \<Rightarrow> bool" where
  "visits step q p [] \<longleftrightarrow> p = None"
| "visits step q p (x # xs) \<longleftrightarrow> p = Some x \<and> (\<exists>r. step q x = Inr r \<and> visits step q r xs)"

lemma foreach_collects:
  "visits step q p xs \<Longrightarrow> q_foreach step collect seen q p = Some (Inr (seen @ xs, q))"
proof (induction xs arbitrary: p seen)
  case Nil
  then show ?case by (subst q_foreach.simps) simp
next
  case (Cons x xs)
  then obtain r where "p = Some x" "step q x = Inr r" "visits step q r xs" by auto
  moreover have "collect seen q x = Inr (seen @ [x], q, False)" by (simp add: collect_def)
  ultimately show ?case using Cons.IH by (subst q_foreach.simps) simp
qed

lemma visits_cong: "visits step q p xs \<Longrightarrow> (\<And>a. step' q a = step q a) \<Longrightarrow> visits step' q p xs"
  by (induction xs arbitrary: p) auto

lemma chain_visits:
  assumes "\<And>a. step q a = (case cell (QNext a) of None \<Rightarrow> Inl UseAfterFree | Some p \<Rightarrow> Inr p)"
  shows "chain cell s xs \<Longrightarrow> visits step q (the (cell s)) xs"
proof (induction xs arbitrary: s)
  case (Cons x xs)
  then obtain p where "cell (QNext x) = Some p" using chain_live[of cell s "x # xs" x] by auto
  then show ?case using Cons.IH[of "QNext x"] Cons.prems assms[of x] by simp
qed simp

subsection \<open>Contracts\<close>

text \<open>A list that elements can be added to at its end, and one that knows predecessors.\<close>

locale tail_list = linked_list +
  fixes insert_tail :: "'a \<Rightarrow> nat \<Rightarrow> 'a res"
  assumes insert_tail_law: "rep q xs \<Longrightarrow> data q e \<noteq> None \<Longrightarrow> e \<notin> set xs \<Longrightarrow>
      \<exists>q'. insert_tail q e = Inr q' \<and> rep q' (xs @ [e]) \<and> data q' = data q"
begin

primrec insert_tails :: "'a \<Rightarrow> nat list \<Rightarrow> 'a res" where
  "insert_tails q [] = Inr q"
| "insert_tails q (e # es) = res_bind (insert_tail q e) (\<lambda>q. insert_tails q es)"

lemma insert_tails_append:
  "rep q xs \<Longrightarrow> distinct (xs @ es) \<Longrightarrow> \<forall>e \<in> set es. data q e \<noteq> None \<Longrightarrow>
   \<exists>q'. insert_tails q es = Inr q' \<and> rep q' (xs @ es) \<and> data q' = data q"
proof (induction es arbitrary: q xs)
  case (Cons e es)
  then obtain q1 where "insert_tail q e = Inr q1" "rep q1 (xs @ [e])" "data q1 = data q"
    using insert_tail_law[OF Cons.prems(1), of e] by auto
  then show ?case using Cons.IH[of q1 "xs @ [e]"] Cons.prems by auto
qed simp

text \<open>First in, first out: what was in the queue leaves before what was added.\<close>

lemma fifo:
  assumes "rep q xs" "distinct (xs @ es)" "\<forall>e \<in> set es. data q e \<noteq> None"
  shows "\<exists>q1 q2. insert_tails q es = Inr q1 \<and> removes q1 xs = Some (Inr q2) \<and> rep q2 es \<and> data q2 = data q"
proof -
  obtain q1 where q1: "insert_tails q es = Inr q1" "rep q1 (xs @ es)" "data q1 = data q"
    using insert_tails_append[OF assms] by blast
  have "filter (\<lambda>x. x \<notin> set xs) (xs @ es) = es"
    using assms(2) by (auto simp: filter_id_conv filter_empty_conv)
  then show ?thesis using q1 removes_filter[OF q1(2), of xs] assms(2) by auto
qed

end

locale two_way_list = linked_list +
  fixes insert_before :: "'a \<Rightarrow> nat \<Rightarrow> nat \<Rightarrow> 'a res"
  assumes insert_before_law: "rep q (us @ x # vs) \<Longrightarrow> data q e \<noteq> None \<Longrightarrow> e \<notin> set (us @ x # vs) \<Longrightarrow>
      \<exists>q'. insert_before q x e = Inr q' \<and> rep q' (us @ e # x # vs) \<and> data q' = data q"
begin

text \<open>Inserting before the successor of an element or after the element itself is the same.\<close>

lemma before_is_after:
  assumes "rep q (us @ x # y # vs)" "data q e \<noteq> None" "e \<notin> set (us @ x # y # vs)"
  shows "\<exists>q1 q2. insert_before q y e = Inr q1 \<and> insert_after q x e = Inr q2 \<and>
    rep q1 (us @ x # e # y # vs) \<and> rep q2 (us @ x # e # y # vs) \<and> data q1 = data q2"
  using insert_before_law[of q "us @ [x]" y vs e] insert_after_law[OF assms] assms by auto

end

end
