(* ===== verification/Tail_Queues.thy ===== *)
theory Tail_Queues
  imports Queue_Chains
begin

text \<open>
  The singly-linked tail queues and the simple queues of \<open>sys/queue.h\<close>. A queue is a set of heads,
  by number, and a pool of elements, by address, so that two queues can be concatenated. An element
  argument is an address; using one that is not in the pool is a fault.
\<close>

subsection \<open>The macros\<close>

record 'a stnode =
  stdata :: 'a
  stqe_next :: "nat option"

record sthead =
  stqh_first :: "nat option"
  stqh_last :: qslot

record 'a stailq =
  st_heads :: "nat \<Rightarrow> sthead"
  st_nodes :: "nat \<rightharpoonup> 'a stnode"

text \<open>The contents of a \<open>next\<close> field, and the assignment \<open>*slot = p\<close>.\<close>

definition st_cell :: "'a stailq \<Rightarrow> cells" where
  "st_cell q s =
     (case s of
        QHead h \<Rightarrow> Some (stqh_first (st_heads q h))
      | QNext a \<Rightarrow> map_option stqe_next (st_nodes q a))"

definition st_load :: "'a stailq \<Rightarrow> qslot \<Rightarrow> nat option res" where
  "st_load q s = (case st_cell q s of None \<Rightarrow> Inl UseAfterFree | Some p \<Rightarrow> Inr p)"

definition st_store :: "'a stailq \<Rightarrow> qslot \<Rightarrow> nat option \<Rightarrow> 'a stailq res" where
  "st_store q s p =
     (case s of
        QHead h \<Rightarrow> Inr (q\<lparr>st_heads := (st_heads q)(h := (st_heads q h)\<lparr>stqh_first := p\<rparr>)\<rparr>)
      | QNext a \<Rightarrow>
          (case st_nodes q a of
             None \<Rightarrow> Inl UseAfterFree
           | Some n \<Rightarrow> Inr (q\<lparr>st_nodes := (st_nodes q)(a \<mapsto> n\<lparr>stqe_next := p\<rparr>)\<rparr>)))"

definition set_stqh_last :: "'a stailq \<Rightarrow> nat \<Rightarrow> qslot \<Rightarrow> 'a stailq" where
  "set_stqh_last q h s = q\<lparr>st_heads := (st_heads q)(h := (st_heads q h)\<lparr>stqh_last := s\<rparr>)\<rparr>"

definition STAILQ_INIT :: "nat \<Rightarrow> 'a stailq \<Rightarrow> 'a stailq" where
  "STAILQ_INIT h q = q\<lparr>st_heads := (st_heads q)(h := \<lparr>stqh_first = None, stqh_last = QHead h\<rparr>)\<rparr>"

definition STAILQ_FIRST :: "'a stailq \<Rightarrow> nat \<Rightarrow> nat option" where
  "STAILQ_FIRST q h = stqh_first (st_heads q h)"

definition STAILQ_EMPTY :: "'a stailq \<Rightarrow> nat \<Rightarrow> bool" where
  "STAILQ_EMPTY q h \<longleftrightarrow> stqh_first (st_heads q h) = None"

definition STAILQ_NEXT :: "'a stailq \<Rightarrow> nat \<Rightarrow> nat option res" where
  "STAILQ_NEXT q elm = st_load q (QNext elm)"

definition STAILQ_INSERT_HEAD :: "'a stailq \<Rightarrow> nat \<Rightarrow> nat \<Rightarrow> 'a stailq res" where
  "STAILQ_INSERT_HEAD q h elm =
     (let first = stqh_first (st_heads q h) in
      res_bind (st_store q (QNext elm) first) (\<lambda>q.
      st_store (if first = None then set_stqh_last q h (QNext elm) else q) (QHead h) (Some elm)))"

definition STAILQ_INSERT_TAIL :: "'a stailq \<Rightarrow> nat \<Rightarrow> nat \<Rightarrow> 'a stailq res" where
  "STAILQ_INSERT_TAIL q h elm =
     res_bind (st_store q (QNext elm) None) (\<lambda>q.
     res_bind (st_store q (stqh_last (st_heads q h)) (Some elm)) (\<lambda>q.
     Inr (set_stqh_last q h (QNext elm))))"

definition STAILQ_INSERT_AFTER :: "'a stailq \<Rightarrow> nat \<Rightarrow> nat \<Rightarrow> nat \<Rightarrow> 'a stailq res" where
  "STAILQ_INSERT_AFTER q h listelm elm =
     res_bind (st_load q (QNext listelm)) (\<lambda>nxt.
     res_bind (st_store q (QNext elm) nxt) (\<lambda>q.
     st_store (if nxt = None then set_stqh_last q h (QNext elm) else q) (QNext listelm) (Some elm)))"

definition STAILQ_REMOVE_HEAD :: "'a stailq \<Rightarrow> nat \<Rightarrow> 'a stailq res" where
  "STAILQ_REMOVE_HEAD q h =
     (case stqh_first (st_heads q h) of
        None \<Rightarrow> Inl NullDeref
      | Some a \<Rightarrow>
          res_bind (st_load q (QNext a)) (\<lambda>nxt.
          res_bind (st_store q (QHead h) nxt) (\<lambda>q.
          Inr (if nxt = None then set_stqh_last q h (QHead h) else q))))"

text \<open>The search loop of \<open>STAILQ_REMOVE\<close>.\<close>

partial_function (option) st_before :: "'a stailq \<Rightarrow> nat \<Rightarrow> nat option \<Rightarrow> nat res option" where
  "st_before q elm curelm =
     (case curelm of
        None \<Rightarrow> Some (Inl NullDeref)
      | Some c \<Rightarrow>
          (case st_load q (QNext c) of
             Inl e \<Rightarrow> Some (Inl e)
           | Inr nxt \<Rightarrow> if nxt = Some elm then Some (Inr c) else st_before q elm nxt))"

definition st_unlink :: "'a stailq \<Rightarrow> nat \<Rightarrow> nat \<Rightarrow> nat \<Rightarrow> 'a stailq res" where
  "st_unlink q h curelm elm =
     res_bind (st_load q (QNext elm)) (\<lambda>nxt.
     res_bind (st_store q (QNext curelm) nxt) (\<lambda>q.
     Inr (if nxt = None then set_stqh_last q h (QNext curelm) else q)))"

definition STAILQ_REMOVE :: "'a stailq \<Rightarrow> nat \<Rightarrow> nat \<Rightarrow> 'a stailq res option" where
  "STAILQ_REMOVE q h elm =
     (if stqh_first (st_heads q h) = Some elm then Some (STAILQ_REMOVE_HEAD q h)
      else map_option (\<lambda>r. res_bind r (\<lambda>curelm. st_unlink q h curelm elm))
             (st_before q elm (stqh_first (st_heads q h))))"

definition STAILQ_FOREACH ::
    "('s \<Rightarrow> 'a stailq \<Rightarrow> nat \<Rightarrow> ('s \<times> 'a stailq \<times> bool) res) \<Rightarrow> 's \<Rightarrow> 'a stailq \<Rightarrow> nat \<Rightarrow>
     ('s \<times> 'a stailq) res option" where
  "STAILQ_FOREACH body s q h = q_foreach STAILQ_NEXT body s q (stqh_first (st_heads q h))"

definition STAILQ_CONCAT :: "'a stailq \<Rightarrow> nat \<Rightarrow> nat \<Rightarrow> 'a stailq res" where
  "STAILQ_CONCAT q head1 head2 =
     (if \<not> STAILQ_EMPTY q head2 then
        res_bind (st_store q (stqh_last (st_heads q head1)) (stqh_first (st_heads q head2))) (\<lambda>q.
        Inr (STAILQ_INIT head2 (set_stqh_last q head1 (stqh_last (st_heads q head2)))))
      else Inr q)"

subsection \<open>What a queue represents\<close>

definition st_data :: "'a stailq \<Rightarrow> nat \<Rightarrow> 'a option" where
  "st_data q a = map_option stdata (st_nodes q a)"

definition stailq_rep :: "nat \<Rightarrow> 'a stailq \<Rightarrow> nat list \<Rightarrow> bool" where
  "stailq_rep h q xs \<longleftrightarrow> distinct xs \<and> chain (st_cell q) (QHead h) xs \<and>
     stqh_last (st_heads q h) = end_slot (QHead h) xs"

lemma st_store_live:
  assumes "st_cell q s \<noteq> None"
  shows "\<exists>q'. st_store q s p = Inr q' \<and> st_cell q' = (st_cell q)(s := Some p) \<and> st_data q' = st_data q \<and>
    (\<forall>h. stqh_last (st_heads q' h) = stqh_last (st_heads q h))"
  using assms
  by (cases s) (auto simp: st_store_def st_cell_def st_data_def fun_eq_iff split: qslot.splits)

lemma set_stqh_last_simps [simp]:
  "st_cell (set_stqh_last q h s) = st_cell q" "st_data (set_stqh_last q h s) = st_data q"
  "stqh_last (st_heads (set_stqh_last q h s) h') = (if h' = h then s else stqh_last (st_heads q h'))"
  by (auto simp: set_stqh_last_def st_cell_def st_data_def fun_eq_iff split: qslot.split)

lemma STAILQ_INIT_simps [simp]:
  "st_cell (STAILQ_INIT h q) = (st_cell q)(QHead h := Some None)" "st_data (STAILQ_INIT h q) = st_data q"
  "stqh_last (st_heads (STAILQ_INIT h q) h') = (if h' = h then QHead h else stqh_last (st_heads q h'))"
  by (auto simp: STAILQ_INIT_def st_cell_def st_data_def fun_eq_iff split: qslot.split)

lemma st_data_cell: "st_data q e \<noteq> None \<longleftrightarrow> st_cell q (QNext e) \<noteq> None"
  by (auto simp: st_data_def st_cell_def)

lemma st_load_cell: "st_cell q s = Some p \<Longrightarrow> st_load q s = Inr p"
  by (simp add: st_load_def)

lemma st_first_cell: "stqh_first (st_heads q h) = the (st_cell q (QHead h))"
  by (simp add: st_cell_def)

text \<open>Insertion behind a prefix, the common part of the three insertions.\<close>

lemma stailq_insert_at:
  assumes "stailq_rep h q (us @ vs)" "st_data q e \<noteq> None" "e \<notin> set (us @ vs)"
    "st_cell q' = (st_cell q)(QNext e := st_cell q (end_slot (QHead h) us), end_slot (QHead h) us := Some (Some e))"
    "stqh_last (st_heads q' h) = (if vs = [] then QNext e else stqh_last (st_heads q h))"
  shows "stailq_rep h q' (us @ e # vs)"
  using assms chain_insert[of "st_cell q" "QHead h" us vs e, OF _ _ assms(3) _ assms(4)]
  by (cases vs) (auto simp: stailq_rep_def end_slot_append)

lemma stailq_remove_at:
  assumes "stailq_rep h q (us @ e # vs)"
    "st_cell q' = (st_cell q)(end_slot (QHead h) us := st_cell q (QNext e))"
    "stqh_last (st_heads q' h) = (if vs = [] then end_slot (QHead h) us else stqh_last (st_heads q h))"
  shows "stailq_rep h q' (us @ vs)"
  using assms chain_remove[of "st_cell q" "QHead h" us e vs, OF _ _ _ assms(2)]
  by (cases vs) (auto simp: stailq_rep_def end_slot_append)

lemma st_two_stores:
  assumes "st_cell q s1 \<noteq> None" "st_cell q s2 \<noteq> None"
  shows "\<exists>q1 q2. st_store q s1 p1 = Inr q1 \<and> st_store q1 s2 p2 = Inr q2 \<and>
    st_cell q2 = (st_cell q)(s1 := Some p1, s2 := Some p2) \<and> st_data q2 = st_data q \<and>
    (\<forall>h. stqh_last (st_heads q1 h) = stqh_last (st_heads q h)) \<and>
    (\<forall>h. stqh_last (st_heads q2 h) = stqh_last (st_heads q h))"
proof -
  obtain q1 where q1: "st_store q s1 p1 = Inr q1" "st_cell q1 = (st_cell q)(s1 := Some p1)" "st_data q1 = st_data q"
      "\<forall>h. stqh_last (st_heads q1 h) = stqh_last (st_heads q h)"
    using st_store_live[OF assms(1)] by blast
  then show ?thesis using st_store_live[of q1 s2 p2] assms(2) by auto
qed

lemma st_store_set_last:
  "st_store (set_stqh_last q h s) t p = res_bind (st_store q t p) (\<lambda>q. Inr (set_stqh_last q h s))"
  by (auto simp: st_store_def set_stqh_last_def fun_eq_iff split: qslot.split option.split)

lemma stailq_insert_head_law:
  assumes "stailq_rep h q xs" "st_data q e \<noteq> None" "e \<notin> set xs"
  shows "\<exists>q'. STAILQ_INSERT_HEAD q h e = Inr q' \<and> stailq_rep h q' (e # xs) \<and> st_data q' = st_data q"
proof -
  have f: "st_cell q (QHead h) = Some (stqh_first (st_heads q h))" by (simp add: st_cell_def)
  then have n: "stqh_first (st_heads q h) = None \<longleftrightarrow> xs = []"
    using assms(1) by (cases xs) (auto simp: stailq_rep_def)
  obtain q1 q2 where q: "st_store q (QNext e) (stqh_first (st_heads q h)) = Inr q1"
      "st_store q1 (QHead h) (Some e) = Inr q2"
      "st_cell q2 = (st_cell q)(QNext e := st_cell q (QHead h), QHead h := Some (Some e))"
      "st_data q2 = st_data q" "\<forall>h. stqh_last (st_heads q2 h) = stqh_last (st_heads q h)"
    using st_two_stores[OF iffD1[OF st_data_cell assms(2)], of "QHead h" "stqh_first (st_heads q h)" "Some e"] f
    by auto
  let ?q = "if xs = [] then set_stqh_last q2 h (QNext e) else q2"
  have "stailq_rep h ?q ([] @ e # xs)" by (rule stailq_insert_at[OF _ assms(2)]) (use assms q in auto)
  then show ?thesis using q n by (auto simp: STAILQ_INSERT_HEAD_def Let_def st_store_set_last)
qed

lemma stailq_insert_after_law:
  assumes "stailq_rep h q (us @ x # vs)" "st_data q e \<noteq> None" "e \<notin> set (us @ x # vs)"
  shows "\<exists>q'. STAILQ_INSERT_AFTER q h x e = Inr q' \<and> stailq_rep h q' (us @ x # e # vs) \<and> st_data q' = st_data q"
proof -
  let ?nxt = "case vs of [] \<Rightarrow> None | v # _ \<Rightarrow> Some v"
  have x: "st_cell q (QNext x) = Some ?nxt" using assms(1) chain_at by (auto simp: stailq_rep_def)
  obtain q1 q2 where q: "st_store q (QNext e) ?nxt = Inr q1" "st_store q1 (QNext x) (Some e) = Inr q2"
      "st_cell q2 = (st_cell q)(QNext e := st_cell q (QNext x), QNext x := Some (Some e))"
      "st_data q2 = st_data q" "\<forall>h. stqh_last (st_heads q2 h) = stqh_last (st_heads q h)"
    using st_two_stores[OF iffD1[OF st_data_cell assms(2)], of "QNext x" ?nxt "Some e"] x by auto
  let ?q = "if vs = [] then set_stqh_last q2 h (QNext e) else q2"
  have "stailq_rep h ?q ((us @ [x]) @ e # vs)"
    by (rule stailq_insert_at[OF _ assms(2)]) (use assms(1,3) q in auto)
  then show ?thesis using q x
    by (cases vs) (auto simp: STAILQ_INSERT_AFTER_def st_load_def st_store_set_last)
qed

lemma stailq_insert_tail_law:
  assumes "stailq_rep h q xs" "st_data q e \<noteq> None" "e \<notin> set xs"
  shows "\<exists>q'. STAILQ_INSERT_TAIL q h e = Inr q' \<and> stailq_rep h q' (xs @ [e]) \<and> st_data q' = st_data q"
proof -
  let ?t = "end_slot (QHead h) xs"
  have t: "stqh_last (st_heads q h) = ?t" "st_cell q ?t = Some None"
    using assms(1) chain_end by (auto simp: stailq_rep_def)
  obtain q1 q2 where q: "st_store q (QNext e) None = Inr q1" "st_store q1 ?t (Some e) = Inr q2"
      "st_cell q2 = (st_cell q)(QNext e := st_cell q ?t, ?t := Some (Some e))" "st_data q2 = st_data q"
      "\<forall>h. stqh_last (st_heads q1 h) = stqh_last (st_heads q h)"
    using st_two_stores[OF iffD1[OF st_data_cell assms(2)], of ?t None "Some e"] t(2) by auto
  have "stailq_rep h (set_stqh_last q2 h (QNext e)) (xs @ e # [])"
    by (rule stailq_insert_at[OF _ assms(2)]) (use assms(1,3) q in auto)
  then show ?thesis using q t by (auto simp: STAILQ_INSERT_TAIL_def)
qed

lemma stailq_remove_head_law:
  assumes "stailq_rep h q (e # xs)"
  shows "\<exists>q'. STAILQ_REMOVE_HEAD q h = Inr q' \<and> stailq_rep h q' xs \<and> st_data q' = st_data q"
proof -
  let ?nxt = "case xs of [] \<Rightarrow> None | v # _ \<Rightarrow> Some v"
  have x: "st_cell q (QNext e) = Some ?nxt"
    using assms chain_at[of "st_cell q" "QHead h" "[]" e xs] by (auto simp: stailq_rep_def)
  have f: "stqh_first (st_heads q h) = Some e" using assms by (simp add: stailq_rep_def st_cell_def)
  obtain q1 where q: "st_store q (QHead h) ?nxt = Inr q1" "st_cell q1 = (st_cell q)(QHead h := st_cell q (QNext e))"
      "st_data q1 = st_data q" "\<forall>h. stqh_last (st_heads q1 h) = stqh_last (st_heads q h)"
    using st_store_live[of q "QHead h" ?nxt] x by (auto simp: st_cell_def[of q "QHead h"])
  let ?q = "if xs = [] then set_stqh_last q1 h (QHead h) else q1"
  have "stailq_rep h ?q ([] @ xs)" by (rule stailq_remove_at[where e = e]) (use assms q in auto)
  then show ?thesis using q x f by (cases xs) (auto simp: STAILQ_REMOVE_HEAD_def st_load_def)
qed

lemma st_before_finds:
  "chain (st_cell q) s (us @ x # e # vs) \<Longrightarrow> distinct (us @ x # e # vs) \<Longrightarrow>
   st_before q e (the (st_cell q s)) = Some (Inr x)"
proof (induction us arbitrary: s)
  case Nil
  then show ?case by (subst st_before.simps) (auto simp: st_load_def)
next
  case (Cons u us)
  then have "st_load q (QNext u) = Inr (the (st_cell q (QNext u)))" "the (st_cell q (QNext u)) \<noteq> Some e"
    by (cases us; auto simp: st_load_def)+
  then show ?case using Cons by (subst st_before.simps) auto
qed

lemma stailq_remove_law:
  assumes "stailq_rep h q (us @ e # vs)"
  shows "\<exists>q'. STAILQ_REMOVE q h e = Some (Inr q') \<and> stailq_rep h q' (us @ vs) \<and> st_data q' = st_data q"
proof (cases us rule: rev_cases)
  case Nil
  then show ?thesis
    using assms stailq_remove_head_law[of h q e vs] by (auto simp: STAILQ_REMOVE_def stailq_rep_def st_cell_def)
next
  case (snoc ws x)
  let ?nxt = "case vs of [] \<Rightarrow> None | v # _ \<Rightarrow> Some v"
  have c: "chain (st_cell q) (QHead h) (ws @ x # e # vs)" "distinct (ws @ x # e # vs)"
    using assms snoc by (auto simp: stailq_rep_def)
  have n: "st_cell q (QNext e) = Some ?nxt" using chain_at[of _ _ us e vs] assms by (auto simp: stailq_rep_def)
  have h: "stqh_first (st_heads q h) \<noteq> Some e"
    using c by (cases ws) (auto simp: st_cell_def)
  obtain q1 where q: "st_store q (QNext x) ?nxt = Inr q1" "st_cell q1 = (st_cell q)(QNext x := st_cell q (QNext e))"
      "st_data q1 = st_data q" "\<forall>h. stqh_last (st_heads q1 h) = stqh_last (st_heads q h)"
    using st_store_live[of q "QNext x" ?nxt] n chain_live[OF c(1), of x] by auto
  let ?q = "if vs = [] then set_stqh_last q1 h (QNext x) else q1"
  have "stailq_rep h ?q (us @ vs)" by (rule stailq_remove_at[OF assms]) (use q snoc in auto)
  then show ?thesis
    using q n h st_before_finds[OF c]
    by (cases vs) (auto simp: STAILQ_REMOVE_def st_unlink_def st_load_def st_first_cell)
qed

text \<open>Concatenation moves the elements of the second queue behind those of the first.\<close>

lemma stailq_concat:
  assumes "stailq_rep h1 q xs" "stailq_rep h2 q ys" "h1 \<noteq> h2" "set xs \<inter> set ys = {}"
  shows "\<exists>q'. STAILQ_CONCAT q h1 h2 = Inr q' \<and> stailq_rep h1 q' (xs @ ys) \<and> stailq_rep h2 q' [] \<and>
    st_data q' = st_data q"
proof (cases ys)
  case Nil
  then show ?thesis using assms by (auto simp: STAILQ_CONCAT_def STAILQ_EMPTY_def stailq_rep_def st_cell_def)
next
  case (Cons y zs)
  let ?t = "end_slot (QHead h1) xs"
  have f: "st_cell q (QHead h2) = Some (Some y)" "stqh_first (st_heads q h2) = Some y"
    using assms(2) Cons by (auto simp: stailq_rep_def st_cell_def)
  have l: "stqh_last (st_heads q h1) = ?t" "st_cell q ?t \<noteq> None"
    using assms(1) chain_end by (auto simp: stailq_rep_def)
  obtain q1 where q1: "st_store q ?t (Some y) = Inr q1" "st_cell q1 = (st_cell q)(?t := st_cell q (QHead h2))"
      "st_data q1 = st_data q" "\<forall>h. stqh_last (st_heads q1 h) = stqh_last (st_heads q h)"
    using st_store_live[OF l(2), of "Some y"] f by auto
  have "chain (st_cell q1) (QHead h1) (xs @ y # zs)"
    by (rule chain_concat[OF _ _ _ _ q1(2)]) (use assms Cons in \<open>auto simp: stailq_rep_def\<close>)
  then show ?thesis
    using assms Cons f l q1
    by (auto simp: STAILQ_CONCAT_def STAILQ_EMPTY_def stailq_rep_def chain_upd_other end_slot_append)
qed

lemma stailq_foreach:
  "stailq_rep h q xs \<Longrightarrow> STAILQ_FOREACH collect [] q h = Some (Inr (xs, q))"
  using foreach_collects[of STAILQ_NEXT q _ xs "[]"]
    chain_visits[of STAILQ_NEXT q "st_cell q" "QHead h" xs]
  by (simp add: STAILQ_FOREACH_def STAILQ_NEXT_def st_load_def stailq_rep_def st_first_cell)

interpretation stailq: tail_list "stailq_rep h" st_data "STAILQ_INIT h" "\<lambda>q. STAILQ_INSERT_HEAD q h"
    "\<lambda>q. STAILQ_INSERT_AFTER q h" "\<lambda>q. STAILQ_REMOVE q h" "\<lambda>q. STAILQ_INSERT_TAIL q h" for h
  by unfold_locales
    (simp_all add: stailq_insert_head_law stailq_insert_after_law stailq_remove_law stailq_insert_tail_law,
     simp_all add: stailq_rep_def)

subsection \<open>Simple queues\<close>

text \<open>The same structure and the same code under other names, without concatenation.\<close>

definition SIMPLEQ_INIT :: "nat \<Rightarrow> 'a stailq \<Rightarrow> 'a stailq" where
  "SIMPLEQ_INIT h q = q\<lparr>st_heads := (st_heads q)(h := \<lparr>stqh_first = None, stqh_last = QHead h\<rparr>)\<rparr>"

definition SIMPLEQ_FIRST :: "'a stailq \<Rightarrow> nat \<Rightarrow> nat option" where
  "SIMPLEQ_FIRST q h = stqh_first (st_heads q h)"

definition SIMPLEQ_EMPTY :: "'a stailq \<Rightarrow> nat \<Rightarrow> bool" where
  "SIMPLEQ_EMPTY q h \<longleftrightarrow> stqh_first (st_heads q h) = None"

definition SIMPLEQ_NEXT :: "'a stailq \<Rightarrow> nat \<Rightarrow> nat option res" where
  "SIMPLEQ_NEXT q elm = st_load q (QNext elm)"

definition SIMPLEQ_INSERT_HEAD :: "'a stailq \<Rightarrow> nat \<Rightarrow> nat \<Rightarrow> 'a stailq res" where
  "SIMPLEQ_INSERT_HEAD q h elm =
     (let first = stqh_first (st_heads q h) in
      res_bind (st_store q (QNext elm) first) (\<lambda>q.
      st_store (if first = None then set_stqh_last q h (QNext elm) else q) (QHead h) (Some elm)))"

definition SIMPLEQ_INSERT_TAIL :: "'a stailq \<Rightarrow> nat \<Rightarrow> nat \<Rightarrow> 'a stailq res" where
  "SIMPLEQ_INSERT_TAIL q h elm =
     res_bind (st_store q (QNext elm) None) (\<lambda>q.
     res_bind (st_store q (stqh_last (st_heads q h)) (Some elm)) (\<lambda>q.
     Inr (set_stqh_last q h (QNext elm))))"

definition SIMPLEQ_INSERT_AFTER :: "'a stailq \<Rightarrow> nat \<Rightarrow> nat \<Rightarrow> nat \<Rightarrow> 'a stailq res" where
  "SIMPLEQ_INSERT_AFTER q h listelm elm =
     res_bind (st_load q (QNext listelm)) (\<lambda>nxt.
     res_bind (st_store q (QNext elm) nxt) (\<lambda>q.
     st_store (if nxt = None then set_stqh_last q h (QNext elm) else q) (QNext listelm) (Some elm)))"

definition SIMPLEQ_REMOVE_HEAD :: "'a stailq \<Rightarrow> nat \<Rightarrow> 'a stailq res" where
  "SIMPLEQ_REMOVE_HEAD q h =
     (case stqh_first (st_heads q h) of
        None \<Rightarrow> Inl NullDeref
      | Some a \<Rightarrow>
          res_bind (st_load q (QNext a)) (\<lambda>nxt.
          res_bind (st_store q (QHead h) nxt) (\<lambda>q.
          Inr (if nxt = None then set_stqh_last q h (QHead h) else q))))"

definition SIMPLEQ_REMOVE :: "'a stailq \<Rightarrow> nat \<Rightarrow> nat \<Rightarrow> 'a stailq res option" where
  "SIMPLEQ_REMOVE q h elm =
     (if stqh_first (st_heads q h) = Some elm then Some (SIMPLEQ_REMOVE_HEAD q h)
      else map_option (\<lambda>r. res_bind r (\<lambda>curelm. st_unlink q h curelm elm))
             (st_before q elm (stqh_first (st_heads q h))))"

definition SIMPLEQ_FOREACH ::
    "('s \<Rightarrow> 'a stailq \<Rightarrow> nat \<Rightarrow> ('s \<times> 'a stailq \<times> bool) res) \<Rightarrow> 's \<Rightarrow> 'a stailq \<Rightarrow> nat \<Rightarrow>
     ('s \<times> 'a stailq) res option" where
  "SIMPLEQ_FOREACH body s q h = q_foreach SIMPLEQ_NEXT body s q (stqh_first (st_heads q h))"

lemma simpleq_is_stailq:
  "SIMPLEQ_INIT = STAILQ_INIT" "SIMPLEQ_FIRST = STAILQ_FIRST" "SIMPLEQ_EMPTY = STAILQ_EMPTY"
  "SIMPLEQ_NEXT = STAILQ_NEXT" "SIMPLEQ_INSERT_HEAD = STAILQ_INSERT_HEAD"
  "SIMPLEQ_INSERT_TAIL = STAILQ_INSERT_TAIL" "SIMPLEQ_INSERT_AFTER = STAILQ_INSERT_AFTER"
  "SIMPLEQ_REMOVE_HEAD = STAILQ_REMOVE_HEAD"
  unfolding SIMPLEQ_INIT_def STAILQ_INIT_def SIMPLEQ_FIRST_def STAILQ_FIRST_def SIMPLEQ_EMPTY_def STAILQ_EMPTY_def
    SIMPLEQ_NEXT_def STAILQ_NEXT_def SIMPLEQ_INSERT_HEAD_def STAILQ_INSERT_HEAD_def SIMPLEQ_INSERT_TAIL_def
    STAILQ_INSERT_TAIL_def SIMPLEQ_INSERT_AFTER_def STAILQ_INSERT_AFTER_def SIMPLEQ_REMOVE_HEAD_def STAILQ_REMOVE_HEAD_def
  by (rule refl)+

lemma simpleq_loops_are_stailq: "SIMPLEQ_REMOVE = STAILQ_REMOVE" "SIMPLEQ_FOREACH = STAILQ_FOREACH"
  by (simp_all add: fun_eq_iff SIMPLEQ_REMOVE_def STAILQ_REMOVE_def SIMPLEQ_FOREACH_def STAILQ_FOREACH_def
      simpleq_is_stailq)

interpretation simpleq: tail_list "stailq_rep h" st_data "SIMPLEQ_INIT h" "\<lambda>q. SIMPLEQ_INSERT_HEAD q h"
    "\<lambda>q. SIMPLEQ_INSERT_AFTER q h" "\<lambda>q. SIMPLEQ_REMOVE q h" "\<lambda>q. SIMPLEQ_INSERT_TAIL q h" for h
  unfolding simpleq_is_stailq simpleq_loops_are_stailq by (rule stailq.tail_list_axioms)

end
