(* ===== verification/Linked_Queues.thy ===== *)
theory Linked_Queues
  imports Queue_Chains
begin

text \<open>
  The doubly-linked lists and the tail queues of \<open>sys/queue.h\<close>: the back pointer of an element is the
  slot that points to it, so that it can be removed without a search. Heads and elements are as in
  \<open>Tail_Queues\<close>.
\<close>

subsection \<open>Lists\<close>

record 'a lnode =
  ldata :: 'a
  le_next :: "nat option"
  le_prev :: qslot

record 'a llist =
  lh_first :: "nat \<Rightarrow> nat option"
  l_nodes :: "nat \<rightharpoonup> 'a lnode"

definition l_cell :: "'a llist \<Rightarrow> cells" where
  "l_cell q s = (case s of QHead h \<Rightarrow> Some (lh_first q h) | QNext a \<Rightarrow> map_option le_next (l_nodes q a))"

definition l_prev :: "'a llist \<Rightarrow> nat \<Rightarrow> qslot option" where
  "l_prev q a = map_option le_prev (l_nodes q a)"

text \<open>Reading and writing a \<open>next\<close> field through its address, and a back pointer of an element.\<close>

definition l_load :: "'a llist \<Rightarrow> qslot \<Rightarrow> nat option res" where
  "l_load q s = (case l_cell q s of None \<Rightarrow> Inl UseAfterFree | Some p \<Rightarrow> Inr p)"

definition l_put :: "'a llist \<Rightarrow> qslot \<Rightarrow> nat option \<Rightarrow> 'a llist" where
  "l_put q s p =
     (case s of
        QHead h \<Rightarrow> q\<lparr>lh_first := (lh_first q)(h := p)\<rparr>
      | QNext a \<Rightarrow> q\<lparr>l_nodes := (l_nodes q)(a := map_option (\<lambda>n. n\<lparr>le_next := p\<rparr>) (l_nodes q a))\<rparr>)"

definition l_store :: "'a llist \<Rightarrow> qslot \<Rightarrow> nat option \<Rightarrow> 'a llist res" where
  "l_store q s p = (if l_cell q s = None then Inl UseAfterFree else Inr (l_put q s p))"

definition l_load_prev :: "'a llist \<Rightarrow> nat \<Rightarrow> qslot res" where
  "l_load_prev q a = (case l_prev q a of None \<Rightarrow> Inl UseAfterFree | Some s \<Rightarrow> Inr s)"

definition l_put_prev :: "'a llist \<Rightarrow> nat \<Rightarrow> qslot \<Rightarrow> 'a llist" where
  "l_put_prev q a s = q\<lparr>l_nodes := (l_nodes q)(a := map_option (\<lambda>n. n\<lparr>le_prev := s\<rparr>) (l_nodes q a))\<rparr>"

definition l_store_prev :: "'a llist \<Rightarrow> nat \<Rightarrow> qslot \<Rightarrow> 'a llist res" where
  "l_store_prev q a s = (if l_prev q a = None then Inl UseAfterFree else Inr (l_put_prev q a s))"

definition LIST_INIT :: "nat \<Rightarrow> 'a llist \<Rightarrow> 'a llist" where
  "LIST_INIT h q = q\<lparr>lh_first := (lh_first q)(h := None)\<rparr>"

definition LIST_EMPTY :: "'a llist \<Rightarrow> nat \<Rightarrow> bool" where
  "LIST_EMPTY q h \<longleftrightarrow> lh_first q h = None"

definition LIST_FIRST :: "'a llist \<Rightarrow> nat \<Rightarrow> nat option" where
  "LIST_FIRST q h = lh_first q h"

definition LIST_NEXT :: "'a llist \<Rightarrow> nat \<Rightarrow> nat option res" where
  "LIST_NEXT q elm = l_load q (QNext elm)"

definition LIST_INSERT_AFTER :: "'a llist \<Rightarrow> nat \<Rightarrow> nat \<Rightarrow> 'a llist res" where
  "LIST_INSERT_AFTER q listelm elm =
     res_bind (l_load q (QNext listelm)) (\<lambda>nxt.
     res_bind (l_store q (QNext elm) nxt) (\<lambda>q.
     res_bind (case nxt of None \<Rightarrow> Inr q | Some a \<Rightarrow> l_store_prev q a (QNext elm)) (\<lambda>q.
     res_bind (l_store q (QNext listelm) (Some elm)) (\<lambda>q.
     l_store_prev q elm (QNext listelm)))))"

definition LIST_INSERT_BEFORE :: "'a llist \<Rightarrow> nat \<Rightarrow> nat \<Rightarrow> 'a llist res" where
  "LIST_INSERT_BEFORE q listelm elm =
     res_bind (l_load_prev q listelm) (\<lambda>prev.
     res_bind (l_store_prev q elm prev) (\<lambda>q.
     res_bind (l_store q (QNext elm) (Some listelm)) (\<lambda>q.
     res_bind (l_store q prev (Some elm)) (\<lambda>q.
     l_store_prev q listelm (QNext elm)))))"

definition LIST_INSERT_HEAD :: "'a llist \<Rightarrow> nat \<Rightarrow> nat \<Rightarrow> 'a llist res" where
  "LIST_INSERT_HEAD q h elm =
     (let first = lh_first q h in
      res_bind (l_store q (QNext elm) first) (\<lambda>q.
      res_bind (case first of None \<Rightarrow> Inr q | Some a \<Rightarrow> l_store_prev q a (QNext elm)) (\<lambda>q.
      res_bind (l_store q (QHead h) (Some elm)) (\<lambda>q.
      l_store_prev q elm (QHead h)))))"

definition LIST_REMOVE :: "'a llist \<Rightarrow> nat \<Rightarrow> 'a llist res" where
  "LIST_REMOVE q elm =
     res_bind (l_load q (QNext elm)) (\<lambda>nxt.
     res_bind (l_load_prev q elm) (\<lambda>prev.
     res_bind (case nxt of None \<Rightarrow> Inr q | Some a \<Rightarrow> l_store_prev q a prev) (\<lambda>q.
     l_store q prev nxt)))"

definition LIST_FOREACH ::
    "('s \<Rightarrow> 'a llist \<Rightarrow> nat \<Rightarrow> ('s \<times> 'a llist \<times> bool) res) \<Rightarrow> 's \<Rightarrow> 'a llist \<Rightarrow> nat \<Rightarrow> ('s \<times> 'a llist) res option" where
  "LIST_FOREACH body s q h = q_foreach LIST_NEXT body s q (lh_first q h)"

definition l_data :: "'a llist \<Rightarrow> nat \<Rightarrow> 'a option" where
  "l_data q a = map_option ldata (l_nodes q a)"

definition list_rep :: "nat \<Rightarrow> 'a llist \<Rightarrow> nat list \<Rightarrow> bool" where
  "list_rep h q xs \<longleftrightarrow> distinct xs \<and> chain (l_cell q) (QHead h) xs \<and> backs (l_prev q) (QHead h) xs"

text \<open>What the writes do to the fields.\<close>

lemma l_put_simps [simp]:
  "l_cell (l_put q s p) = (if l_cell q s = None then l_cell q else (l_cell q)(s := Some p))"
  "l_prev (l_put q s p) = l_prev q" "l_data (l_put q s p) = l_data q"
  by (auto simp: l_put_def l_cell_def l_prev_def l_data_def fun_eq_iff option.map_comp comp_def split: qslot.split)

lemma l_put_prev_simps [simp]:
  "l_cell (l_put_prev q a s) = l_cell q" "l_data (l_put_prev q a s) = l_data q"
  "l_prev (l_put_prev q a s) = (if l_prev q a = None then l_prev q else (l_prev q)(a := Some s))"
  by (auto simp: l_put_prev_def l_cell_def l_prev_def l_data_def fun_eq_iff option.map_comp comp_def split: qslot.split)

lemma LIST_INIT_simps [simp]:
  "l_cell (LIST_INIT h q) = (l_cell q)(QHead h := Some None)" "l_data (LIST_INIT h q) = l_data q"
  by (auto simp: LIST_INIT_def l_cell_def l_data_def fun_eq_iff split: qslot.split)

lemma l_liveE:
  assumes "l_data q a \<noteq> None"
  obtains p s where "l_cell q (QNext a) = Some p" "l_prev q a = Some s"
  using assms by (auto simp: l_data_def l_cell_def l_prev_def)

lemmas list_code = l_load_def l_load_prev_def l_store_def l_store_prev_def

lemma list_insert_at:
  assumes "list_rep h q (us @ vs)" "e \<notin> set (us @ vs)"
    "l_cell q' = (l_cell q)(QNext e := l_cell q (end_slot (QHead h) us), end_slot (QHead h) us := Some (Some e))"
    "l_prev q' = (case vs of [] \<Rightarrow> l_prev q | v # _ \<Rightarrow> (l_prev q)(v := Some (QNext e)))
       (e := Some (end_slot (QHead h) us))"
  shows "list_rep h q' (us @ e # vs)"
  using assms chain_insert[OF _ _ assms(2) _ assms(3)] backs_insert[OF _ _ assms(2,4)]
  by (auto simp: list_rep_def)

lemma list_remove_at:
  assumes "list_rep h q (us @ e # vs)"
    "l_cell q' = (l_cell q)(end_slot (QHead h) us := l_cell q (QNext e))"
    "l_prev q' = (case vs of [] \<Rightarrow> l_prev q | v # _ \<Rightarrow> (l_prev q)(v := Some (end_slot (QHead h) us)))"
  shows "list_rep h q' (us @ vs)"
  using assms chain_remove[OF _ _ _ assms(2)] backs_remove[OF _ _ assms(3)] by (auto simp: list_rep_def)

lemma list_elem:
  assumes "list_rep h q (us @ x # vs)"
  shows "l_cell q (QNext x) = Some (case vs of [] \<Rightarrow> None | v # _ \<Rightarrow> Some v)"
    "l_cell q (end_slot (QHead h) us) = Some (Some x)" "l_prev q x = Some (end_slot (QHead h) us)"
  using assms chain_at[of "l_cell q" "QHead h" us x vs] chain_slot[of "l_cell q" "QHead h" us "x # vs"] backs_at
  by (auto simp: list_rep_def)

lemma list_insert_after_law:
  assumes "list_rep h q (us @ x # vs)" "l_data q e \<noteq> None" "e \<notin> set (us @ x # vs)"
  shows "\<exists>q'. LIST_INSERT_AFTER q x e = Inr q' \<and> list_rep h q' (us @ x # e # vs) \<and> l_data q' = l_data q"
proof -
  obtain p s where e: "l_cell q (QNext e) = Some p" "l_prev q e = Some s" by (rule l_liveE[OF assms(2)])
  note x = list_elem[OF assms(1)]
  have v: "vs = v # ws \<Longrightarrow> l_prev q v = Some (QNext x)" for v ws
    using list_elem(3)[of h q "us @ [x]" v ws] assms(1) by simp
  obtain q' where q': "LIST_INSERT_AFTER q x e = Inr q'"
    "l_cell q' = (l_cell q)(QNext e := l_cell q (QNext x), QNext x := Some (Some e))" "l_data q' = l_data q"
    "l_prev q' = (case vs of [] \<Rightarrow> l_prev q | v # _ \<Rightarrow> (l_prev q)(v := Some (QNext e)))(e := Some (QNext x))"
    using e x(1) v assms(3) by (cases vs) (auto simp: LIST_INSERT_AFTER_def list_code)
  have "list_rep h q' ((us @ [x]) @ e # vs)" by (rule list_insert_at) (use assms q' in auto)
  then show ?thesis using q' by simp
qed

lemma list_insert_before_law:
  assumes "list_rep h q (us @ x # vs)" "l_data q e \<noteq> None" "e \<notin> set (us @ x # vs)"
  shows "\<exists>q'. LIST_INSERT_BEFORE q x e = Inr q' \<and> list_rep h q' (us @ e # x # vs) \<and> l_data q' = l_data q"
proof -
  obtain p s where e: "l_cell q (QNext e) = Some p" "l_prev q e = Some s" by (rule l_liveE[OF assms(2)])
  note x = list_elem[OF assms(1)]
  have "end_slot (QHead h) us \<noteq> QNext e" using assms(3) by (auto simp: end_slot_cases)
  then obtain q' where q': "LIST_INSERT_BEFORE q x e = Inr q'"
    "l_cell q' = (l_cell q)(QNext e := l_cell q (end_slot (QHead h) us), end_slot (QHead h) us := Some (Some e))"
    "l_prev q' = (l_prev q)(x := Some (QNext e), e := Some (end_slot (QHead h) us))" "l_data q' = l_data q"
    using e x assms(3) by (auto simp: LIST_INSERT_BEFORE_def list_code fun_upd_twist)
  have "list_rep h q' (us @ e # x # vs)" by (rule list_insert_at[OF assms(1,3) q'(2)]) (simp add: q'(3))
  then show ?thesis using q' by simp
qed

lemma list_insert_head_law:
  assumes "list_rep h q xs" "l_data q e \<noteq> None" "e \<notin> set xs"
  shows "\<exists>q'. LIST_INSERT_HEAD q h e = Inr q' \<and> list_rep h q' (e # xs) \<and> l_data q' = l_data q"
proof -
  obtain p s where e: "l_cell q (QNext e) = Some p" "l_prev q e = Some s" by (rule l_liveE[OF assms(2)])
  have f: "l_cell q (QHead h) = Some (lh_first q h)" by (simp add: l_cell_def)
  have x: "lh_first q h = (case xs of [] \<Rightarrow> None | v # _ \<Rightarrow> Some v)"
    using assms(1) f by (cases xs) (auto simp: list_rep_def)
  have v: "xs = v # ws \<Longrightarrow> l_prev q v = Some (QHead h)" for v ws using assms(1) by (simp add: list_rep_def)
  obtain q' where q': "LIST_INSERT_HEAD q h e = Inr q'"
    "l_cell q' = (l_cell q)(QNext e := l_cell q (QHead h), QHead h := Some (Some e))" "l_data q' = l_data q"
    "l_prev q' = (case xs of [] \<Rightarrow> l_prev q | v # _ \<Rightarrow> (l_prev q)(v := Some (QNext e)))(e := Some (QHead h))"
    using e f x v assms(3) by (cases xs) (auto simp: LIST_INSERT_HEAD_def Let_def list_code)
  have "list_rep h q' ([] @ e # xs)" by (rule list_insert_at) (use assms q' in auto)
  then show ?thesis using q' by simp
qed

lemma list_remove_law:
  assumes "list_rep h q (us @ e # vs)"
  shows "\<exists>q'. LIST_REMOVE q e = Inr q' \<and> list_rep h q' (us @ vs) \<and> l_data q' = l_data q"
proof -
  note e = list_elem[OF assms]
  have v: "vs = v # ws \<Longrightarrow> l_prev q v = Some (QNext e)" for v ws
    using list_elem(3)[of h q "us @ [e]" v ws] assms by simp
  obtain q' where q': "LIST_REMOVE q e = Inr q'"
    "l_cell q' = (l_cell q)(end_slot (QHead h) us := l_cell q (QNext e))" "l_data q' = l_data q"
    "l_prev q' = (case vs of [] \<Rightarrow> l_prev q | v # _ \<Rightarrow> (l_prev q)(v := Some (end_slot (QHead h) us)))"
    using e v by (cases vs) (auto simp: LIST_REMOVE_def list_code)
  then show ?thesis using list_remove_at[OF assms q'(2,4)] by simp
qed

lemma list_foreach: "list_rep h q xs \<Longrightarrow> LIST_FOREACH collect [] q h = Some (Inr (xs, q))"
  using foreach_collects[of LIST_NEXT q _ xs "[]"] chain_visits[of LIST_NEXT q "l_cell q" "QHead h" xs]
  by (simp add: LIST_FOREACH_def LIST_NEXT_def l_load_def list_rep_def l_cell_def[of q "QHead h"])

interpretation list: two_way_list "list_rep h" l_data "LIST_INIT h" "\<lambda>q. LIST_INSERT_HEAD q h"
    LIST_INSERT_AFTER "\<lambda>q e. Some (LIST_REMOVE q e)" LIST_INSERT_BEFORE for h
  by unfold_locales
    (simp_all add: list_insert_head_law list_insert_after_law list_insert_before_law list_remove_law,
     simp_all add: list_rep_def)

subsection \<open>Tail queues\<close>

record 'a tqnode =
  tqdata :: 'a
  tqe_next :: "nat option"
  tqe_prev :: qslot

record tqhead =
  tqh_first :: "nat option"
  tqh_last :: qslot

record 'a tailq =
  tq_heads :: "nat \<Rightarrow> tqhead"
  tq_nodes :: "nat \<rightharpoonup> 'a tqnode"

definition tq_cell :: "'a tailq \<Rightarrow> cells" where
  "tq_cell q s =
     (case s of QHead h \<Rightarrow> Some (tqh_first (tq_heads q h)) | QNext a \<Rightarrow> map_option tqe_next (tq_nodes q a))"

definition tq_prev :: "'a tailq \<Rightarrow> nat \<Rightarrow> qslot option" where
  "tq_prev q a = map_option tqe_prev (tq_nodes q a)"

definition tq_last :: "'a tailq \<Rightarrow> nat \<Rightarrow> qslot" where
  "tq_last q h = tqh_last (tq_heads q h)"

definition tq_load :: "'a tailq \<Rightarrow> qslot \<Rightarrow> nat option res" where
  "tq_load q s = (case tq_cell q s of None \<Rightarrow> Inl UseAfterFree | Some p \<Rightarrow> Inr p)"

definition tq_put :: "'a tailq \<Rightarrow> qslot \<Rightarrow> nat option \<Rightarrow> 'a tailq" where
  "tq_put q s p =
     (case s of
        QHead h \<Rightarrow> q\<lparr>tq_heads := (tq_heads q)(h := (tq_heads q h)\<lparr>tqh_first := p\<rparr>)\<rparr>
      | QNext a \<Rightarrow> q\<lparr>tq_nodes := (tq_nodes q)(a := map_option (\<lambda>n. n\<lparr>tqe_next := p\<rparr>) (tq_nodes q a))\<rparr>)"

definition tq_store :: "'a tailq \<Rightarrow> qslot \<Rightarrow> nat option \<Rightarrow> 'a tailq res" where
  "tq_store q s p = (if tq_cell q s = None then Inl UseAfterFree else Inr (tq_put q s p))"

definition tq_load_prev :: "'a tailq \<Rightarrow> nat \<Rightarrow> qslot res" where
  "tq_load_prev q a = (case tq_prev q a of None \<Rightarrow> Inl UseAfterFree | Some s \<Rightarrow> Inr s)"

definition tq_put_prev :: "'a tailq \<Rightarrow> nat \<Rightarrow> qslot \<Rightarrow> 'a tailq" where
  "tq_put_prev q a s = q\<lparr>tq_nodes := (tq_nodes q)(a := map_option (\<lambda>n. n\<lparr>tqe_prev := s\<rparr>) (tq_nodes q a))\<rparr>"

definition tq_store_prev :: "'a tailq \<Rightarrow> nat \<Rightarrow> qslot \<Rightarrow> 'a tailq res" where
  "tq_store_prev q a s = (if tq_prev q a = None then Inl UseAfterFree else Inr (tq_put_prev q a s))"

definition tq_put_last :: "'a tailq \<Rightarrow> nat \<Rightarrow> qslot \<Rightarrow> 'a tailq" where
  "tq_put_last q h s = q\<lparr>tq_heads := (tq_heads q)(h := (tq_heads q h)\<lparr>tqh_last := s\<rparr>)\<rparr>"

definition TAILQ_INIT :: "nat \<Rightarrow> 'a tailq \<Rightarrow> 'a tailq" where
  "TAILQ_INIT h q = q\<lparr>tq_heads := (tq_heads q)(h := \<lparr>tqh_first = None, tqh_last = QHead h\<rparr>)\<rparr>"

definition TAILQ_EMPTY :: "'a tailq \<Rightarrow> nat \<Rightarrow> bool" where
  "TAILQ_EMPTY q h \<longleftrightarrow> tqh_first (tq_heads q h) = None"

definition TAILQ_FIRST :: "'a tailq \<Rightarrow> nat \<Rightarrow> nat option" where
  "TAILQ_FIRST q h = tqh_first (tq_heads q h)"

definition TAILQ_NEXT :: "'a tailq \<Rightarrow> nat \<Rightarrow> nat option res" where
  "TAILQ_NEXT q elm = tq_load q (QNext elm)"

definition TAILQ_INSERT_HEAD :: "'a tailq \<Rightarrow> nat \<Rightarrow> nat \<Rightarrow> 'a tailq res" where
  "TAILQ_INSERT_HEAD q h elm =
     (let first = tqh_first (tq_heads q h) in
      res_bind (tq_store q (QNext elm) first) (\<lambda>q.
      res_bind (case first of None \<Rightarrow> Inr (tq_put_last q h (QNext elm)) | Some a \<Rightarrow> tq_store_prev q a (QNext elm)) (\<lambda>q.
      res_bind (tq_store q (QHead h) (Some elm)) (\<lambda>q.
      tq_store_prev q elm (QHead h)))))"

definition TAILQ_INSERT_TAIL :: "'a tailq \<Rightarrow> nat \<Rightarrow> nat \<Rightarrow> 'a tailq res" where
  "TAILQ_INSERT_TAIL q h elm =
     res_bind (tq_store q (QNext elm) None) (\<lambda>q.
     res_bind (tq_store_prev q elm (tq_last q h)) (\<lambda>q.
     res_bind (tq_store q (tq_last q h) (Some elm)) (\<lambda>q.
     Inr (tq_put_last q h (QNext elm)))))"

definition TAILQ_INSERT_AFTER :: "'a tailq \<Rightarrow> nat \<Rightarrow> nat \<Rightarrow> nat \<Rightarrow> 'a tailq res" where
  "TAILQ_INSERT_AFTER q h listelm elm =
     res_bind (tq_load q (QNext listelm)) (\<lambda>nxt.
     res_bind (tq_store q (QNext elm) nxt) (\<lambda>q.
     res_bind (case nxt of None \<Rightarrow> Inr (tq_put_last q h (QNext elm)) | Some a \<Rightarrow> tq_store_prev q a (QNext elm)) (\<lambda>q.
     res_bind (tq_store q (QNext listelm) (Some elm)) (\<lambda>q.
     tq_store_prev q elm (QNext listelm)))))"

definition TAILQ_INSERT_BEFORE :: "'a tailq \<Rightarrow> nat \<Rightarrow> nat \<Rightarrow> 'a tailq res" where
  "TAILQ_INSERT_BEFORE q listelm elm =
     res_bind (tq_load_prev q listelm) (\<lambda>prev.
     res_bind (tq_store_prev q elm prev) (\<lambda>q.
     res_bind (tq_store q (QNext elm) (Some listelm)) (\<lambda>q.
     res_bind (tq_store q prev (Some elm)) (\<lambda>q.
     tq_store_prev q listelm (QNext elm)))))"

definition TAILQ_REMOVE :: "'a tailq \<Rightarrow> nat \<Rightarrow> nat \<Rightarrow> 'a tailq res" where
  "TAILQ_REMOVE q h elm =
     res_bind (tq_load q (QNext elm)) (\<lambda>nxt.
     res_bind (tq_load_prev q elm) (\<lambda>prev.
     res_bind (case nxt of None \<Rightarrow> Inr (tq_put_last q h prev) | Some a \<Rightarrow> tq_store_prev q a prev) (\<lambda>q.
     tq_store q prev nxt)))"

text \<open>
  The last element and predecessors: a slot is read as if it were a head. The field behind the
  \<open>next\<close> field is \<open>tqh_last\<close> in a head and \<open>tqe_prev\<close> in an element, and the slot found there holds the
  element that is looked for.
\<close>

definition tq_behind :: "'a tailq \<Rightarrow> qslot \<Rightarrow> qslot res" where
  "tq_behind q s = (case s of QHead h \<Rightarrow> Inr (tq_last q h) | QNext a \<Rightarrow> tq_load_prev q a)"

definition TAILQ_LAST :: "'a tailq \<Rightarrow> nat \<Rightarrow> nat option res" where
  "TAILQ_LAST q h = res_bind (tq_behind q (tq_last q h)) (tq_load q)"

definition TAILQ_PREV :: "'a tailq \<Rightarrow> nat \<Rightarrow> nat option res" where
  "TAILQ_PREV q elm =
     res_bind (tq_load_prev q elm) (\<lambda>prev. res_bind (tq_behind q prev) (tq_load q))"

definition TAILQ_FOREACH ::
    "('s \<Rightarrow> 'a tailq \<Rightarrow> nat \<Rightarrow> ('s \<times> 'a tailq \<times> bool) res) \<Rightarrow> 's \<Rightarrow> 'a tailq \<Rightarrow> nat \<Rightarrow> ('s \<times> 'a tailq) res option" where
  "TAILQ_FOREACH body s q h = q_foreach TAILQ_NEXT body s q (tqh_first (tq_heads q h))"

definition TAILQ_FOREACH_REVERSE ::
    "('s \<Rightarrow> 'a tailq \<Rightarrow> nat \<Rightarrow> ('s \<times> 'a tailq \<times> bool) res) \<Rightarrow> 's \<Rightarrow> 'a tailq \<Rightarrow> nat \<Rightarrow> ('s \<times> 'a tailq) res option" where
  "TAILQ_FOREACH_REVERSE body s q h =
     (case TAILQ_LAST q h of
        Inl e \<Rightarrow> Some (Inl e)
      | Inr var \<Rightarrow> q_foreach TAILQ_PREV body s q var)"

definition TAILQ_CONCAT :: "'a tailq \<Rightarrow> nat \<Rightarrow> nat \<Rightarrow> 'a tailq res" where
  "TAILQ_CONCAT q head1 head2 =
     (case tqh_first (tq_heads q head2) of
        None \<Rightarrow> Inr q
      | Some a \<Rightarrow>
          res_bind (tq_store q (tq_last q head1) (Some a)) (\<lambda>q.
          res_bind (tq_store_prev q a (tq_last q head1)) (\<lambda>q.
          Inr (TAILQ_INIT head2 (tq_put_last q head1 (tq_last q head2))))))"

end
