(* ===== verification/Linked_Queue_Laws.thy ===== *)
theory Linked_Queue_Laws
  imports Linked_Queues
begin

text \<open>
  The tail queues of \<open>Linked_Queues\<close> keep the contracts of a list: insertion and removal follow the
  represented sequence, and both directions of traversal visit it.
\<close>

subsection \<open>The represented sequence\<close>

definition tq_data :: "'a tailq \<Rightarrow> nat \<Rightarrow> 'a option" where
  "tq_data q a = map_option tqdata (tq_nodes q a)"

definition tailq_rep :: "nat \<Rightarrow> 'a tailq \<Rightarrow> nat list \<Rightarrow> bool" where
  "tailq_rep h q xs \<longleftrightarrow> distinct xs \<and> chain (tq_cell q) (QHead h) xs \<and> backs (tq_prev q) (QHead h) xs \<and>
     tq_last q h = end_slot (QHead h) xs"

lemma tq_put_simps [simp]:
  "tq_cell (tq_put q s p) = (if tq_cell q s = None then tq_cell q else (tq_cell q)(s := Some p))"
  "tq_prev (tq_put q s p) = tq_prev q" "tq_data (tq_put q s p) = tq_data q" "tq_last (tq_put q s p) = tq_last q"
  by (auto simp: tq_put_def tq_cell_def tq_prev_def tq_data_def tq_last_def fun_eq_iff option.map_comp comp_def
      split: qslot.split)

lemma tq_put_prev_simps [simp]:
  "tq_cell (tq_put_prev q a s) = tq_cell q" "tq_data (tq_put_prev q a s) = tq_data q"
  "tq_last (tq_put_prev q a s) = tq_last q"
  "tq_prev (tq_put_prev q a s) = (if tq_prev q a = None then tq_prev q else (tq_prev q)(a := Some s))"
  by (auto simp: tq_put_prev_def tq_cell_def tq_prev_def tq_data_def tq_last_def fun_eq_iff option.map_comp comp_def
      split: qslot.split)

lemma tq_put_last_simps [simp]:
  "tq_cell (tq_put_last q h s) = tq_cell q" "tq_data (tq_put_last q h s) = tq_data q"
  "tq_prev (tq_put_last q h s) = tq_prev q" "tq_last (tq_put_last q h s) = (tq_last q)(h := s)"
  by (auto simp: tq_put_last_def tq_cell_def tq_prev_def tq_data_def tq_last_def fun_eq_iff split: qslot.split)

lemma TAILQ_INIT_simps [simp]:
  "tq_cell (TAILQ_INIT h q) = (tq_cell q)(QHead h := Some None)" "tq_data (TAILQ_INIT h q) = tq_data q"
  "tq_prev (TAILQ_INIT h q) = tq_prev q" "tq_last (TAILQ_INIT h q) = (tq_last q)(h := QHead h)"
  by (auto simp: TAILQ_INIT_def tq_cell_def tq_prev_def tq_data_def tq_last_def fun_eq_iff split: qslot.split)

lemma tq_liveE:
  assumes "tq_data q a \<noteq> None"
  obtains p s where "tq_cell q (QNext a) = Some p" "tq_prev q a = Some s"
  using assms by (auto simp: tq_data_def tq_cell_def tq_prev_def)

lemma tq_first_cell: "tq_cell q (QHead h) = Some (tqh_first (tq_heads q h))"
  by (simp add: tq_cell_def)

lemmas tailq_code = tq_load_def tq_load_prev_def tq_store_def tq_store_prev_def

subsection \<open>Insertion and removal\<close>

lemma tailq_insert_at:
  assumes "tailq_rep h q (us @ vs)" "e \<notin> set (us @ vs)"
    "tq_cell q' = (tq_cell q)(QNext e := tq_cell q (end_slot (QHead h) us), end_slot (QHead h) us := Some (Some e))"
    "tq_prev q' = (case vs of [] \<Rightarrow> tq_prev q | v # _ \<Rightarrow> (tq_prev q)(v := Some (QNext e)))
       (e := Some (end_slot (QHead h) us))"
    "tq_last q' h = (if vs = [] then QNext e else tq_last q h)"
  shows "tailq_rep h q' (us @ e # vs)"
  using assms chain_insert[OF _ _ assms(2) _ assms(3)] backs_insert[OF _ _ assms(2,4)]
  by (cases vs) (auto simp: tailq_rep_def end_slot_append)

lemma tailq_remove_at:
  assumes "tailq_rep h q (us @ e # vs)"
    "tq_cell q' = (tq_cell q)(end_slot (QHead h) us := tq_cell q (QNext e))"
    "tq_prev q' = (case vs of [] \<Rightarrow> tq_prev q | v # _ \<Rightarrow> (tq_prev q)(v := Some (end_slot (QHead h) us)))"
    "tq_last q' h = (if vs = [] then end_slot (QHead h) us else tq_last q h)"
  shows "tailq_rep h q' (us @ vs)"
  using assms chain_remove[of _ "QHead h" us e vs, OF _ _ _ assms(2)] backs_remove[of _ "QHead h" us e vs, OF _ _ assms(3)]
  by (cases vs) (auto simp: tailq_rep_def end_slot_append)

lemma tailq_elem:
  assumes "tailq_rep h q (us @ x # vs)"
  shows "tq_cell q (QNext x) = Some (case vs of [] \<Rightarrow> None | v # _ \<Rightarrow> Some v)"
    "tq_cell q (end_slot (QHead h) us) = Some (Some x)" "tq_prev q x = Some (end_slot (QHead h) us)"
  using assms chain_at[of "tq_cell q" "QHead h" us x vs] chain_slot[of "tq_cell q" "QHead h" us "x # vs"] backs_at
  by (auto simp: tailq_rep_def)

lemma tailq_succ: "tailq_rep h q (us @ x # v # ws) \<Longrightarrow> tq_prev q v = Some (QNext x)"
  using tailq_elem(3)[of h q "us @ [x]" v ws] by simp

lemma tailq_insert_after_law:
  assumes "tailq_rep h q (us @ x # vs)" "tq_data q e \<noteq> None" "e \<notin> set (us @ x # vs)"
  shows "\<exists>q'. TAILQ_INSERT_AFTER q h x e = Inr q' \<and> tailq_rep h q' (us @ x # e # vs) \<and> tq_data q' = tq_data q"
proof -
  obtain p s where e: "tq_cell q (QNext e) = Some p" "tq_prev q e = Some s" by (rule tq_liveE[OF assms(2)])
  note x = tailq_elem[OF assms(1)]
  have v: "vs = v # ws \<Longrightarrow> tq_prev q v = Some (QNext x)" for v ws using tailq_succ assms(1) by blast
  obtain q' where q': "TAILQ_INSERT_AFTER q h x e = Inr q'"
    "tq_cell q' = (tq_cell q)(QNext e := tq_cell q (QNext x), QNext x := Some (Some e))" "tq_data q' = tq_data q"
    "tq_prev q' = (case vs of [] \<Rightarrow> tq_prev q | v # _ \<Rightarrow> (tq_prev q)(v := Some (QNext e)))(e := Some (QNext x))"
    "tq_last q' h = (if vs = [] then QNext e else tq_last q h)"
    using e x(1) v assms(3) by (cases vs) (auto simp: TAILQ_INSERT_AFTER_def tailq_code)
  have "tailq_rep h q' ((us @ [x]) @ e # vs)" by (rule tailq_insert_at) (use assms q' in auto)
  then show ?thesis using q' by simp
qed

lemma tailq_insert_before_law:
  assumes "tailq_rep h q (us @ x # vs)" "tq_data q e \<noteq> None" "e \<notin> set (us @ x # vs)"
  shows "\<exists>q'. TAILQ_INSERT_BEFORE q x e = Inr q' \<and> tailq_rep h q' (us @ e # x # vs) \<and> tq_data q' = tq_data q"
proof -
  obtain p s where e: "tq_cell q (QNext e) = Some p" "tq_prev q e = Some s" by (rule tq_liveE[OF assms(2)])
  note x = tailq_elem[OF assms(1)]
  have "end_slot (QHead h) us \<noteq> QNext e" using assms(3) by (auto simp: end_slot_cases)
  then obtain q' where q': "TAILQ_INSERT_BEFORE q x e = Inr q'"
    "tq_cell q' = (tq_cell q)(QNext e := tq_cell q (end_slot (QHead h) us), end_slot (QHead h) us := Some (Some e))"
    "tq_prev q' = (tq_prev q)(x := Some (QNext e), e := Some (end_slot (QHead h) us))" "tq_data q' = tq_data q"
    "tq_last q' = tq_last q"
    using e x assms(3) by (auto simp: TAILQ_INSERT_BEFORE_def tailq_code fun_upd_twist)
  have "tailq_rep h q' (us @ e # x # vs)"
    by (rule tailq_insert_at[OF assms(1,3) q'(2)]) (simp_all add: q'(3,5))
  then show ?thesis using q' by simp
qed

lemma tailq_insert_head_law:
  assumes "tailq_rep h q xs" "tq_data q e \<noteq> None" "e \<notin> set xs"
  shows "\<exists>q'. TAILQ_INSERT_HEAD q h e = Inr q' \<and> tailq_rep h q' (e # xs) \<and> tq_data q' = tq_data q"
proof -
  obtain p s where e: "tq_cell q (QNext e) = Some p" "tq_prev q e = Some s" by (rule tq_liveE[OF assms(2)])
  have x: "tqh_first (tq_heads q h) = (case xs of [] \<Rightarrow> None | v # _ \<Rightarrow> Some v)"
    using assms(1) by (cases xs) (auto simp: tailq_rep_def tq_first_cell)
  have v: "xs = v # ws \<Longrightarrow> tq_prev q v = Some (QHead h)" for v ws using assms(1) by (simp add: tailq_rep_def)
  obtain q' where q': "TAILQ_INSERT_HEAD q h e = Inr q'"
    "tq_cell q' = (tq_cell q)(QNext e := tq_cell q (QHead h), QHead h := Some (Some e))" "tq_data q' = tq_data q"
    "tq_prev q' = (case xs of [] \<Rightarrow> tq_prev q | v # _ \<Rightarrow> (tq_prev q)(v := Some (QNext e)))(e := Some (QHead h))"
    "tq_last q' h = (if xs = [] then QNext e else tq_last q h)"
    using e x v assms(3) by (cases xs) (auto simp: TAILQ_INSERT_HEAD_def Let_def tailq_code tq_first_cell)
  have "tailq_rep h q' ([] @ e # xs)" by (rule tailq_insert_at) (use assms q' in auto)
  then show ?thesis using q' by simp
qed

lemma tailq_insert_tail_law:
  assumes "tailq_rep h q xs" "tq_data q e \<noteq> None" "e \<notin> set xs"
  shows "\<exists>q'. TAILQ_INSERT_TAIL q h e = Inr q' \<and> tailq_rep h q' (xs @ [e]) \<and> tq_data q' = tq_data q"
proof -
  obtain p s where e: "tq_cell q (QNext e) = Some p" "tq_prev q e = Some s" by (rule tq_liveE[OF assms(2)])
  let ?t = "end_slot (QHead h) xs"
  have t: "tq_last q h = ?t" "tq_cell q ?t = Some None" using assms(1) chain_end by (auto simp: tailq_rep_def)
  have "?t \<noteq> QNext e" using assms(3) by (auto simp: end_slot_cases)
  then obtain q' where q': "TAILQ_INSERT_TAIL q h e = Inr q'"
    "tq_cell q' = (tq_cell q)(QNext e := tq_cell q ?t, ?t := Some (Some e))" "tq_data q' = tq_data q"
    "tq_prev q' = (tq_prev q)(e := Some ?t)" "tq_last q' h = QNext e"
    using e t by (auto simp: TAILQ_INSERT_TAIL_def tailq_code)
  have "tailq_rep h q' (xs @ e # [])" by (rule tailq_insert_at) (use assms q' in auto)
  then show ?thesis using q' by simp
qed

lemma tailq_remove_law:
  assumes "tailq_rep h q (us @ e # vs)"
  shows "\<exists>q'. TAILQ_REMOVE q h e = Inr q' \<and> tailq_rep h q' (us @ vs) \<and> tq_data q' = tq_data q"
proof -
  note e = tailq_elem[OF assms]
  have v: "vs = v # ws \<Longrightarrow> tq_prev q v = Some (QNext e)" for v ws using tailq_succ assms by blast
  obtain q' where q': "TAILQ_REMOVE q h e = Inr q'"
    "tq_cell q' = (tq_cell q)(end_slot (QHead h) us := tq_cell q (QNext e))" "tq_data q' = tq_data q"
    "tq_prev q' = (case vs of [] \<Rightarrow> tq_prev q | v # _ \<Rightarrow> (tq_prev q)(v := Some (end_slot (QHead h) us)))"
    "tq_last q' h = (if vs = [] then end_slot (QHead h) us else tq_last q h)"
    using e v by (cases vs) (auto simp: TAILQ_REMOVE_def tailq_code)
  then show ?thesis using tailq_remove_at[OF assms q'(2,4,5)] by simp
qed

interpretation tailq: tail_list "tailq_rep h" tq_data "TAILQ_INIT h" "\<lambda>q. TAILQ_INSERT_HEAD q h"
    "\<lambda>q. TAILQ_INSERT_AFTER q h" "\<lambda>q e. Some (TAILQ_REMOVE q h e)" "\<lambda>q. TAILQ_INSERT_TAIL q h" for h
  by unfold_locales
    (simp_all add: tailq_insert_head_law tailq_insert_after_law tailq_insert_tail_law tailq_remove_law,
     simp_all add: tailq_rep_def)

interpretation tailq_two: two_way_list "tailq_rep h" tq_data "TAILQ_INIT h" "\<lambda>q. TAILQ_INSERT_HEAD q h"
    "\<lambda>q. TAILQ_INSERT_AFTER q h" "\<lambda>q e. Some (TAILQ_REMOVE q h e)" TAILQ_INSERT_BEFORE for h
  by unfold_locales (simp add: tailq_insert_before_law)

subsection \<open>Traversal\<close>

lemma tailq_slot_pred:
  assumes "tailq_rep h q (us @ vs)"
  shows "res_bind (tq_behind q (end_slot (QHead h) us)) (tq_load q) = Inr (if us = [] then None else Some (last us))"
proof (cases us rule: rev_cases)
  case Nil
  then show ?thesis
    using assms chain_end[of "tq_cell q" "QHead h" vs] by (simp add: tailq_rep_def tq_behind_def tq_load_def)
next
  case (snoc ws x)
  then show ?thesis using tailq_elem[of h q ws x vs] assms by (simp add: tq_behind_def tailq_code)
qed

lemma TAILQ_LAST_last: "tailq_rep h q xs \<Longrightarrow> TAILQ_LAST q h = Inr (if xs = [] then None else Some (last xs))"
  using tailq_slot_pred[of h q xs "[]"] by (simp add: TAILQ_LAST_def tailq_rep_def)

lemma TAILQ_PREV_pred:
  assumes "tailq_rep h q (us @ x # vs)"
  shows "TAILQ_PREV q x = Inr (if us = [] then None else Some (last us))"
  using tailq_slot_pred[OF assms] tailq_elem(3)[OF assms] by (simp add: TAILQ_PREV_def tq_load_prev_def)

lemma tailq_visits_back:
  "tailq_rep h q (us @ vs) \<Longrightarrow> visits TAILQ_PREV q (if us = [] then None else Some (last us)) (rev us)"
proof (induction us arbitrary: vs rule: rev_induct)
  case (snoc x us)
  then show ?case using TAILQ_PREV_pred[of h q us x vs] snoc.IH[of "x # vs"] by simp
qed simp

text \<open>
  A tail queue can be walked in both directions: the forward loop visits the represented sequence,
  the backward loop its reverse, although it finds predecessors by reading back pointers as if they
  were queue heads; both end.
\<close>

lemma tailq_both_ways:
  assumes "tailq_rep h q xs"
  shows "TAILQ_FOREACH collect [] q h = Some (Inr (xs, q)) \<and>
    TAILQ_FOREACH_REVERSE collect [] q h = Some (Inr (rev xs, q)) \<and>
    TAILQ_FIRST q h = (if xs = [] then None else Some (hd xs)) \<and>
    TAILQ_LAST q h = Inr (if xs = [] then None else Some (last xs))"
proof -
  have c: "chain (tq_cell q) (QHead h) xs" using assms by (simp add: tailq_rep_def)
  have f: "tqh_first (tq_heads q h) = the (tq_cell q (QHead h))" by (simp add: tq_first_cell)
  have "visits TAILQ_NEXT q (tqh_first (tq_heads q h)) xs"
    unfolding f by (rule chain_visits[OF _ c]) (simp add: TAILQ_NEXT_def tq_load_def)
  then have 1: "TAILQ_FOREACH collect [] q h = Some (Inr (xs, q))"
    using foreach_collects[of TAILQ_NEXT q _ xs "[]"] by (simp add: TAILQ_FOREACH_def)
  have "visits TAILQ_PREV q (if xs = [] then None else Some (last xs)) (rev xs)"
    using tailq_visits_back[of h q xs "[]"] assms by simp
  then have 2: "TAILQ_FOREACH_REVERSE collect [] q h = Some (Inr (rev xs, q))"
    using foreach_collects[of TAILQ_PREV q _ "rev xs" "[]"] TAILQ_LAST_last[OF assms]
    by (simp add: TAILQ_FOREACH_REVERSE_def)
  have "TAILQ_FIRST q h = (if xs = [] then None else Some (hd xs))"
    using c f by (cases xs) (auto simp: TAILQ_FIRST_def)
  with 1 2 TAILQ_LAST_last[OF assms] show ?thesis by simp
qed

text \<open>Concatenation moves the elements of the second queue behind those of the first.\<close>

lemma tailq_concat:
  assumes "tailq_rep h1 q xs" "tailq_rep h2 q ys" "h1 \<noteq> h2" "set xs \<inter> set ys = {}"
  shows "\<exists>q'. TAILQ_CONCAT q h1 h2 = Inr q' \<and> tailq_rep h1 q' (xs @ ys) \<and> tailq_rep h2 q' [] \<and>
    tq_data q' = tq_data q"
proof (cases ys)
  case Nil
  then show ?thesis using assms by (auto simp: TAILQ_CONCAT_def tailq_rep_def tq_first_cell)
next
  case (Cons y zs)
  let ?t = "end_slot (QHead h1) xs"
  have f: "tq_cell q (QHead h2) = Some (Some y)" "tqh_first (tq_heads q h2) = Some y" "tq_prev q y = Some (QHead h2)"
    using assms(2) Cons by (auto simp: tailq_rep_def tq_first_cell)
  have l: "tq_last q h1 = ?t" "tq_cell q ?t = Some None" using assms(1) chain_end by (auto simp: tailq_rep_def)
  define q1 where "q1 = tq_put_prev (tq_put q ?t (Some y)) y ?t"
  have q1: "tq_cell q1 = (tq_cell q)(?t := tq_cell q (QHead h2))" "tq_prev q1 = (tq_prev q)(y := Some ?t)"
    "tq_last q1 = tq_last q" "tq_data q1 = tq_data q"
    using f l by (simp_all add: q1_def)
  have "chain (tq_cell q1) (QHead h1) (xs @ y # zs)"
    by (rule chain_concat[OF _ _ _ _ q1(1)]) (use assms Cons in \<open>auto simp: tailq_rep_def\<close>)
  moreover have "backs (tq_prev q1) (QHead h1) (xs @ y # zs)"
    unfolding q1(2) using assms Cons by (auto simp: tailq_rep_def backs_append backs_upd_other)
  moreover have "TAILQ_CONCAT q h1 h2 = Inr (TAILQ_INIT h2 (tq_put_last q1 h1 (tq_last q1 h2)))"
    using f l by (simp add: TAILQ_CONCAT_def tailq_code q1_def)
  ultimately show ?thesis
    using assms Cons q1(3,4) by (auto simp: tailq_rep_def chain_upd_other end_slot_append)
qed

end
