(* ===== verification/Circle_Queues.thy ===== *)
theory Circle_Queues
  imports Queue_Chains
begin

text \<open>
  The circular queues of \<open>sys/queue.h\<close>: elements and head form a ring, and a pointer to the head marks
  the end of the queue in both directions.
\<close>

subsection \<open>The macros\<close>

datatype cqptr = CQHead | CQElem nat

record 'a cqnode =
  cqdata :: 'a
  cqe_next :: cqptr
  cqe_prev :: cqptr

record 'a circleq =
  cqh_first :: cqptr
  cqh_last :: cqptr
  cq_nodes :: "nat \<rightharpoonup> 'a cqnode"

text \<open>
  The two pointers of a place in the ring, which is the head or an element, and access to those of
  an element. Using the head as an element is a fault.
\<close>

definition cq_next :: "'a circleq \<Rightarrow> cqptr \<Rightarrow> cqptr option" where
  "cq_next q p = (case p of CQHead \<Rightarrow> Some (cqh_first q) | CQElem a \<Rightarrow> map_option cqe_next (cq_nodes q a))"

definition cq_prev :: "'a circleq \<Rightarrow> cqptr \<Rightarrow> cqptr option" where
  "cq_prev q p = (case p of CQHead \<Rightarrow> Some (cqh_last q) | CQElem a \<Rightarrow> map_option cqe_prev (cq_nodes q a))"

definition CIRCLEQ_NEXT :: "'a circleq \<Rightarrow> nat \<Rightarrow> cqptr res" where
  "CIRCLEQ_NEXT q elm = (case cq_next q (CQElem elm) of None \<Rightarrow> Inl UseAfterFree | Some p \<Rightarrow> Inr p)"

definition CIRCLEQ_PREV :: "'a circleq \<Rightarrow> nat \<Rightarrow> cqptr res" where
  "CIRCLEQ_PREV q elm = (case cq_prev q (CQElem elm) of None \<Rightarrow> Inl UseAfterFree | Some p \<Rightarrow> Inr p)"

definition cq_put_next :: "'a circleq \<Rightarrow> nat \<Rightarrow> cqptr \<Rightarrow> 'a circleq" where
  "cq_put_next q a p = q\<lparr>cq_nodes := (cq_nodes q)(a := map_option (\<lambda>n. n\<lparr>cqe_next := p\<rparr>) (cq_nodes q a))\<rparr>"

definition cq_put_prev :: "'a circleq \<Rightarrow> nat \<Rightarrow> cqptr \<Rightarrow> 'a circleq" where
  "cq_put_prev q a p = q\<lparr>cq_nodes := (cq_nodes q)(a := map_option (\<lambda>n. n\<lparr>cqe_prev := p\<rparr>) (cq_nodes q a))\<rparr>"

definition cq_store_next :: "'a circleq \<Rightarrow> nat \<Rightarrow> cqptr \<Rightarrow> 'a circleq res" where
  "cq_store_next q a p = (if cq_next q (CQElem a) = None then Inl UseAfterFree else Inr (cq_put_next q a p))"

definition cq_store_prev :: "'a circleq \<Rightarrow> nat \<Rightarrow> cqptr \<Rightarrow> 'a circleq res" where
  "cq_store_prev q a p = (if cq_prev q (CQElem a) = None then Inl UseAfterFree else Inr (cq_put_prev q a p))"

definition CIRCLEQ_INIT :: "'a circleq \<Rightarrow> 'a circleq" where
  "CIRCLEQ_INIT q = q\<lparr>cqh_first := CQHead, cqh_last := CQHead\<rparr>"

definition CIRCLEQ_INSERT_AFTER :: "'a circleq \<Rightarrow> nat \<Rightarrow> nat \<Rightarrow> 'a circleq res" where
  "CIRCLEQ_INSERT_AFTER q listelm elm =
     res_bind (CIRCLEQ_NEXT q listelm) (\<lambda>nxt.
     res_bind (cq_store_next q elm nxt) (\<lambda>q.
     res_bind (cq_store_prev q elm (CQElem listelm)) (\<lambda>q.
     res_bind (case nxt of
         CQHead \<Rightarrow> Inr (q\<lparr>cqh_last := CQElem elm\<rparr>)
       | CQElem a \<Rightarrow> cq_store_prev q a (CQElem elm)) (\<lambda>q.
     cq_store_next q listelm (CQElem elm)))))"

definition CIRCLEQ_INSERT_BEFORE :: "'a circleq \<Rightarrow> nat \<Rightarrow> nat \<Rightarrow> 'a circleq res" where
  "CIRCLEQ_INSERT_BEFORE q listelm elm =
     res_bind (cq_store_next q elm (CQElem listelm)) (\<lambda>q.
     res_bind (CIRCLEQ_PREV q listelm) (\<lambda>prev.
     res_bind (cq_store_prev q elm prev) (\<lambda>q.
     res_bind (case prev of
         CQHead \<Rightarrow> Inr (q\<lparr>cqh_first := CQElem elm\<rparr>)
       | CQElem a \<Rightarrow> cq_store_next q a (CQElem elm)) (\<lambda>q.
     cq_store_prev q listelm (CQElem elm)))))"

definition CIRCLEQ_INSERT_HEAD :: "'a circleq \<Rightarrow> nat \<Rightarrow> 'a circleq res" where
  "CIRCLEQ_INSERT_HEAD q elm =
     res_bind (cq_store_next q elm (cqh_first q)) (\<lambda>q.
     res_bind (cq_store_prev q elm CQHead) (\<lambda>q.
     res_bind
       (if cqh_last q = CQHead then Inr (q\<lparr>cqh_last := CQElem elm\<rparr>)
        else case cqh_first q of CQHead \<Rightarrow> Inl OutOfBounds | CQElem a \<Rightarrow> cq_store_prev q a (CQElem elm)) (\<lambda>q.
     Inr (q\<lparr>cqh_first := CQElem elm\<rparr>))))"

definition CIRCLEQ_INSERT_TAIL :: "'a circleq \<Rightarrow> nat \<Rightarrow> 'a circleq res" where
  "CIRCLEQ_INSERT_TAIL q elm =
     res_bind (cq_store_next q elm CQHead) (\<lambda>q.
     res_bind (cq_store_prev q elm (cqh_last q)) (\<lambda>q.
     res_bind
       (if cqh_first q = CQHead then Inr (q\<lparr>cqh_first := CQElem elm\<rparr>)
        else case cqh_last q of CQHead \<Rightarrow> Inl OutOfBounds | CQElem a \<Rightarrow> cq_store_next q a (CQElem elm)) (\<lambda>q.
     Inr (q\<lparr>cqh_last := CQElem elm\<rparr>))))"

definition CIRCLEQ_REMOVE :: "'a circleq \<Rightarrow> nat \<Rightarrow> 'a circleq res" where
  "CIRCLEQ_REMOVE q elm =
     res_bind (CIRCLEQ_NEXT q elm) (\<lambda>nxt.
     res_bind (CIRCLEQ_PREV q elm) (\<lambda>prev.
     res_bind (case nxt of
         CQHead \<Rightarrow> Inr (q\<lparr>cqh_last := prev\<rparr>)
       | CQElem a \<Rightarrow> cq_store_prev q a prev) (\<lambda>q.
     case prev of
       CQHead \<Rightarrow> Inr (q\<lparr>cqh_first := nxt\<rparr>)
     | CQElem a \<Rightarrow> cq_store_next q a nxt)))"

definition CIRCLEQ_EMPTY :: "'a circleq \<Rightarrow> bool" where
  "CIRCLEQ_EMPTY q \<longleftrightarrow> cqh_first q = CQHead"

definition CIRCLEQ_FIRST :: "'a circleq \<Rightarrow> cqptr" where
  "CIRCLEQ_FIRST q = cqh_first q"

definition CIRCLEQ_LAST :: "'a circleq \<Rightarrow> cqptr" where
  "CIRCLEQ_LAST q = cqh_last q"

definition CIRCLEQ_LOOP_NEXT :: "'a circleq \<Rightarrow> nat \<Rightarrow> cqptr res" where
  "CIRCLEQ_LOOP_NEXT q elm =
     res_bind (CIRCLEQ_NEXT q elm) (\<lambda>nxt. Inr (if nxt = CQHead then cqh_first q else nxt))"

definition CIRCLEQ_LOOP_PREV :: "'a circleq \<Rightarrow> nat \<Rightarrow> cqptr res" where
  "CIRCLEQ_LOOP_PREV q elm =
     res_bind (CIRCLEQ_PREV q elm) (\<lambda>prev. Inr (if prev = CQHead then cqh_last q else prev))"

text \<open>The loops end at the head.\<close>

fun to_elem :: "cqptr \<Rightarrow> nat option" where
  "to_elem CQHead = None"
| "to_elem (CQElem a) = Some a"

definition CIRCLEQ_FOREACH ::
    "('s \<Rightarrow> 'a circleq \<Rightarrow> nat \<Rightarrow> ('s \<times> 'a circleq \<times> bool) res) \<Rightarrow> 's \<Rightarrow> 'a circleq \<Rightarrow> ('s \<times> 'a circleq) res option" where
  "CIRCLEQ_FOREACH body s q =
     q_foreach (\<lambda>q a. res_bind (CIRCLEQ_NEXT q a) (\<lambda>p. Inr (to_elem p))) body s q (to_elem (cqh_first q))"

definition CIRCLEQ_FOREACH_REVERSE ::
    "('s \<Rightarrow> 'a circleq \<Rightarrow> nat \<Rightarrow> ('s \<times> 'a circleq \<times> bool) res) \<Rightarrow> 's \<Rightarrow> 'a circleq \<Rightarrow> ('s \<times> 'a circleq) res option" where
  "CIRCLEQ_FOREACH_REVERSE body s q =
     q_foreach (\<lambda>q a. res_bind (CIRCLEQ_PREV q a) (\<lambda>p. Inr (to_elem p))) body s q (to_elem (cqh_last q))"

subsection \<open>Rings\<close>

type_synonym ring_links = "cqptr \<Rightarrow> cqptr option"

fun circle :: "ring_links \<Rightarrow> ring_links \<Rightarrow> cqptr \<Rightarrow> nat list \<Rightarrow> bool" where
  "circle nx pv p [] \<longleftrightarrow> nx p = Some CQHead \<and> pv CQHead = Some p"
| "circle nx pv p (x # xs) \<longleftrightarrow> nx p = Some (CQElem x) \<and> pv (CQElem x) = Some p \<and> circle nx pv (CQElem x) xs"

fun end_ptr :: "cqptr \<Rightarrow> nat list \<Rightarrow> cqptr" where
  "end_ptr p [] = p"
| "end_ptr p (x # xs) = end_ptr (CQElem x) xs"

definition front_ptr :: "nat list \<Rightarrow> cqptr" where
  "front_ptr xs = (case xs of [] \<Rightarrow> CQHead | x # _ \<Rightarrow> CQElem x)"

lemma front_ptr_simps [simp]: "front_ptr [] = CQHead" "front_ptr (x # xs) = CQElem x"
  by (simp_all add: front_ptr_def)

lemma end_ptr_snoc [simp]: "end_ptr p (xs @ [x]) = CQElem x"
  by (induction xs arbitrary: p) auto

lemma end_ptr_cases: "end_ptr p xs = (if xs = [] then p else CQElem (last xs))"
  by (induction xs arbitrary: p) auto

lemma circle_at:
  "circle nx pv p (us @ vs) \<Longrightarrow> nx (end_ptr p us) = Some (front_ptr vs) \<and> pv (front_ptr vs) = Some (end_ptr p us)"
  by (induction us arbitrary: p) (cases vs, auto)

lemma circle_upd_next: "t \<noteq> p \<Longrightarrow> t \<notin> CQElem ` set xs \<Longrightarrow> circle (nx(t := v)) pv p xs = circle nx pv p xs"
  by (induction xs arbitrary: p) auto

lemma circle_upd_prev: "t \<noteq> CQHead \<Longrightarrow> t \<notin> CQElem ` set xs \<Longrightarrow> circle nx (pv(t := v)) p xs = circle nx pv p xs"
  by (induction xs arbitrary: p) auto

lemma circle_insert:
  assumes "circle nx pv p (us @ vs)" "distinct (us @ vs)" "e \<notin> set (us @ vs)" "p \<notin> CQElem ` set (e # us @ vs)"
    "nx' = nx(CQElem e := Some (front_ptr vs), end_ptr p us := Some (CQElem e))"
    "pv' = pv(CQElem e := Some (end_ptr p us), front_ptr vs := Some (CQElem e))"
  shows "circle nx' pv' p (us @ e # vs)"
  unfolding assms(5,6) using assms(1-4)
proof (induction us arbitrary: p)
  case Nil
  then show ?case by (cases vs) (auto simp: circle_upd_next circle_upd_prev image_iff simp del: fun_upd_apply
        simp: fun_upd_same fun_upd_other)
next
  case (Cons u us)
  have "end_ptr (CQElem u) us \<noteq> p" using Cons.prems(4) by (auto simp: end_ptr_cases)
  moreover have "front_ptr vs \<noteq> CQElem u" using Cons.prems(2) by (cases vs) auto
  ultimately show ?case using Cons.IH[of "CQElem u"] Cons.prems by auto
qed

lemma circle_remove:
  assumes "circle nx pv p (us @ e # vs)" "distinct (us @ e # vs)" "p \<notin> CQElem ` set (us @ e # vs)"
    "nx' = nx(end_ptr p us := Some (front_ptr vs))" "pv' = pv(front_ptr vs := Some (end_ptr p us))"
  shows "circle nx' pv' p (us @ vs)"
  unfolding assms(4,5) using assms(1-3)
proof (induction us arbitrary: p)
  case Nil
  then show ?case by (cases vs) (auto simp: circle_upd_next circle_upd_prev image_iff simp del: fun_upd_apply
        simp: fun_upd_same fun_upd_other)
next
  case (Cons u us)
  have "end_ptr (CQElem u) us \<noteq> p" using Cons.prems(3) by (auto simp: end_ptr_cases)
  moreover have "front_ptr vs \<noteq> CQElem u" using Cons.prems(2) by (cases vs) auto
  ultimately show ?case using Cons.IH[of "CQElem u"] Cons.prems by auto
qed

subsection \<open>The represented sequence\<close>

definition cq_data :: "'a circleq \<Rightarrow> nat \<Rightarrow> 'a option" where
  "cq_data q a = map_option cqdata (cq_nodes q a)"

definition circleq_rep :: "'a circleq \<Rightarrow> nat list \<Rightarrow> bool" where
  "circleq_rep q xs \<longleftrightarrow> distinct xs \<and> circle (cq_next q) (cq_prev q) CQHead xs"

lemma cq_put_simps [simp]:
  "cq_next (cq_put_next q a p) = (if cq_next q (CQElem a) = None then cq_next q else (cq_next q)(CQElem a := Some p))"
  "cq_prev (cq_put_next q a p) = cq_prev q" "cq_data (cq_put_next q a p) = cq_data q"
  "cq_prev (cq_put_prev q a p) = (if cq_prev q (CQElem a) = None then cq_prev q else (cq_prev q)(CQElem a := Some p))"
  "cq_next (cq_put_prev q a p) = cq_next q" "cq_data (cq_put_prev q a p) = cq_data q"
  by (auto simp: cq_put_next_def cq_put_prev_def cq_next_def cq_prev_def cq_data_def fun_eq_iff option.map_comp comp_def
      split: cqptr.split)

lemma cq_head_simps [simp]:
  "cq_next (q\<lparr>cqh_first := p\<rparr>) = (cq_next q)(CQHead := Some p)" "cq_prev (q\<lparr>cqh_first := p\<rparr>) = cq_prev q"
  "cq_prev (q\<lparr>cqh_last := p\<rparr>) = (cq_prev q)(CQHead := Some p)" "cq_next (q\<lparr>cqh_last := p\<rparr>) = cq_next q"
  "cq_data (q\<lparr>cqh_first := p\<rparr>) = cq_data q" "cq_data (q\<lparr>cqh_last := p\<rparr>) = cq_data q"
  by (auto simp: cq_next_def cq_prev_def cq_data_def fun_eq_iff split: cqptr.split)

lemma cq_put_heads [simp]:
  "cqh_first (cq_put_next q a p) = cqh_first q" "cqh_last (cq_put_next q a p) = cqh_last q"
  "cqh_first (cq_put_prev q a p) = cqh_first q" "cqh_last (cq_put_prev q a p) = cqh_last q"
  by (simp_all add: cq_put_next_def cq_put_prev_def)

lemma cq_liveE:
  assumes "cq_data q a \<noteq> None"
  obtains p r where "cq_next q (CQElem a) = Some p" "cq_prev q (CQElem a) = Some r"
  using assms by (auto simp: cq_data_def cq_next_def cq_prev_def)

lemmas circleq_code = CIRCLEQ_NEXT_def CIRCLEQ_PREV_def cq_store_next_def cq_store_prev_def

lemma circleq_elem:
  assumes "circleq_rep q (us @ x # vs)"
  shows "cq_next q (CQElem x) = Some (front_ptr vs)" "cq_prev q (CQElem x) = Some (end_ptr CQHead us)"
    "cq_next q (end_ptr CQHead us) = Some (CQElem x)" "cq_prev q (front_ptr vs) = Some (CQElem x)"
  using assms circle_at[of "cq_next q" "cq_prev q" CQHead "us @ [x]" vs]
    circle_at[of "cq_next q" "cq_prev q" CQHead us "x # vs"]
  by (auto simp: circleq_rep_def)

lemma circleq_insert_at:
  assumes "circleq_rep q (us @ vs)" "e \<notin> set (us @ vs)"
    "cq_next q' = (cq_next q)(CQElem e := Some (front_ptr vs), end_ptr CQHead us := Some (CQElem e))"
    "cq_prev q' = (cq_prev q)(CQElem e := Some (end_ptr CQHead us), front_ptr vs := Some (CQElem e))"
  shows "circleq_rep q' (us @ e # vs)"
  using assms circle_insert[OF _ _ assms(2) _ assms(3,4)] by (auto simp: circleq_rep_def)

lemma circleq_remove_at:
  assumes "circleq_rep q (us @ e # vs)"
    "cq_next q' = (cq_next q)(end_ptr CQHead us := Some (front_ptr vs))"
    "cq_prev q' = (cq_prev q)(front_ptr vs := Some (end_ptr CQHead us))"
  shows "circleq_rep q' (us @ vs)"
  using assms circle_remove[of _ _ CQHead us e vs, OF _ _ _ assms(2,3)] by (auto simp: circleq_rep_def)

lemma circleq_insert_after_law:
  assumes "circleq_rep q (us @ x # vs)" "cq_data q e \<noteq> None" "e \<notin> set (us @ x # vs)"
  shows "\<exists>q'. CIRCLEQ_INSERT_AFTER q x e = Inr q' \<and> circleq_rep q' (us @ x # e # vs) \<and> cq_data q' = cq_data q"
proof -
  obtain p r where e: "cq_next q (CQElem e) = Some p" "cq_prev q (CQElem e) = Some r" by (rule cq_liveE[OF assms(2)])
  note x = circleq_elem[OF assms(1)]
  obtain q' where q': "CIRCLEQ_INSERT_AFTER q x e = Inr q'" "cq_data q' = cq_data q"
    "cq_next q' = (cq_next q)(CQElem e := Some (front_ptr vs), CQElem x := Some (CQElem e))"
    "cq_prev q' = (cq_prev q)(CQElem e := Some (CQElem x), front_ptr vs := Some (CQElem e))"
    using e x assms(3) by (cases vs) (auto simp: CIRCLEQ_INSERT_AFTER_def circleq_code)
  have "circleq_rep q' ((us @ [x]) @ e # vs)" by (rule circleq_insert_at) (use assms q' in auto)
  then show ?thesis using q' by simp
qed

lemma circleq_insert_before_law:
  assumes "circleq_rep q (us @ x # vs)" "cq_data q e \<noteq> None" "e \<notin> set (us @ x # vs)"
  shows "\<exists>q'. CIRCLEQ_INSERT_BEFORE q x e = Inr q' \<and> circleq_rep q' (us @ e # x # vs) \<and> cq_data q' = cq_data q"
proof -
  obtain p r where e: "cq_next q (CQElem e) = Some p" "cq_prev q (CQElem e) = Some r" by (rule cq_liveE[OF assms(2)])
  note x = circleq_elem[OF assms(1)]
  obtain q' where q': "CIRCLEQ_INSERT_BEFORE q x e = Inr q'" "cq_data q' = cq_data q"
    "cq_next q' = (cq_next q)(CQElem e := Some (CQElem x), end_ptr CQHead us := Some (CQElem e))"
    "cq_prev q' = (cq_prev q)(CQElem e := Some (end_ptr CQHead us), CQElem x := Some (CQElem e))"
    using e x assms(3) by (cases us rule: rev_cases) (auto simp: CIRCLEQ_INSERT_BEFORE_def circleq_code)
  have "circleq_rep q' (us @ e # x # vs)" by (rule circleq_insert_at[OF assms(1,3)]) (use q' in auto)
  then show ?thesis using q' by simp
qed

lemma circleq_ends:
  assumes "circleq_rep q xs"
  shows "cqh_first q = front_ptr xs" "cqh_last q = end_ptr CQHead xs"
  using assms circle_at[of "cq_next q" "cq_prev q" CQHead "[]" xs] circle_at[of "cq_next q" "cq_prev q" CQHead xs "[]"]
  by (auto simp: circleq_rep_def cq_next_def[of q CQHead] cq_prev_def[of q CQHead])

lemma circleq_insert_head_law:
  assumes "circleq_rep q xs" "cq_data q e \<noteq> None" "e \<notin> set xs"
  shows "\<exists>q'. CIRCLEQ_INSERT_HEAD q e = Inr q' \<and> circleq_rep q' (e # xs) \<and> cq_data q' = cq_data q"
proof -
  obtain p r where e: "cq_next q (CQElem e) = Some p" "cq_prev q (CQElem e) = Some r" by (rule cq_liveE[OF assms(2)])
  note f = circleq_ends[OF assms(1)]
  have v: "cq_prev q (front_ptr xs) = Some CQHead"
    using assms(1) circle_at[of "cq_next q" "cq_prev q" CQHead "[]" xs] by (simp add: circleq_rep_def)
  obtain q' where q': "CIRCLEQ_INSERT_HEAD q e = Inr q'" "cq_data q' = cq_data q"
    "cq_next q' = (cq_next q)(CQElem e := Some (front_ptr xs), CQHead := Some (CQElem e))"
    "cq_prev q' = (cq_prev q)(CQElem e := Some CQHead, front_ptr xs := Some (CQElem e))"
    using e f v assms(3) by (cases xs) (auto simp: CIRCLEQ_INSERT_HEAD_def circleq_code end_ptr_cases)
  have "circleq_rep q' ([] @ e # xs)" by (rule circleq_insert_at) (use assms q' in auto)
  then show ?thesis using q' by simp
qed

lemma circleq_insert_tail_law:
  assumes "circleq_rep q xs" "cq_data q e \<noteq> None" "e \<notin> set xs"
  shows "\<exists>q'. CIRCLEQ_INSERT_TAIL q e = Inr q' \<and> circleq_rep q' (xs @ [e]) \<and> cq_data q' = cq_data q"
proof -
  obtain p r where e: "cq_next q (CQElem e) = Some p" "cq_prev q (CQElem e) = Some r" by (rule cq_liveE[OF assms(2)])
  note f = circleq_ends[OF assms(1)]
  have v: "cq_next q (end_ptr CQHead xs) = Some CQHead"
    using assms(1) circle_at[of "cq_next q" "cq_prev q" CQHead xs "[]"] by (simp add: circleq_rep_def)
  obtain q' where q': "CIRCLEQ_INSERT_TAIL q e = Inr q'" "cq_data q' = cq_data q"
    "cq_next q' = (cq_next q)(CQElem e := Some CQHead, end_ptr CQHead xs := Some (CQElem e))"
    "cq_prev q' = (cq_prev q)(CQElem e := Some (end_ptr CQHead xs), CQHead := Some (CQElem e))"
    using e f v assms(3) by (cases xs rule: rev_cases) (auto simp: CIRCLEQ_INSERT_TAIL_def circleq_code front_ptr_def
      split: list.splits)
  have "circleq_rep q' (xs @ e # [])" by (rule circleq_insert_at) (use assms q' in auto)
  then show ?thesis using q' by simp
qed

lemma circleq_remove_law:
  assumes "circleq_rep q (us @ e # vs)"
  shows "\<exists>q'. CIRCLEQ_REMOVE q e = Inr q' \<and> circleq_rep q' (us @ vs) \<and> cq_data q' = cq_data q"
proof -
  note x = circleq_elem[OF assms]
  obtain q' where q': "CIRCLEQ_REMOVE q e = Inr q'" "cq_data q' = cq_data q"
    "cq_next q' = (cq_next q)(end_ptr CQHead us := Some (front_ptr vs))"
    "cq_prev q' = (cq_prev q)(front_ptr vs := Some (end_ptr CQHead us))"
    using x by (cases us rule: rev_cases; cases vs) (auto simp: CIRCLEQ_REMOVE_def circleq_code)
  then show ?thesis using circleq_remove_at[OF assms q'(3,4)] by simp
qed

interpretation circleq: tail_list circleq_rep cq_data CIRCLEQ_INIT CIRCLEQ_INSERT_HEAD
    CIRCLEQ_INSERT_AFTER "\<lambda>q e. Some (CIRCLEQ_REMOVE q e)" CIRCLEQ_INSERT_TAIL
  by unfold_locales
    (simp_all add: circleq_insert_head_law circleq_insert_after_law circleq_insert_tail_law circleq_remove_law,
     simp_all add: circleq_rep_def CIRCLEQ_INIT_def)

interpretation circleq_two: two_way_list circleq_rep cq_data CIRCLEQ_INIT CIRCLEQ_INSERT_HEAD
    CIRCLEQ_INSERT_AFTER "\<lambda>q e. Some (CIRCLEQ_REMOVE q e)" CIRCLEQ_INSERT_BEFORE
  by unfold_locales (simp add: circleq_insert_before_law)

subsection \<open>Traversal\<close>

lemma circle_visits:
  assumes "\<And>a. step q a = (case nx (CQElem a) of None \<Rightarrow> Inl UseAfterFree | Some p \<Rightarrow> Inr (to_elem p))"
  shows "circle nx pv p xs \<Longrightarrow> visits step q (to_elem (the (nx p))) xs"
proof (induction xs arbitrary: p)
  case (Cons x xs)
  then obtain r where "nx (CQElem x) = Some r" by (cases xs) auto
  then show ?case using Cons.IH[of "CQElem x"] Cons.prems assms[of x] by auto
qed simp

text \<open>The backward loop runs along the same ring with the two kinds of pointers exchanged.\<close>

lemma circle_back:
  "circle nx pv CQHead (us @ vs) \<Longrightarrow> pv (front_ptr vs) = Some (end_ptr CQHead us) \<and>
   visits (\<lambda>_ a. case pv (CQElem a) of None \<Rightarrow> Inl UseAfterFree | Some p \<Rightarrow> Inr (to_elem p)) q (to_elem (end_ptr CQHead us)) (rev us)"
proof (induction us arbitrary: vs rule: rev_induct)
  case Nil
  then show ?case using circle_at[of nx pv CQHead "[]" vs] by simp
next
  case (snoc x us)
  then show ?case using snoc.IH[of "x # vs"] circle_at[of nx pv CQHead "us @ [x]" vs] by simp
qed

lemma res_bind_option: "res_bind (case v of None \<Rightarrow> Inl e | Some p \<Rightarrow> Inr p) f = (case v of None \<Rightarrow> Inl e | Some p \<Rightarrow> f p)"
  by (simp split: option.split)

lemma circleq_walks:
  assumes "circleq_rep q xs"
  shows "CIRCLEQ_FOREACH collect [] q = Some (Inr (xs, q))"
    "CIRCLEQ_FOREACH_REVERSE collect [] q = Some (Inr (rev xs, q))"
proof -
  have c: "circle (cq_next q) (cq_prev q) CQHead (xs @ [])" using assms by (simp add: circleq_rep_def)
  have "visits (\<lambda>q a. res_bind (CIRCLEQ_NEXT q a) (\<lambda>p. Inr (to_elem p))) q (to_elem (cqh_first q)) xs"
    using circle_visits[of "\<lambda>q a. res_bind (CIRCLEQ_NEXT q a) (\<lambda>p. Inr (to_elem p))" q "cq_next q" _ CQHead xs] c
    by (simp add: CIRCLEQ_NEXT_def res_bind_option cq_next_def[of q CQHead])
  then show "CIRCLEQ_FOREACH collect [] q = Some (Inr (xs, q))"
    using foreach_collects[where seen = "[]"] by (simp add: CIRCLEQ_FOREACH_def)
  have "visits (\<lambda>q a. res_bind (CIRCLEQ_PREV q a) (\<lambda>p. Inr (to_elem p))) q (to_elem (cqh_last q)) (rev xs)"
    using circle_back[OF c, of q] circleq_ends(2)[OF assms]
    by (auto elim!: visits_cong simp: CIRCLEQ_PREV_def res_bind_option)
  then show "CIRCLEQ_FOREACH_REVERSE collect [] q = Some (Inr (rev xs, q))"
    using foreach_collects[where seen = "[]"] by (simp add: CIRCLEQ_FOREACH_REVERSE_def)
qed

text \<open>The loop macros turn over: after the last element comes the first, and before the first the last.\<close>

lemma circleq_loops:
  assumes "circleq_rep q (us @ x # vs)"
  shows "CIRCLEQ_LOOP_NEXT q x = Inr (CQElem (hd (vs @ us @ [x])))"
    "CIRCLEQ_LOOP_PREV q x = Inr (CQElem (last (x # vs @ us)))"
proof -
  have "cqh_first q = CQElem (hd (us @ [x]))" "cqh_last q = CQElem (last (x # vs))"
    using circleq_ends[OF assms] by (cases us; simp add: end_ptr_cases)+
  note q = this circleq_elem(1,2)[OF assms]
  show "CIRCLEQ_LOOP_NEXT q x = Inr (CQElem (hd (vs @ us @ [x])))"
    using q by (cases vs) (auto simp: CIRCLEQ_LOOP_NEXT_def circleq_code)
  show "CIRCLEQ_LOOP_PREV q x = Inr (CQElem (last (x # vs @ us)))"
    using q by (cases "us = []") (auto simp: CIRCLEQ_LOOP_PREV_def circleq_code end_ptr_cases)
qed

end
