(* ===== verification/Queue_Scripts.thy ===== *)
theory Queue_Scripts
  imports Tail_Queues Linked_Queue_Laws Circle_Queues
begin

text \<open>
  Sequences of operations on the doubly linked queues of \<^verbatim>\<open>sys/queue.h\<close>. An operation on the queue is
  compared with the same operation on a list of elements, which also says when the operation may be
  used: an element that is added must exist and not be in the queue, one that is named must be in it.
  The locale \<open>deque\<close> puts the contracts of \<open>Queue_Chains\<close> together; the tail queue and the circular
  queue both satisfy it, so that a sequence of operations gives the same contents in both.
\<close>

datatype qop = InsHead nat | InsTail nat | InsAfter nat nat | InsBefore nat nat | Remove nat

definition addable :: "(nat \<Rightarrow> 'd option) \<Rightarrow> nat list \<Rightarrow> nat \<Rightarrow> bool" where
  "addable d xs e \<longleftrightarrow> d e \<noteq> None \<and> e \<notin> set xs"

fun list_op :: "(nat \<Rightarrow> 'd option) \<Rightarrow> nat list \<Rightarrow> qop \<Rightarrow> nat list option" where
  "list_op d xs (InsHead e) = (if addable d xs e then Some (e # xs) else None)"
| "list_op d xs (InsTail e) = (if addable d xs e then Some (xs @ [e]) else None)"
| "list_op d xs (InsAfter x e) =
     (if addable d xs e \<and> x \<in> set xs
      then Some (takeWhile (\<lambda>y. y \<noteq> x) xs @ x # e # tl (dropWhile (\<lambda>y. y \<noteq> x) xs)) else None)"
| "list_op d xs (InsBefore x e) =
     (if addable d xs e \<and> x \<in> set xs
      then Some (takeWhile (\<lambda>y. y \<noteq> x) xs @ e # dropWhile (\<lambda>y. y \<noteq> x) xs) else None)"
| "list_op d xs (Remove e) =
     (if e \<in> set xs then Some (takeWhile (\<lambda>y. y \<noteq> e) xs @ tl (dropWhile (\<lambda>y. y \<noteq> e) xs)) else None)"

fun list_ops :: "(nat \<Rightarrow> 'd option) \<Rightarrow> nat list \<Rightarrow> qop list \<Rightarrow> nat list option" where
  "list_ops d xs [] = Some xs"
| "list_ops d xs (p # ps) = (case list_op d xs p of None \<Rightarrow> None | Some ys \<Rightarrow> list_ops d ys ps)"

text \<open>The same operation through the macros of one kind of queue, and a sequence of them.\<close>

fun queue_op ::
    "('q \<Rightarrow> nat \<Rightarrow> 'q res) \<Rightarrow> ('q \<Rightarrow> nat \<Rightarrow> 'q res) \<Rightarrow> ('q \<Rightarrow> nat \<Rightarrow> nat \<Rightarrow> 'q res) \<Rightarrow>
     ('q \<Rightarrow> nat \<Rightarrow> nat \<Rightarrow> 'q res) \<Rightarrow> ('q \<Rightarrow> nat \<Rightarrow> 'q res option) \<Rightarrow> 'q \<Rightarrow> qop \<Rightarrow> 'q res option" where
  "queue_op ih it ia ib rm q (InsHead e) = Some (ih q e)"
| "queue_op ih it ia ib rm q (InsTail e) = Some (it q e)"
| "queue_op ih it ia ib rm q (InsAfter x e) = Some (ia q x e)"
| "queue_op ih it ia ib rm q (InsBefore x e) = Some (ib q x e)"
| "queue_op ih it ia ib rm q (Remove e) = rm q e"

fun queue_ops :: "('q \<Rightarrow> qop \<Rightarrow> 'q res option) \<Rightarrow> 'q \<Rightarrow> qop list \<Rightarrow> 'q res option" where
  "queue_ops run q [] = Some (Inr q)"
| "queue_ops run q (p # ps) =
     (case run q p of None \<Rightarrow> None | Some (Inl e) \<Rightarrow> Some (Inl e) | Some (Inr q) \<Rightarrow> queue_ops run q ps)"

definition tailq_op :: "nat \<Rightarrow> 'a tailq \<Rightarrow> qop \<Rightarrow> 'a tailq res option" where
  "tailq_op h = queue_op (\<lambda>q. TAILQ_INSERT_HEAD q h) (\<lambda>q. TAILQ_INSERT_TAIL q h) (\<lambda>q. TAILQ_INSERT_AFTER q h)
     TAILQ_INSERT_BEFORE (\<lambda>q e. Some (TAILQ_REMOVE q h e))"

definition circleq_op :: "'a circleq \<Rightarrow> qop \<Rightarrow> 'a circleq res option" where
  "circleq_op = queue_op CIRCLEQ_INSERT_HEAD CIRCLEQ_INSERT_TAIL CIRCLEQ_INSERT_AFTER CIRCLEQ_INSERT_BEFORE
     (\<lambda>q e. Some (CIRCLEQ_REMOVE q e))"

text \<open>Pools of elements 0 to 4 that are in no queue yet, and a sequence of operations on them.\<close>

definition tq_pool :: "nat tailq" where
  "tq_pool = \<lparr>tq_heads = (\<lambda>_. \<lparr>tqh_first = None, tqh_last = QHead 0\<rparr>),
     tq_nodes = (\<lambda>a. if a < 5 then Some \<lparr>tqdata = a * a, tqe_next = None, tqe_prev = QHead 0\<rparr> else None)\<rparr>"

definition cq_pool :: "nat circleq" where
  "cq_pool = \<lparr>cqh_first = CQHead, cqh_last = CQHead,
     cq_nodes = (\<lambda>a. if a < 5 then Some \<lparr>cqdata = a * a, cqe_next = CQHead, cqe_prev = CQHead\<rparr> else None)\<rparr>"

definition some_ops :: "qop list" where
  "some_ops = [InsTail 1, InsHead 2, InsAfter 2 3, InsBefore 1 4, Remove 2, InsTail 2, Remove 1]"

lemma split_at: "x \<in> set xs \<Longrightarrow> xs = takeWhile (\<lambda>y. y \<noteq> x) xs @ x # tl (dropWhile (\<lambda>y. y \<noteq> x) xs)"
  by (induction xs) auto

lemma dropWhile_at: "x \<in> set xs \<Longrightarrow> dropWhile (\<lambda>y. y \<noteq> x) xs = x # tl (dropWhile (\<lambda>y. y \<noteq> x) xs)"
  by (induction xs) auto

locale deque = tail_list + two_way_list
begin

lemma op_refines:
  assumes "rep q xs" "list_op (data q) xs p = Some ys"
  shows "\<exists>q'. queue_op insert_head insert_tail insert_after insert_before remove q p = Some (Inr q') \<and>
    rep q' ys \<and> data q' = data q"
proof (cases p)
  case (InsHead e)
  then show ?thesis using assms insert_head_law[of q xs e] by (auto simp: addable_def split: if_splits)
next
  case (InsTail e)
  then show ?thesis using assms insert_tail_law[of q xs e] by (auto simp: addable_def split: if_splits)
next
  case (InsAfter x e)
  with assms(2) have x: "x \<in> set xs" "addable (data q) xs e" by (auto split: if_splits)
  obtain us vs where "xs = us @ x # vs" "list_op (data q) xs p = Some (us @ x # e # vs)"
    using split_at[OF x(1)] x InsAfter that by simp
  then show ?thesis using InsAfter assms x insert_after_law[of q us x vs e] by (auto simp: addable_def)
next
  case (InsBefore x e)
  with assms(2) have x: "x \<in> set xs" "addable (data q) xs e" by (auto split: if_splits)
  obtain us vs where "xs = us @ x # vs" "list_op (data q) xs p = Some (us @ e # x # vs)"
    using split_at[OF x(1)] dropWhile_at[OF x(1)] x InsBefore that by (simp only: list_op.simps if_True conj_absorb) metis
  then show ?thesis using InsBefore assms x insert_before_law[of q us x vs e] by (auto simp: addable_def)
next
  case (Remove e)
  with assms(2) have x: "e \<in> set xs" by (auto split: if_splits)
  obtain us vs where "xs = us @ e # vs" "list_op (data q) xs p = Some (us @ vs)"
    using split_at[OF x] x Remove that by simp
  then show ?thesis using Remove assms remove_law[of q us e vs] by auto
qed

lemma ops_refine:
  "rep q xs \<Longrightarrow> list_ops (data q) xs ps = Some ys \<Longrightarrow>
   \<exists>q'. queue_ops (queue_op insert_head insert_tail insert_after insert_before remove) q ps = Some (Inr q') \<and>
     rep q' ys \<and> data q' = data q"
proof (induction ps arbitrary: q xs)
  case (Cons p ps)
  from Cons.prems(2) obtain zs where zs: "list_op (data q) xs p = Some zs" "list_ops (data q) zs ps = Some ys"
    by (auto split: option.splits)
  obtain q1 where "queue_op insert_head insert_tail insert_after insert_before remove q p = Some (Inr q1)"
    "rep q1 zs" "data q1 = data q" using op_refines[OF Cons.prems(1) zs(1)] by blast
  then show ?case using Cons.IH[of q1 zs] zs(2) by simp
qed simp

end

interpretation tailq_deque: deque "tailq_rep h" tq_data "TAILQ_INIT h" "\<lambda>q. TAILQ_INSERT_HEAD q h"
    "\<lambda>q. TAILQ_INSERT_AFTER q h" "\<lambda>q e. Some (TAILQ_REMOVE q h e)" "\<lambda>q. TAILQ_INSERT_TAIL q h" TAILQ_INSERT_BEFORE for h
  by (intro deque.intro tailq.tail_list_axioms tailq_two.two_way_list_axioms)

interpretation circleq_deque: deque circleq_rep cq_data CIRCLEQ_INIT CIRCLEQ_INSERT_HEAD CIRCLEQ_INSERT_AFTER
    "\<lambda>q e. Some (CIRCLEQ_REMOVE q e)" CIRCLEQ_INSERT_TAIL CIRCLEQ_INSERT_BEFORE
  by (intro deque.intro circleq.tail_list_axioms circleq_two.two_way_list_axioms)

text \<open>
  C28: any admissible sequence of insertions (at either end, before or after an element) and removals
  on a fresh tail queue and on a fresh circular queue runs without a fault and leaves the sequence
  that the list operations give: in both, the forward loop then visits it and the backward loop
  visits its reverse, and the payloads are untouched.
\<close>

theorem queue_scripts_agree:
  assumes "tq_data t = cq_data c" "list_ops (cq_data c) [] ps = Some ys"
  shows "\<exists>t' c'. queue_ops (tailq_op h) (TAILQ_INIT h t) ps = Some (Inr t') \<and>
    queue_ops circleq_op (CIRCLEQ_INIT c) ps = Some (Inr c') \<and>
    TAILQ_FOREACH collect [] t' h = Some (Inr (ys, t')) \<and>
    TAILQ_FOREACH_REVERSE collect [] t' h = Some (Inr (rev ys, t')) \<and>
    CIRCLEQ_FOREACH collect [] c' = Some (Inr (ys, c')) \<and>
    CIRCLEQ_FOREACH_REVERSE collect [] c' = Some (Inr (rev ys, c')) \<and>
    tq_data t' = tq_data t \<and> cq_data c' = cq_data c"
proof -
  have t: "tailq_rep h (TAILQ_INIT h t) []" "tq_data (TAILQ_INIT h t) = tq_data t"
    using tailq.init_law[of h t] by simp_all
  have c: "circleq_rep (CIRCLEQ_INIT c) []" "cq_data (CIRCLEQ_INIT c) = cq_data c"
    using circleq.init_law[of c] by simp_all
  obtain t' where t': "queue_ops (tailq_op h) (TAILQ_INIT h t) ps = Some (Inr t')" "tailq_rep h t' ys" "tq_data t' = tq_data t"
    using tailq_deque.ops_refine[OF t(1), of ps ys] assms t(2) by (auto simp: tailq_op_def)
  obtain c' where c': "queue_ops circleq_op (CIRCLEQ_INIT c) ps = Some (Inr c')" "circleq_rep c' ys" "cq_data c' = cq_data c"
    using circleq_deque.ops_refine[OF c(1), of ps ys] assms c(2) by (auto simp: circleq_op_def)
  show ?thesis using t' c' tailq_both_ways[OF t'(2)] circleq_walks[OF c'(2)] by blast
qed

lemma pools_agree: "tq_data tq_pool = cq_data cq_pool"
  by (auto simp: tq_pool_def cq_pool_def tq_data_def cq_data_def)

lemma some_ops_list: "list_ops (cq_data cq_pool) [] some_ops = Some [3, 4, 2]"
  by (simp add: some_ops_def addable_def cq_data_def cq_pool_def)

theorem queue_scripts_agree_witness:
  "tq_data tq_pool = cq_data cq_pool \<and> list_ops (cq_data cq_pool) [] some_ops = Some [3, 4, 2] \<and>
   (\<exists>t' c'. queue_ops (tailq_op 0) (TAILQ_INIT 0 tq_pool) some_ops = Some (Inr t') \<and>
     queue_ops circleq_op (CIRCLEQ_INIT cq_pool) some_ops = Some (Inr c') \<and>
     TAILQ_FOREACH collect [] t' 0 = Some (Inr ([3, 4, 2], t')) \<and>
     CIRCLEQ_FOREACH_REVERSE collect [] c' = Some (Inr ([2, 4, 3], c')))"
  using queue_scripts_agree[OF pools_agree some_ops_list, of 0] pools_agree some_ops_list by auto

end
