(* ===== verification/Cec_Msg.thy ===== *)
theory Cec_Msg
  imports Byte_Order
begin

text \<open>
  The message structure of \<open>linux/cec.h\<close> (HDMI Consumer Electronics Control) and its basic
  functions, with what the message functions of \<open>linux/cec-funcs.h\<close> share: reading and writing a
  byte, copying a block, and the lemmas that put numbers back together from their bytes.
\<close>

subsection \<open>Messages\<close>

record cec_msg =
  m_tx_ts :: u64
  m_rx_ts :: u64
  m_len :: u32
  m_timeout :: u32
  m_sequence :: u32
  m_flags :: u32
  m_msg :: "u8 list"
  m_reply :: u8
  m_rx_status :: u8
  m_tx_status :: u8
  m_tx_arb_lost_cnt :: u8
  m_tx_nack_cnt :: u8
  m_tx_low_drive_cnt :: u8
  m_tx_error_cnt :: u8

definition CEC_MAX_MSG_SIZE :: nat where "CEC_MAX_MSG_SIZE = 16"

text \<open>The payload array has 16 bytes, and the length never exceeds it.\<close>

definition cec_wf :: "cec_msg \<Rightarrow> bool" where
  "cec_wf m \<longleftrightarrow> length (m_msg m) = CEC_MAX_MSG_SIZE"

definition cec_sized :: "cec_msg \<Rightarrow> bool" where
  "cec_sized m \<longleftrightarrow> cec_wf m \<and> unat (m_len m) \<le> CEC_MAX_MSG_SIZE"

definition getb :: "cec_msg \<Rightarrow> nat \<Rightarrow> u8" where
  "getb m i = m_msg m ! i"

definition setb :: "nat \<Rightarrow> u8 \<Rightarrow> cec_msg \<Rightarrow> cec_msg" where
  "setb i v m = m\<lparr>m_msg := (m_msg m)[i := v]\<rparr>"

text \<open>\<open>memcpy\<close> of a block to an offset of the payload, and from it.\<close>

definition copy_in :: "nat \<Rightarrow> u8 list \<Rightarrow> cec_msg \<Rightarrow> cec_msg" where
  "copy_in off bs m = m\<lparr>m_msg := take off (m_msg m) @ bs @ drop (off + length bs) (m_msg m)\<rparr>"

definition copy_out :: "nat \<Rightarrow> nat \<Rightarrow> cec_msg \<Rightarrow> u8 list" where
  "copy_out off n m = take n (drop off (m_msg m))"

subsection \<open>Functions of cec.h\<close>

definition cec_msg_initiator :: "cec_msg \<Rightarrow> u8" where
  "cec_msg_initiator m = drop_bit 4 (getb m 0)"

definition cec_msg_destination :: "cec_msg \<Rightarrow> u8" where
  "cec_msg_destination m = getb m 0 AND 0xf"

definition cec_msg_opcode :: "cec_msg \<Rightarrow> int" where
  "cec_msg_opcode m = (if 1 < m_len m then uint (getb m 1) else -1)"

definition cec_msg_is_broadcast :: "cec_msg \<Rightarrow> bool" where
  "cec_msg_is_broadcast m \<longleftrightarrow> getb m 0 AND 0xf = 0xf"

definition cec_msg_init :: "u8 \<Rightarrow> u8 \<Rightarrow> cec_msg" where
  "cec_msg_init initiator destination =
     \<lparr>m_tx_ts = 0, m_rx_ts = 0, m_len = 1, m_timeout = 0, m_sequence = 0, m_flags = 0,
      m_msg = (replicate CEC_MAX_MSG_SIZE 0)[0 := push_bit 4 initiator OR destination],
      m_reply = 0, m_rx_status = 0, m_tx_status = 0, m_tx_arb_lost_cnt = 0, m_tx_nack_cnt = 0,
      m_tx_low_drive_cnt = 0, m_tx_error_cnt = 0\<rparr>"

definition cec_msg_set_reply_to :: "cec_msg \<Rightarrow> cec_msg \<Rightarrow> cec_msg" where
  "cec_msg_set_reply_to m orig =
     (setb 0 (push_bit 4 (cec_msg_destination orig) OR cec_msg_initiator orig) m)
       \<lparr>m_timeout := 0, m_reply := 0\<rparr>"

abbreviation (input) CEC_TX_STATUS_OK :: u8 where "CEC_TX_STATUS_OK \<equiv> 1"
abbreviation (input) CEC_RX_STATUS_OK :: u8 where "CEC_RX_STATUS_OK \<equiv> 1"
abbreviation (input) CEC_RX_STATUS_FEATURE_ABORT :: u8 where "CEC_RX_STATUS_FEATURE_ABORT \<equiv> 4"

definition cec_msg_status_is_ok :: "cec_msg \<Rightarrow> bool" where
  "cec_msg_status_is_ok m =
     (if m_tx_status m \<noteq> 0 \<and> m_tx_status m AND CEC_TX_STATUS_OK = 0 then False
      else if m_rx_status m \<noteq> 0 \<and> m_rx_status m AND CEC_RX_STATUS_OK = 0 then False
      else if m_tx_status m = 0 \<and> m_rx_status m = 0 then False
      else m_rx_status m AND CEC_RX_STATUS_FEATURE_ABORT = 0)"

subsection \<open>Masks of logical addresses\<close>

definition CEC_LOG_ADDR_MASK_TV :: u16 where "CEC_LOG_ADDR_MASK_TV = push_bit 0 1"
definition CEC_LOG_ADDR_MASK_RECORD :: u16 where
  "CEC_LOG_ADDR_MASK_RECORD = push_bit 1 1 OR push_bit 2 1 OR push_bit 9 1"
definition CEC_LOG_ADDR_MASK_TUNER :: u16 where
  "CEC_LOG_ADDR_MASK_TUNER = push_bit 3 1 OR push_bit 6 1 OR push_bit 7 1 OR push_bit 10 1"
definition CEC_LOG_ADDR_MASK_PLAYBACK :: u16 where
  "CEC_LOG_ADDR_MASK_PLAYBACK = push_bit 4 1 OR push_bit 8 1 OR push_bit 11 1"
definition CEC_LOG_ADDR_MASK_AUDIOSYSTEM :: u16 where "CEC_LOG_ADDR_MASK_AUDIOSYSTEM = push_bit 5 1"
definition CEC_LOG_ADDR_MASK_BACKUP :: u16 where
  "CEC_LOG_ADDR_MASK_BACKUP = push_bit 12 1 OR push_bit 13 1"
definition CEC_LOG_ADDR_MASK_SPECIFIC :: u16 where "CEC_LOG_ADDR_MASK_SPECIFIC = push_bit 14 1"
definition CEC_LOG_ADDR_MASK_UNREGISTERED :: u16 where "CEC_LOG_ADDR_MASK_UNREGISTERED = push_bit 15 1"

definition cec_has_tv :: "u16 \<Rightarrow> bool" where
  "cec_has_tv log_addr_mask \<longleftrightarrow> log_addr_mask AND CEC_LOG_ADDR_MASK_TV \<noteq> 0"
definition cec_has_record :: "u16 \<Rightarrow> bool" where
  "cec_has_record log_addr_mask \<longleftrightarrow> log_addr_mask AND CEC_LOG_ADDR_MASK_RECORD \<noteq> 0"
definition cec_has_tuner :: "u16 \<Rightarrow> bool" where
  "cec_has_tuner log_addr_mask \<longleftrightarrow> log_addr_mask AND CEC_LOG_ADDR_MASK_TUNER \<noteq> 0"
definition cec_has_playback :: "u16 \<Rightarrow> bool" where
  "cec_has_playback log_addr_mask \<longleftrightarrow> log_addr_mask AND CEC_LOG_ADDR_MASK_PLAYBACK \<noteq> 0"
definition cec_has_audiosystem :: "u16 \<Rightarrow> bool" where
  "cec_has_audiosystem log_addr_mask \<longleftrightarrow> log_addr_mask AND CEC_LOG_ADDR_MASK_AUDIOSYSTEM \<noteq> 0"
definition cec_has_backup :: "u16 \<Rightarrow> bool" where
  "cec_has_backup log_addr_mask \<longleftrightarrow> log_addr_mask AND CEC_LOG_ADDR_MASK_BACKUP \<noteq> 0"
definition cec_has_specific :: "u16 \<Rightarrow> bool" where
  "cec_has_specific log_addr_mask \<longleftrightarrow> log_addr_mask AND CEC_LOG_ADDR_MASK_SPECIFIC \<noteq> 0"
definition cec_is_unregistered :: "u16 \<Rightarrow> bool" where
  "cec_is_unregistered log_addr_mask \<longleftrightarrow> log_addr_mask AND CEC_LOG_ADDR_MASK_UNREGISTERED \<noteq> 0"
definition cec_is_unconfigured :: "u16 \<Rightarrow> bool" where
  "cec_is_unconfigured log_addr_mask \<longleftrightarrow> log_addr_mask = 0"

lemmas log_addr_masks =
  CEC_LOG_ADDR_MASK_TV_def CEC_LOG_ADDR_MASK_RECORD_def CEC_LOG_ADDR_MASK_TUNER_def
  CEC_LOG_ADDR_MASK_PLAYBACK_def CEC_LOG_ADDR_MASK_AUDIOSYSTEM_def CEC_LOG_ADDR_MASK_BACKUP_def
  CEC_LOG_ADDR_MASK_SPECIFIC_def CEC_LOG_ADDR_MASK_UNREGISTERED_def

subsection \<open>Reading back what was written\<close>

lemma getb_setb_same [simp]: "cec_wf m \<Longrightarrow> i < 16 \<Longrightarrow> getb (setb i v m) i = v"
  by (simp add: getb_def setb_def cec_wf_def CEC_MAX_MSG_SIZE_def)

lemma getb_setb_other [simp]: "i \<noteq> j \<Longrightarrow> getb (setb i v m) j = getb m j"
  by (simp add: getb_def setb_def)

lemma setb_fields [simp]:
  "cec_wf (setb i v m) = cec_wf m" "m_len (setb i v m) = m_len m" "m_reply (setb i v m) = m_reply m"
  by (simp_all add: setb_def cec_wf_def)

lemma getb_fields [simp]:
  "getb (m\<lparr>m_len := n\<rparr>) i = getb m i" "getb (m\<lparr>m_reply := r\<rparr>) i = getb m i"
  "getb (m\<lparr>m_timeout := t\<rparr>) i = getb m i"
  by (simp_all add: getb_def)

lemma cec_wf_fields [simp]:
  "cec_wf (m\<lparr>m_len := n\<rparr>) = cec_wf m" "cec_wf (m\<lparr>m_reply := r\<rparr>) = cec_wf m"
  "cec_wf (m\<lparr>m_timeout := t\<rparr>) = cec_wf m"
  by (simp_all add: cec_wf_def)

lemma copy_in_fields [simp]:
  "m_len (copy_in off bs m) = m_len m" "m_reply (copy_in off bs m) = m_reply m"
  by (simp_all add: copy_in_def)

lemma copy_in_wf [simp]: "cec_wf m \<Longrightarrow> off + length bs \<le> 16 \<Longrightarrow> cec_wf (copy_in off bs m)"
  by (auto simp: copy_in_def cec_wf_def CEC_MAX_MSG_SIZE_def)

lemma copy_in_out [simp]:
  "cec_wf m \<Longrightarrow> off + length bs \<le> 16 \<Longrightarrow> copy_out off (length bs) (copy_in off bs m) = bs"
  by (simp add: copy_in_def copy_out_def cec_wf_def CEC_MAX_MSG_SIZE_def)

lemma getb_copy_in [simp]:
  "cec_wf m \<Longrightarrow> i < off \<Longrightarrow> off \<le> 16 \<Longrightarrow> getb (copy_in off bs m) i = getb m i"
  by (simp add: copy_in_def getb_def cec_wf_def CEC_MAX_MSG_SIZE_def nth_append)

subsection \<open>Numbers from their bytes\<close>

lemma u16_from_bytes [simp]:
  "push_bit 8 (ucast (ucast (drop_bit 8 x) :: u8)) OR ucast (ucast (x AND 0xff) :: u8) = (x :: u16)"
proof -
  have m: "(0xff :: u16) = mask 8" by (simp add: mask_eq_exp_minus_1)
  show ?thesis unfolding m
    by (rule bit_word_eqI) (auto simp: bit_simps)
qed

lemma u24_from_bytes:
  assumes "unat x < 2 ^ 24"
  shows "push_bit 16 (ucast (ucast (drop_bit 16 x) :: u8)) OR
    push_bit 8 (ucast (ucast (drop_bit 8 x AND 0xff) :: u8)) OR ucast (ucast (x AND 0xff) :: u8) = (x :: u32)"
proof -
  have m: "(0xff :: u32) = mask 8" by (simp add: mask_eq_exp_minus_1)
  have lt: "bit x n \<Longrightarrow> n < 24" for n using bit_below[OF assms] .
  show ?thesis unfolding m
  proof (rule bit_word_eqI)
    fix n :: nat
    have "n < 8 \<or> (\<exists>k < 8. n = 8 + k) \<or> (\<exists>k. n = 16 + k)" by presburger
    then show "bit (push_bit 16 (ucast (ucast (drop_bit 16 x) :: u8)) OR
        push_bit 8 (ucast (ucast (drop_bit 8 x AND mask 8) :: u8)) OR ucast (ucast (x AND mask 8) :: u8) :: u32) n = bit x n"
      by (elim disjE exE conjE) (auto simp: bit_simps dest: lt)
  qed
qed

end
