(* ===== verification/Cec_Record.thy ===== *)
theory Cec_Record
  imports Cec_Msg
begin

text \<open>
  One-touch play, routing, recording and timer messages of \<open>linux/cec-funcs.h\<close>: every message
  is filled in by a \<open>cec_msg\<close> function and taken apart by a \<open>cec_ops\<close> function.
\<close>

subsection \<open>Opcodes and operands\<close>

abbreviation (input) CEC_MSG_ACTIVE_SOURCE :: u8 where "CEC_MSG_ACTIVE_SOURCE \<equiv> 0x82"
abbreviation (input) CEC_MSG_IMAGE_VIEW_ON :: u8 where "CEC_MSG_IMAGE_VIEW_ON \<equiv> 0x04"
abbreviation (input) CEC_MSG_TEXT_VIEW_ON :: u8 where "CEC_MSG_TEXT_VIEW_ON \<equiv> 0x0d"
abbreviation (input) CEC_MSG_INACTIVE_SOURCE :: u8 where "CEC_MSG_INACTIVE_SOURCE \<equiv> 0x9d"
abbreviation (input) CEC_MSG_REQUEST_ACTIVE_SOURCE :: u8 where "CEC_MSG_REQUEST_ACTIVE_SOURCE \<equiv> 0x85"
abbreviation (input) CEC_MSG_ROUTING_INFORMATION :: u8 where "CEC_MSG_ROUTING_INFORMATION \<equiv> 0x81"
abbreviation (input) CEC_MSG_ROUTING_CHANGE :: u8 where "CEC_MSG_ROUTING_CHANGE \<equiv> 0x80"
abbreviation (input) CEC_MSG_SET_STREAM_PATH :: u8 where "CEC_MSG_SET_STREAM_PATH \<equiv> 0x86"
abbreviation (input) CEC_MSG_STANDBY :: u8 where "CEC_MSG_STANDBY \<equiv> 0x36"
abbreviation (input) CEC_MSG_RECORD_OFF :: u8 where "CEC_MSG_RECORD_OFF \<equiv> 0x0b"
abbreviation (input) CEC_MSG_RECORD_STATUS :: u8 where "CEC_MSG_RECORD_STATUS \<equiv> 0x0a"
abbreviation (input) CEC_OP_SERVICE_ID_METHOD_BY_CHANNEL :: u8 where "CEC_OP_SERVICE_ID_METHOD_BY_CHANNEL \<equiv> 1"
abbreviation (input) CEC_OP_DIG_SERVICE_BCAST_SYSTEM_ATSC_GEN :: u8 where "CEC_OP_DIG_SERVICE_BCAST_SYSTEM_ATSC_GEN \<equiv> 0x01"
abbreviation (input) CEC_OP_DIG_SERVICE_BCAST_SYSTEM_ATSC_CABLE :: u8 where "CEC_OP_DIG_SERVICE_BCAST_SYSTEM_ATSC_CABLE \<equiv> 0x10"
abbreviation (input) CEC_OP_DIG_SERVICE_BCAST_SYSTEM_ATSC_SAT :: u8 where "CEC_OP_DIG_SERVICE_BCAST_SYSTEM_ATSC_SAT \<equiv> 0x11"
abbreviation (input) CEC_OP_DIG_SERVICE_BCAST_SYSTEM_ATSC_T :: u8 where "CEC_OP_DIG_SERVICE_BCAST_SYSTEM_ATSC_T \<equiv> 0x12"
abbreviation (input) CEC_MSG_RECORD_ON :: u8 where "CEC_MSG_RECORD_ON \<equiv> 0x09"
abbreviation (input) CEC_OP_RECORD_SRC_OWN :: u8 where "CEC_OP_RECORD_SRC_OWN \<equiv> 1"
abbreviation (input) CEC_OP_RECORD_SRC_DIGITAL :: u8 where "CEC_OP_RECORD_SRC_DIGITAL \<equiv> 2"
abbreviation (input) CEC_OP_RECORD_SRC_ANALOG :: u8 where "CEC_OP_RECORD_SRC_ANALOG \<equiv> 3"
abbreviation (input) CEC_OP_RECORD_SRC_EXT_PLUG :: u8 where "CEC_OP_RECORD_SRC_EXT_PLUG \<equiv> 4"
abbreviation (input) CEC_OP_RECORD_SRC_EXT_PHYS_ADDR :: u8 where "CEC_OP_RECORD_SRC_EXT_PHYS_ADDR \<equiv> 5"
abbreviation (input) CEC_MSG_RECORD_TV_SCREEN :: u8 where "CEC_MSG_RECORD_TV_SCREEN \<equiv> 0x0f"
abbreviation (input) CEC_MSG_TIMER_STATUS :: u8 where "CEC_MSG_TIMER_STATUS \<equiv> 0x35"
abbreviation (input) CEC_OP_PROG_INFO_NOT_ENOUGH_SPACE :: u8 where "CEC_OP_PROG_INFO_NOT_ENOUGH_SPACE \<equiv> 0x09"
abbreviation (input) CEC_OP_PROG_INFO_MIGHT_NOT_BE_ENOUGH_SPACE :: u8 where "CEC_OP_PROG_INFO_MIGHT_NOT_BE_ENOUGH_SPACE \<equiv> 0x0b"
abbreviation (input) CEC_OP_PROG_ERROR_DUPLICATE :: u8 where "CEC_OP_PROG_ERROR_DUPLICATE \<equiv> 0x0e"
abbreviation (input) CEC_MSG_TIMER_CLEARED_STATUS :: u8 where "CEC_MSG_TIMER_CLEARED_STATUS \<equiv> 0x43"
abbreviation (input) CEC_MSG_CLEAR_ANALOGUE_TIMER :: u8 where "CEC_MSG_CLEAR_ANALOGUE_TIMER \<equiv> 0x33"
abbreviation (input) CEC_MSG_CLEAR_DIGITAL_TIMER :: u8 where "CEC_MSG_CLEAR_DIGITAL_TIMER \<equiv> 0x99"
abbreviation (input) CEC_MSG_CLEAR_EXT_TIMER :: u8 where "CEC_MSG_CLEAR_EXT_TIMER \<equiv> 0xa1"
abbreviation (input) CEC_MSG_SET_ANALOGUE_TIMER :: u8 where "CEC_MSG_SET_ANALOGUE_TIMER \<equiv> 0x34"
abbreviation (input) CEC_MSG_SET_DIGITAL_TIMER :: u8 where "CEC_MSG_SET_DIGITAL_TIMER \<equiv> 0x97"
abbreviation (input) CEC_MSG_SET_EXT_TIMER :: u8 where "CEC_MSG_SET_EXT_TIMER \<equiv> 0xa2"
abbreviation (input) CEC_MSG_SET_TIMER_PROGRAM_TITLE :: u8 where "CEC_MSG_SET_TIMER_PROGRAM_TITLE \<equiv> 0x67"

subsection \<open>One-touch play\<close>

definition cec_msg_active_source :: "u16 \<Rightarrow> cec_msg \<Rightarrow> cec_msg" where
  "cec_msg_active_source phys_addr m =
     (let m = m\<lparr>m_len := 4\<rparr>;
          m = setb 0 (getb m 0 OR 0xf) m;
          m = setb 1 CEC_MSG_ACTIVE_SOURCE m;
          m = setb 2 (ucast (drop_bit 8 phys_addr)) m;
          m = setb 3 (ucast (phys_addr AND 0xff)) m
      in m)"

definition cec_ops_active_source :: "cec_msg \<Rightarrow> u16" where
  "cec_ops_active_source m =
     push_bit 8 (ucast (getb m 2)) OR ucast (getb m 3)"

definition cec_msg_image_view_on :: "cec_msg \<Rightarrow> cec_msg" where
  "cec_msg_image_view_on m =
     (let m = m\<lparr>m_len := 2\<rparr>;
          m = setb 1 CEC_MSG_IMAGE_VIEW_ON m
      in m)"

definition cec_msg_text_view_on :: "cec_msg \<Rightarrow> cec_msg" where
  "cec_msg_text_view_on m =
     (let m = m\<lparr>m_len := 2\<rparr>;
          m = setb 1 CEC_MSG_TEXT_VIEW_ON m
      in m)"

subsection \<open>Routing control\<close>

definition cec_msg_inactive_source :: "u16 \<Rightarrow> cec_msg \<Rightarrow> cec_msg" where
  "cec_msg_inactive_source phys_addr m =
     (let m = m\<lparr>m_len := 4\<rparr>;
          m = setb 1 CEC_MSG_INACTIVE_SOURCE m;
          m = setb 2 (ucast (drop_bit 8 phys_addr)) m;
          m = setb 3 (ucast (phys_addr AND 0xff)) m
      in m)"

definition cec_ops_inactive_source :: "cec_msg \<Rightarrow> u16" where
  "cec_ops_inactive_source m =
     push_bit 8 (ucast (getb m 2)) OR ucast (getb m 3)"

definition cec_msg_request_active_source :: "cint \<Rightarrow> cec_msg \<Rightarrow> cec_msg" where
  "cec_msg_request_active_source reply m =
     (let m = m\<lparr>m_len := 2\<rparr>;
          m = setb 0 (getb m 0 OR 0xf) m;
          m = setb 1 CEC_MSG_REQUEST_ACTIVE_SOURCE m;
          m = m\<lparr>m_reply := (if reply \<noteq> 0 then CEC_MSG_ACTIVE_SOURCE else 0)\<rparr>
      in m)"

definition cec_msg_routing_information :: "u16 \<Rightarrow> cec_msg \<Rightarrow> cec_msg" where
  "cec_msg_routing_information phys_addr m =
     (let m = m\<lparr>m_len := 4\<rparr>;
          m = setb 0 (getb m 0 OR 0xf) m;
          m = setb 1 CEC_MSG_ROUTING_INFORMATION m;
          m = setb 2 (ucast (drop_bit 8 phys_addr)) m;
          m = setb 3 (ucast (phys_addr AND 0xff)) m
      in m)"

definition cec_ops_routing_information :: "cec_msg \<Rightarrow> u16" where
  "cec_ops_routing_information m =
     push_bit 8 (ucast (getb m 2)) OR ucast (getb m 3)"

definition cec_msg_routing_change :: "cint \<Rightarrow> u16 \<Rightarrow> u16 \<Rightarrow> cec_msg \<Rightarrow> cec_msg" where
  "cec_msg_routing_change reply orig_phys_addr new_phys_addr m =
     (let m = m\<lparr>m_len := 6\<rparr>;
          m = setb 0 (getb m 0 OR 0xf) m;
          m = setb 1 CEC_MSG_ROUTING_CHANGE m;
          m = setb 2 (ucast (drop_bit 8 orig_phys_addr)) m;
          m = setb 3 (ucast (orig_phys_addr AND 0xff)) m;
          m = setb 4 (ucast (drop_bit 8 new_phys_addr)) m;
          m = setb 5 (ucast (new_phys_addr AND 0xff)) m;
          m = m\<lparr>m_reply := (if reply \<noteq> 0 then CEC_MSG_ROUTING_INFORMATION else 0)\<rparr>
      in m)"

definition cec_ops_routing_change :: "cec_msg \<Rightarrow> u16 \<times> u16" where
  "cec_ops_routing_change m =
     (push_bit 8 (ucast (getb m 2)) OR ucast (getb m 3),
      push_bit 8 (ucast (getb m 4)) OR ucast (getb m 5))"

definition cec_msg_set_stream_path :: "u16 \<Rightarrow> cec_msg \<Rightarrow> cec_msg" where
  "cec_msg_set_stream_path phys_addr m =
     (let m = m\<lparr>m_len := 4\<rparr>;
          m = setb 0 (getb m 0 OR 0xf) m;
          m = setb 1 CEC_MSG_SET_STREAM_PATH m;
          m = setb 2 (ucast (drop_bit 8 phys_addr)) m;
          m = setb 3 (ucast (phys_addr AND 0xff)) m
      in m)"

definition cec_ops_set_stream_path :: "cec_msg \<Rightarrow> u16" where
  "cec_ops_set_stream_path m =
     push_bit 8 (ucast (getb m 2)) OR ucast (getb m 3)"

subsection \<open>Standby\<close>

definition cec_msg_standby :: "cec_msg \<Rightarrow> cec_msg" where
  "cec_msg_standby m =
     (let m = m\<lparr>m_len := 2\<rparr>;
          m = setb 1 CEC_MSG_STANDBY m
      in m)"

subsection \<open>One-touch record\<close>

definition cec_msg_record_off :: "cint \<Rightarrow> cec_msg \<Rightarrow> cec_msg" where
  "cec_msg_record_off reply m =
     (let m = m\<lparr>m_len := 2\<rparr>;
          m = setb 1 CEC_MSG_RECORD_OFF m;
          m = m\<lparr>m_reply := (if reply \<noteq> 0 then CEC_MSG_RECORD_STATUS else 0)\<rparr>
      in m)"

text \<open>
  The service identifier is a union of four structs of 16-bit words. Its storage is modelled as
  three words in the layout of a little-endian host, so that writing one member and reading
  another means what it means there: the members \<open>arib\<close>, \<open>atsc\<close> and \<open>dvb\<close> are the words, and
  \<open>channel_number_fmt\<close> is the low byte of the first.
\<close>

record digital_service_id =
  service_id_method :: u8
  dig_bcast_system :: u8
  sw0 :: u16
  sw1 :: u16
  sw2 :: u16

abbreviation atsc_transport_id :: "digital_service_id \<Rightarrow> u16" where "atsc_transport_id \<equiv> sw0"
abbreviation atsc_program_number :: "digital_service_id \<Rightarrow> u16" where "atsc_program_number \<equiv> sw1"
abbreviation dvb_transport_id :: "digital_service_id \<Rightarrow> u16" where "dvb_transport_id \<equiv> sw0"
abbreviation dvb_service_id :: "digital_service_id \<Rightarrow> u16" where "dvb_service_id \<equiv> sw1"
abbreviation dvb_orig_network_id :: "digital_service_id \<Rightarrow> u16" where "dvb_orig_network_id \<equiv> sw2"
abbreviation channel_major :: "digital_service_id \<Rightarrow> u16" where "channel_major \<equiv> sw1"
abbreviation channel_minor :: "digital_service_id \<Rightarrow> u16" where "channel_minor \<equiv> sw2"

definition channel_number_fmt :: "digital_service_id \<Rightarrow> u8" where
  "channel_number_fmt d = ucast (sw0 d)"

definition set_channel :: "u8 \<Rightarrow> u16 \<Rightarrow> u16 \<Rightarrow> digital_service_id \<Rightarrow> digital_service_id" where
  "set_channel fmt maj mnr d = d\<lparr>sw0 := (sw0 d AND 0xff00) OR ucast fmt, sw1 := maj, sw2 := mnr\<rparr>"

text \<open>The source of a recording: the type byte and the union member it selects.\<close>

datatype record_src =
    SrcOwn
  | SrcDigital digital_service_id
  | SrcAnalog u8 u16 u8
  | SrcExtPlug u8
  | SrcExtPhysAddr u16
  | SrcOther u8

definition cec_set_digital_service_id :: "nat \<Rightarrow> digital_service_id \<Rightarrow> cec_msg \<Rightarrow> cec_msg" where
  "cec_set_digital_service_id off digital m =
     (let m = setb off (push_bit 7 (service_id_method digital) OR dig_bcast_system digital) m in
      if service_id_method digital = CEC_OP_SERVICE_ID_METHOD_BY_CHANNEL then
        (let m = setb (off + 1) (push_bit 2 (channel_number_fmt digital) OR ucast (drop_bit 8 (channel_major digital))) m;
             m = setb (off + 2) (ucast (channel_major digital AND 0xff)) m;
             m = setb (off + 3) (ucast (drop_bit 8 (channel_minor digital))) m;
             m = setb (off + 4) (ucast (channel_minor digital AND 0xff)) m;
             m = setb (off + 5) 0 m
         in setb (off + 6) 0 m)
      else if dig_bcast_system digital = CEC_OP_DIG_SERVICE_BCAST_SYSTEM_ATSC_GEN
          \<or> dig_bcast_system digital = CEC_OP_DIG_SERVICE_BCAST_SYSTEM_ATSC_CABLE
          \<or> dig_bcast_system digital = CEC_OP_DIG_SERVICE_BCAST_SYSTEM_ATSC_SAT
          \<or> dig_bcast_system digital = CEC_OP_DIG_SERVICE_BCAST_SYSTEM_ATSC_T then
        (let m = setb (off + 1) (ucast (drop_bit 8 (atsc_transport_id digital))) m;
             m = setb (off + 2) (ucast (atsc_transport_id digital AND 0xff)) m;
             m = setb (off + 3) (ucast (drop_bit 8 (atsc_program_number digital))) m;
             m = setb (off + 4) (ucast (atsc_program_number digital AND 0xff)) m;
             m = setb (off + 5) 0 m
         in setb (off + 6) 0 m)
      else
        (let m = setb (off + 1) (ucast (drop_bit 8 (dvb_transport_id digital))) m;
             m = setb (off + 2) (ucast (dvb_transport_id digital AND 0xff)) m;
             m = setb (off + 3) (ucast (drop_bit 8 (dvb_service_id digital))) m;
             m = setb (off + 4) (ucast (dvb_service_id digital AND 0xff)) m;
             m = setb (off + 5) (ucast (drop_bit 8 (dvb_orig_network_id digital))) m
         in setb (off + 6) (ucast (dvb_orig_network_id digital AND 0xff)) m))"

definition cec_get_digital_service_id :: "nat \<Rightarrow> cec_msg \<Rightarrow> digital_service_id \<Rightarrow> digital_service_id" where
  "cec_get_digital_service_id off m digital =
     (let d = digital\<lparr>service_id_method := drop_bit 7 (getb m off),
                       dig_bcast_system := getb m off AND 0x7f\<rparr> in
      if service_id_method d = CEC_OP_SERVICE_ID_METHOD_BY_CHANNEL then
        set_channel (drop_bit 2 (getb m (off + 1)))
          (push_bit 6 (ucast (getb m (off + 1) AND 3)) OR ucast (getb m (off + 2)))
          (push_bit 8 (ucast (getb m (off + 3))) OR ucast (getb m (off + 4))) d
      else
        d\<lparr>sw0 := push_bit 8 (ucast (getb m (off + 1))) OR ucast (getb m (off + 2)),
          sw1 := push_bit 8 (ucast (getb m (off + 3))) OR ucast (getb m (off + 4)),
          sw2 := push_bit 8 (ucast (getb m (off + 5))) OR ucast (getb m (off + 6))\<rparr>)"

definition cec_msg_record_on_own :: "cec_msg \<Rightarrow> cec_msg" where
  "cec_msg_record_on_own m =
     (let m = m\<lparr>m_len := 3\<rparr>;
          m = setb 1 CEC_MSG_RECORD_ON m;
          m = setb 2 CEC_OP_RECORD_SRC_OWN m
      in m)"

definition cec_msg_record_on_digital :: "digital_service_id \<Rightarrow> cec_msg \<Rightarrow> cec_msg" where
  "cec_msg_record_on_digital digital m =
     (let m = m\<lparr>m_len := 10\<rparr>;
          m = setb 1 CEC_MSG_RECORD_ON m;
          m = setb 2 CEC_OP_RECORD_SRC_DIGITAL m;
          m = cec_set_digital_service_id 3 digital m
      in m)"

definition cec_msg_record_on_analog :: "u8 \<Rightarrow> u16 \<Rightarrow> u8 \<Rightarrow> cec_msg \<Rightarrow> cec_msg" where
  "cec_msg_record_on_analog ana_bcast_type ana_freq bcast_system m =
     (let m = m\<lparr>m_len := 7\<rparr>;
          m = setb 1 CEC_MSG_RECORD_ON m;
          m = setb 2 CEC_OP_RECORD_SRC_ANALOG m;
          m = setb 3 ana_bcast_type m;
          m = setb 4 (ucast (drop_bit 8 ana_freq)) m;
          m = setb 5 (ucast (ana_freq AND 0xff)) m;
          m = setb 6 bcast_system m
      in m)"

definition cec_msg_record_on_plug :: "u8 \<Rightarrow> cec_msg \<Rightarrow> cec_msg" where
  "cec_msg_record_on_plug plug m =
     (let m = m\<lparr>m_len := 4\<rparr>;
          m = setb 1 CEC_MSG_RECORD_ON m;
          m = setb 2 CEC_OP_RECORD_SRC_EXT_PLUG m;
          m = setb 3 plug m
      in m)"

definition cec_msg_record_on_phys_addr :: "u16 \<Rightarrow> cec_msg \<Rightarrow> cec_msg" where
  "cec_msg_record_on_phys_addr phys_addr m =
     (let m = m\<lparr>m_len := 5\<rparr>;
          m = setb 1 CEC_MSG_RECORD_ON m;
          m = setb 2 CEC_OP_RECORD_SRC_EXT_PHYS_ADDR m;
          m = setb 3 (ucast (drop_bit 8 phys_addr)) m;
          m = setb 4 (ucast (phys_addr AND 0xff)) m
      in m)"

fun cec_msg_record_on :: "cint \<Rightarrow> record_src \<Rightarrow> cec_msg \<Rightarrow> cec_msg" where
  "cec_msg_record_on reply rec_src m =
     (let m = (case rec_src of
                 SrcOwn \<Rightarrow> cec_msg_record_on_own m
               | SrcDigital digital \<Rightarrow> cec_msg_record_on_digital digital m
               | SrcAnalog ana_bcast_type ana_freq bcast_system \<Rightarrow>
                   cec_msg_record_on_analog ana_bcast_type ana_freq bcast_system m
               | SrcExtPlug plug \<Rightarrow> cec_msg_record_on_plug plug m
               | SrcExtPhysAddr phys_addr \<Rightarrow> cec_msg_record_on_phys_addr phys_addr m
               | SrcOther _ \<Rightarrow> m)
      in m\<lparr>m_reply := (if reply \<noteq> 0 then CEC_MSG_RECORD_STATUS else 0)\<rparr>)"

definition cec_ops_record_on :: "cec_msg \<Rightarrow> digital_service_id \<Rightarrow> record_src" where
  "cec_ops_record_on m digital =
     (if getb m 2 = CEC_OP_RECORD_SRC_OWN then SrcOwn
      else if getb m 2 = CEC_OP_RECORD_SRC_DIGITAL then SrcDigital (cec_get_digital_service_id 3 m digital)
      else if getb m 2 = CEC_OP_RECORD_SRC_ANALOG then
        SrcAnalog (getb m 3) (push_bit 8 (ucast (getb m 4)) OR ucast (getb m 5)) (getb m 6)
      else if getb m 2 = CEC_OP_RECORD_SRC_EXT_PLUG then SrcExtPlug (getb m 3)
      else if getb m 2 = CEC_OP_RECORD_SRC_EXT_PHYS_ADDR then
        SrcExtPhysAddr (push_bit 8 (ucast (getb m 3)) OR ucast (getb m 4))
      else SrcOther (getb m 2))"

definition cec_msg_record_status :: "u8 \<Rightarrow> cec_msg \<Rightarrow> cec_msg" where
  "cec_msg_record_status rec_status m =
     (let m = m\<lparr>m_len := 3\<rparr>;
          m = setb 1 CEC_MSG_RECORD_STATUS m;
          m = setb 2 rec_status m
      in m)"

definition cec_ops_record_status :: "cec_msg \<Rightarrow> u8" where
  "cec_ops_record_status m =
     getb m 2"

definition cec_msg_record_tv_screen :: "cint \<Rightarrow> cec_msg \<Rightarrow> cec_msg" where
  "cec_msg_record_tv_screen reply m =
     (let m = m\<lparr>m_len := 2\<rparr>;
          m = setb 1 CEC_MSG_RECORD_TV_SCREEN m;
          m = m\<lparr>m_reply := (if reply \<noteq> 0 then CEC_MSG_RECORD_ON else 0)\<rparr>
      in m)"

subsection \<open>Timer programming\<close>

definition cec_msg_timer_status :: "u8 \<Rightarrow> u8 \<Rightarrow> u8 \<Rightarrow> u8 \<Rightarrow> u8 \<Rightarrow> u8 \<Rightarrow> cec_msg \<Rightarrow> cec_msg" where
  "cec_msg_timer_status timer_overlap_warning media_info prog_info prog_error duration_hr duration_min m =
     (let m = m\<lparr>m_len := 3\<rparr>;
          m = setb 1 CEC_MSG_TIMER_STATUS m;
          m = setb 2 (push_bit 7 timer_overlap_warning OR push_bit 5 media_info OR
                (if prog_info \<noteq> 0 then 0x10 else 0) OR (if prog_info \<noteq> 0 then prog_info else prog_error)) m
      in if prog_info = CEC_OP_PROG_INFO_NOT_ENOUGH_SPACE
            \<or> prog_info = CEC_OP_PROG_INFO_MIGHT_NOT_BE_ENOUGH_SPACE
            \<or> prog_error = CEC_OP_PROG_ERROR_DUPLICATE
         then (let m = m\<lparr>m_len := m_len m + 2\<rparr>;
                   m = setb 3 (push_bit 4 (duration_hr div 10) OR (duration_hr mod 10)) m
               in setb 4 (push_bit 4 (duration_min div 10) OR (duration_min mod 10)) m)
         else m)"

definition cec_ops_timer_status :: "cec_msg \<Rightarrow> u8 \<times> u8 \<times> u8 \<times> u8 \<times> u8 \<times> u8" where
  "cec_ops_timer_status m =
     (let timer_overlap_warning = drop_bit 7 (getb m 2);
          media_info = drop_bit 5 (getb m 2) AND 3;
          prog_info = (if getb m 2 AND 0x10 \<noteq> 0 then getb m 2 AND 0xf else 0);
          prog_error = (if getb m 2 AND 0x10 \<noteq> 0 then 0 else getb m 2 AND 0xf)
      in if prog_info = CEC_OP_PROG_INFO_NOT_ENOUGH_SPACE
            \<or> prog_info = CEC_OP_PROG_INFO_MIGHT_NOT_BE_ENOUGH_SPACE
            \<or> prog_error = CEC_OP_PROG_ERROR_DUPLICATE
         then (timer_overlap_warning, media_info, prog_info, prog_error,
               drop_bit 4 (getb m 3) * 10 + (getb m 3 AND 0xf),
               drop_bit 4 (getb m 4) * 10 + (getb m 4 AND 0xf))
         else (timer_overlap_warning, media_info, prog_info, prog_error, 0, 0))"

definition cec_msg_timer_cleared_status :: "u8 \<Rightarrow> cec_msg \<Rightarrow> cec_msg" where
  "cec_msg_timer_cleared_status timer_cleared_status m =
     (let m = m\<lparr>m_len := 3\<rparr>;
          m = setb 1 CEC_MSG_TIMER_CLEARED_STATUS m;
          m = setb 2 timer_cleared_status m
      in m)"

definition cec_ops_timer_cleared_status :: "cec_msg \<Rightarrow> u8" where
  "cec_ops_timer_cleared_status m =
     getb m 2"

definition cec_msg_clear_analogue_timer :: "cint \<Rightarrow> u8 \<Rightarrow> u8 \<Rightarrow> u8 \<Rightarrow> u8 \<Rightarrow> u8 \<Rightarrow> u8 \<Rightarrow> u8 \<Rightarrow> u8 \<Rightarrow> u16 \<Rightarrow> u8 \<Rightarrow> cec_msg \<Rightarrow> cec_msg" where
  "cec_msg_clear_analogue_timer reply day month start_hr start_min duration_hr duration_min recording_seq ana_bcast_type ana_freq bcast_system m =
     (let m = m\<lparr>m_len := 13\<rparr>;
          m = setb 1 CEC_MSG_CLEAR_ANALOGUE_TIMER m;
          m = setb 2 day m;
          m = setb 3 month m;
          m = setb 4 (push_bit 4 (start_hr div 10) OR (start_hr mod 10)) m;
          m = setb 5 (push_bit 4 (start_min div 10) OR (start_min mod 10)) m;
          m = setb 6 (push_bit 4 (duration_hr div 10) OR (duration_hr mod 10)) m;
          m = setb 7 (push_bit 4 (duration_min div 10) OR (duration_min mod 10)) m;
          m = setb 8 recording_seq m;
          m = setb 9 ana_bcast_type m;
          m = setb 10 (ucast (drop_bit 8 ana_freq)) m;
          m = setb 11 (ucast (ana_freq AND 0xff)) m;
          m = setb 12 bcast_system m;
          m = m\<lparr>m_reply := (if reply \<noteq> 0 then CEC_MSG_TIMER_CLEARED_STATUS else 0)\<rparr>
      in m)"

definition cec_ops_clear_analogue_timer :: "cec_msg \<Rightarrow> u8 \<times> u8 \<times> u8 \<times> u8 \<times> u8 \<times> u8 \<times> u8 \<times> u8 \<times> u16 \<times> u8" where
  "cec_ops_clear_analogue_timer m =
     (getb m 2,
      getb m 3,
      drop_bit 4 (getb m 4) * 10 + (getb m 4 AND 0xf),
      drop_bit 4 (getb m 5) * 10 + (getb m 5 AND 0xf),
      drop_bit 4 (getb m 6) * 10 + (getb m 6 AND 0xf),
      drop_bit 4 (getb m 7) * 10 + (getb m 7 AND 0xf),
      getb m 8,
      getb m 9,
      push_bit 8 (ucast (getb m 10)) OR ucast (getb m 11),
      getb m 12)"

definition cec_msg_clear_digital_timer :: "cint \<Rightarrow> u8 \<Rightarrow> u8 \<Rightarrow> u8 \<Rightarrow> u8 \<Rightarrow> u8 \<Rightarrow> u8 \<Rightarrow> u8 \<Rightarrow> digital_service_id \<Rightarrow> cec_msg \<Rightarrow> cec_msg" where
  "cec_msg_clear_digital_timer reply day month start_hr start_min duration_hr duration_min recording_seq digital m =
     (let m = m\<lparr>m_len := 16\<rparr>;
          m = m\<lparr>m_reply := (if reply \<noteq> 0 then CEC_MSG_TIMER_CLEARED_STATUS else 0)\<rparr>;
          m = setb 1 CEC_MSG_CLEAR_DIGITAL_TIMER m;
          m = setb 2 day m;
          m = setb 3 month m;
          m = setb 4 (push_bit 4 (start_hr div 10) OR (start_hr mod 10)) m;
          m = setb 5 (push_bit 4 (start_min div 10) OR (start_min mod 10)) m;
          m = setb 6 (push_bit 4 (duration_hr div 10) OR (duration_hr mod 10)) m;
          m = setb 7 (push_bit 4 (duration_min div 10) OR (duration_min mod 10)) m;
          m = setb 8 recording_seq m;
          m = cec_set_digital_service_id 9 digital m
      in m)"

definition cec_ops_clear_digital_timer :: "cec_msg \<Rightarrow> digital_service_id \<Rightarrow> u8 \<times> u8 \<times> u8 \<times> u8 \<times> u8 \<times> u8 \<times> u8 \<times> digital_service_id" where
  "cec_ops_clear_digital_timer m digital =
     (getb m 2,
      getb m 3,
      drop_bit 4 (getb m 4) * 10 + (getb m 4 AND 0xf),
      drop_bit 4 (getb m 5) * 10 + (getb m 5 AND 0xf),
      drop_bit 4 (getb m 6) * 10 + (getb m 6 AND 0xf),
      drop_bit 4 (getb m 7) * 10 + (getb m 7 AND 0xf),
      getb m 8,
      cec_get_digital_service_id 9 m digital)"

definition cec_msg_clear_ext_timer :: "cint \<Rightarrow> u8 \<Rightarrow> u8 \<Rightarrow> u8 \<Rightarrow> u8 \<Rightarrow> u8 \<Rightarrow> u8 \<Rightarrow> u8 \<Rightarrow> u8 \<Rightarrow> u8 \<Rightarrow> u16 \<Rightarrow> cec_msg \<Rightarrow> cec_msg" where
  "cec_msg_clear_ext_timer reply day month start_hr start_min duration_hr duration_min recording_seq ext_src_spec plug phys_addr m =
     (let m = m\<lparr>m_len := 13\<rparr>;
          m = setb 1 CEC_MSG_CLEAR_EXT_TIMER m;
          m = setb 2 day m;
          m = setb 3 month m;
          m = setb 4 (push_bit 4 (start_hr div 10) OR (start_hr mod 10)) m;
          m = setb 5 (push_bit 4 (start_min div 10) OR (start_min mod 10)) m;
          m = setb 6 (push_bit 4 (duration_hr div 10) OR (duration_hr mod 10)) m;
          m = setb 7 (push_bit 4 (duration_min div 10) OR (duration_min mod 10)) m;
          m = setb 8 recording_seq m;
          m = setb 9 ext_src_spec m;
          m = setb 10 plug m;
          m = setb 11 (ucast (drop_bit 8 phys_addr)) m;
          m = setb 12 (ucast (phys_addr AND 0xff)) m;
          m = m\<lparr>m_reply := (if reply \<noteq> 0 then CEC_MSG_TIMER_CLEARED_STATUS else 0)\<rparr>
      in m)"

definition cec_ops_clear_ext_timer :: "cec_msg \<Rightarrow> u8 \<times> u8 \<times> u8 \<times> u8 \<times> u8 \<times> u8 \<times> u8 \<times> u8 \<times> u8 \<times> u16" where
  "cec_ops_clear_ext_timer m =
     (getb m 2,
      getb m 3,
      drop_bit 4 (getb m 4) * 10 + (getb m 4 AND 0xf),
      drop_bit 4 (getb m 5) * 10 + (getb m 5 AND 0xf),
      drop_bit 4 (getb m 6) * 10 + (getb m 6 AND 0xf),
      drop_bit 4 (getb m 7) * 10 + (getb m 7 AND 0xf),
      getb m 8,
      getb m 9,
      getb m 10,
      push_bit 8 (ucast (getb m 11)) OR ucast (getb m 12))"

definition cec_msg_set_analogue_timer :: "cint \<Rightarrow> u8 \<Rightarrow> u8 \<Rightarrow> u8 \<Rightarrow> u8 \<Rightarrow> u8 \<Rightarrow> u8 \<Rightarrow> u8 \<Rightarrow> u8 \<Rightarrow> u16 \<Rightarrow> u8 \<Rightarrow> cec_msg \<Rightarrow> cec_msg" where
  "cec_msg_set_analogue_timer reply day month start_hr start_min duration_hr duration_min recording_seq ana_bcast_type ana_freq bcast_system m =
     (let m = m\<lparr>m_len := 13\<rparr>;
          m = setb 1 CEC_MSG_SET_ANALOGUE_TIMER m;
          m = setb 2 day m;
          m = setb 3 month m;
          m = setb 4 (push_bit 4 (start_hr div 10) OR (start_hr mod 10)) m;
          m = setb 5 (push_bit 4 (start_min div 10) OR (start_min mod 10)) m;
          m = setb 6 (push_bit 4 (duration_hr div 10) OR (duration_hr mod 10)) m;
          m = setb 7 (push_bit 4 (duration_min div 10) OR (duration_min mod 10)) m;
          m = setb 8 recording_seq m;
          m = setb 9 ana_bcast_type m;
          m = setb 10 (ucast (drop_bit 8 ana_freq)) m;
          m = setb 11 (ucast (ana_freq AND 0xff)) m;
          m = setb 12 bcast_system m;
          m = m\<lparr>m_reply := (if reply \<noteq> 0 then CEC_MSG_TIMER_STATUS else 0)\<rparr>
      in m)"

definition cec_ops_set_analogue_timer :: "cec_msg \<Rightarrow> u8 \<times> u8 \<times> u8 \<times> u8 \<times> u8 \<times> u8 \<times> u8 \<times> u8 \<times> u16 \<times> u8" where
  "cec_ops_set_analogue_timer m =
     (getb m 2,
      getb m 3,
      drop_bit 4 (getb m 4) * 10 + (getb m 4 AND 0xf),
      drop_bit 4 (getb m 5) * 10 + (getb m 5 AND 0xf),
      drop_bit 4 (getb m 6) * 10 + (getb m 6 AND 0xf),
      drop_bit 4 (getb m 7) * 10 + (getb m 7 AND 0xf),
      getb m 8,
      getb m 9,
      push_bit 8 (ucast (getb m 10)) OR ucast (getb m 11),
      getb m 12)"

definition cec_msg_set_digital_timer :: "cint \<Rightarrow> u8 \<Rightarrow> u8 \<Rightarrow> u8 \<Rightarrow> u8 \<Rightarrow> u8 \<Rightarrow> u8 \<Rightarrow> u8 \<Rightarrow> digital_service_id \<Rightarrow> cec_msg \<Rightarrow> cec_msg" where
  "cec_msg_set_digital_timer reply day month start_hr start_min duration_hr duration_min recording_seq digital m =
     (let m = m\<lparr>m_len := 16\<rparr>;
          m = m\<lparr>m_reply := (if reply \<noteq> 0 then CEC_MSG_TIMER_STATUS else 0)\<rparr>;
          m = setb 1 CEC_MSG_SET_DIGITAL_TIMER m;
          m = setb 2 day m;
          m = setb 3 month m;
          m = setb 4 (push_bit 4 (start_hr div 10) OR (start_hr mod 10)) m;
          m = setb 5 (push_bit 4 (start_min div 10) OR (start_min mod 10)) m;
          m = setb 6 (push_bit 4 (duration_hr div 10) OR (duration_hr mod 10)) m;
          m = setb 7 (push_bit 4 (duration_min div 10) OR (duration_min mod 10)) m;
          m = setb 8 recording_seq m;
          m = cec_set_digital_service_id 9 digital m
      in m)"

definition cec_ops_set_digital_timer :: "cec_msg \<Rightarrow> digital_service_id \<Rightarrow> u8 \<times> u8 \<times> u8 \<times> u8 \<times> u8 \<times> u8 \<times> u8 \<times> digital_service_id" where
  "cec_ops_set_digital_timer m digital =
     (getb m 2,
      getb m 3,
      drop_bit 4 (getb m 4) * 10 + (getb m 4 AND 0xf),
      drop_bit 4 (getb m 5) * 10 + (getb m 5 AND 0xf),
      drop_bit 4 (getb m 6) * 10 + (getb m 6 AND 0xf),
      drop_bit 4 (getb m 7) * 10 + (getb m 7 AND 0xf),
      getb m 8,
      cec_get_digital_service_id 9 m digital)"

definition cec_msg_set_ext_timer :: "cint \<Rightarrow> u8 \<Rightarrow> u8 \<Rightarrow> u8 \<Rightarrow> u8 \<Rightarrow> u8 \<Rightarrow> u8 \<Rightarrow> u8 \<Rightarrow> u8 \<Rightarrow> u8 \<Rightarrow> u16 \<Rightarrow> cec_msg \<Rightarrow> cec_msg" where
  "cec_msg_set_ext_timer reply day month start_hr start_min duration_hr duration_min recording_seq ext_src_spec plug phys_addr m =
     (let m = m\<lparr>m_len := 13\<rparr>;
          m = setb 1 CEC_MSG_SET_EXT_TIMER m;
          m = setb 2 day m;
          m = setb 3 month m;
          m = setb 4 (push_bit 4 (start_hr div 10) OR (start_hr mod 10)) m;
          m = setb 5 (push_bit 4 (start_min div 10) OR (start_min mod 10)) m;
          m = setb 6 (push_bit 4 (duration_hr div 10) OR (duration_hr mod 10)) m;
          m = setb 7 (push_bit 4 (duration_min div 10) OR (duration_min mod 10)) m;
          m = setb 8 recording_seq m;
          m = setb 9 ext_src_spec m;
          m = setb 10 plug m;
          m = setb 11 (ucast (drop_bit 8 phys_addr)) m;
          m = setb 12 (ucast (phys_addr AND 0xff)) m;
          m = m\<lparr>m_reply := (if reply \<noteq> 0 then CEC_MSG_TIMER_STATUS else 0)\<rparr>
      in m)"

definition cec_ops_set_ext_timer :: "cec_msg \<Rightarrow> u8 \<times> u8 \<times> u8 \<times> u8 \<times> u8 \<times> u8 \<times> u8 \<times> u8 \<times> u8 \<times> u16" where
  "cec_ops_set_ext_timer m =
     (getb m 2,
      getb m 3,
      drop_bit 4 (getb m 4) * 10 + (getb m 4 AND 0xf),
      drop_bit 4 (getb m 5) * 10 + (getb m 5 AND 0xf),
      drop_bit 4 (getb m 6) * 10 + (getb m 6 AND 0xf),
      drop_bit 4 (getb m 7) * 10 + (getb m 7 AND 0xf),
      getb m 8,
      getb m 9,
      getb m 10,
      push_bit 8 (ucast (getb m 11)) OR ucast (getb m 12))"

definition cec_msg_set_timer_program_title :: "u8 list \<Rightarrow> cec_msg \<Rightarrow> cec_msg" where
  "cec_msg_set_timer_program_title prog_title m =
     (let len = min (length prog_title) 14;
          m = m\<lparr>m_len := 2 + of_nat len\<rparr>;
          m = setb 1 CEC_MSG_SET_TIMER_PROGRAM_TITLE m
      in copy_in 2 (take len prog_title) m)"

definition cec_ops_set_timer_program_title :: "cec_msg \<Rightarrow> u8 list" where
  "cec_ops_set_timer_program_title m =
     (let len = (if 2 < m_len m then unat (m_len m - 2) else 0)
      in copy_out 2 (min len 14) m @ [0])"

end
