(* ===== verification/Cec_Device.thy ===== *)
theory Cec_Device
  imports Cec_Record
begin

text \<open>
  System information, deck, tuner, vendor, display, menu and remote-control messages of
  \<open>linux/cec-funcs.h\<close>. A pointer into the message that a \<open>cec_ops\<close> function returns is its offset.
\<close>

subsection \<open>Opcodes and operands\<close>

abbreviation (input) CEC_MSG_CEC_VERSION :: u8 where "CEC_MSG_CEC_VERSION \<equiv> 0x9e"
abbreviation (input) CEC_MSG_GET_CEC_VERSION :: u8 where "CEC_MSG_GET_CEC_VERSION \<equiv> 0x9f"
abbreviation (input) CEC_MSG_REPORT_PHYSICAL_ADDR :: u8 where "CEC_MSG_REPORT_PHYSICAL_ADDR \<equiv> 0x84"
abbreviation (input) CEC_MSG_GIVE_PHYSICAL_ADDR :: u8 where "CEC_MSG_GIVE_PHYSICAL_ADDR \<equiv> 0x83"
abbreviation (input) CEC_MSG_SET_MENU_LANGUAGE :: u8 where "CEC_MSG_SET_MENU_LANGUAGE \<equiv> 0x32"
abbreviation (input) CEC_MSG_GET_MENU_LANGUAGE :: u8 where "CEC_MSG_GET_MENU_LANGUAGE \<equiv> 0x91"
abbreviation (input) CEC_MSG_REPORT_FEATURES :: u8 where "CEC_MSG_REPORT_FEATURES \<equiv> 0xa6"
abbreviation (input) CEC_OP_FEAT_EXT :: u8 where "CEC_OP_FEAT_EXT \<equiv> 0x80"
abbreviation (input) CEC_MSG_GIVE_FEATURES :: u8 where "CEC_MSG_GIVE_FEATURES \<equiv> 0xa5"
abbreviation (input) CEC_MSG_DECK_CONTROL :: u8 where "CEC_MSG_DECK_CONTROL \<equiv> 0x42"
abbreviation (input) CEC_MSG_DECK_STATUS :: u8 where "CEC_MSG_DECK_STATUS \<equiv> 0x1b"
abbreviation (input) CEC_MSG_GIVE_DECK_STATUS :: u8 where "CEC_MSG_GIVE_DECK_STATUS \<equiv> 0x1a"
abbreviation (input) CEC_MSG_PLAY :: u8 where "CEC_MSG_PLAY \<equiv> 0x41"
abbreviation (input) CEC_MSG_TUNER_DEVICE_STATUS :: u8 where "CEC_MSG_TUNER_DEVICE_STATUS \<equiv> 0x07"
abbreviation (input) CEC_MSG_GIVE_TUNER_DEVICE_STATUS :: u8 where "CEC_MSG_GIVE_TUNER_DEVICE_STATUS \<equiv> 0x08"
abbreviation (input) CEC_MSG_SELECT_ANALOGUE_SERVICE :: u8 where "CEC_MSG_SELECT_ANALOGUE_SERVICE \<equiv> 0x92"
abbreviation (input) CEC_MSG_SELECT_DIGITAL_SERVICE :: u8 where "CEC_MSG_SELECT_DIGITAL_SERVICE \<equiv> 0x93"
abbreviation (input) CEC_MSG_TUNER_STEP_DECREMENT :: u8 where "CEC_MSG_TUNER_STEP_DECREMENT \<equiv> 0x06"
abbreviation (input) CEC_MSG_TUNER_STEP_INCREMENT :: u8 where "CEC_MSG_TUNER_STEP_INCREMENT \<equiv> 0x05"
abbreviation (input) CEC_MSG_DEVICE_VENDOR_ID :: u8 where "CEC_MSG_DEVICE_VENDOR_ID \<equiv> 0x87"
abbreviation (input) CEC_MSG_GIVE_DEVICE_VENDOR_ID :: u8 where "CEC_MSG_GIVE_DEVICE_VENDOR_ID \<equiv> 0x8c"
abbreviation (input) CEC_MSG_VENDOR_COMMAND :: u8 where "CEC_MSG_VENDOR_COMMAND \<equiv> 0x89"
abbreviation (input) CEC_MSG_VENDOR_COMMAND_WITH_ID :: u8 where "CEC_MSG_VENDOR_COMMAND_WITH_ID \<equiv> 0xa0"
abbreviation (input) CEC_MSG_VENDOR_REMOTE_BUTTON_DOWN :: u8 where "CEC_MSG_VENDOR_REMOTE_BUTTON_DOWN \<equiv> 0x8a"
abbreviation (input) CEC_MSG_VENDOR_REMOTE_BUTTON_UP :: u8 where "CEC_MSG_VENDOR_REMOTE_BUTTON_UP \<equiv> 0x8b"
abbreviation (input) CEC_MSG_SET_OSD_STRING :: u8 where "CEC_MSG_SET_OSD_STRING \<equiv> 0x64"
abbreviation (input) CEC_MSG_SET_OSD_NAME :: u8 where "CEC_MSG_SET_OSD_NAME \<equiv> 0x47"
abbreviation (input) CEC_MSG_GIVE_OSD_NAME :: u8 where "CEC_MSG_GIVE_OSD_NAME \<equiv> 0x46"
abbreviation (input) CEC_MSG_MENU_STATUS :: u8 where "CEC_MSG_MENU_STATUS \<equiv> 0x8e"
abbreviation (input) CEC_MSG_MENU_REQUEST :: u8 where "CEC_MSG_MENU_REQUEST \<equiv> 0x8d"
abbreviation (input) CEC_MSG_USER_CONTROL_PRESSED :: u8 where "CEC_MSG_USER_CONTROL_PRESSED \<equiv> 0x44"
abbreviation (input) CEC_MSG_USER_CONTROL_RELEASED :: u8 where "CEC_MSG_USER_CONTROL_RELEASED \<equiv> 0x45"

subsection \<open>System information\<close>

definition cec_msg_cec_version :: "u8 \<Rightarrow> cec_msg \<Rightarrow> cec_msg" where
  "cec_msg_cec_version cec_version m =
     (let m = m\<lparr>m_len := 3\<rparr>;
          m = setb 1 CEC_MSG_CEC_VERSION m;
          m = setb 2 cec_version m
      in m)"

definition cec_ops_cec_version :: "cec_msg \<Rightarrow> u8" where
  "cec_ops_cec_version m =
     getb m 2"

definition cec_msg_get_cec_version :: "cint \<Rightarrow> cec_msg \<Rightarrow> cec_msg" where
  "cec_msg_get_cec_version reply m =
     (let m = m\<lparr>m_len := 2\<rparr>;
          m = setb 1 CEC_MSG_GET_CEC_VERSION m;
          m = m\<lparr>m_reply := (if reply \<noteq> 0 then CEC_MSG_CEC_VERSION else 0)\<rparr>
      in m)"

definition cec_msg_report_physical_addr :: "u16 \<Rightarrow> u8 \<Rightarrow> cec_msg \<Rightarrow> cec_msg" where
  "cec_msg_report_physical_addr phys_addr prim_devtype m =
     (let m = m\<lparr>m_len := 5\<rparr>;
          m = setb 0 (getb m 0 OR 0xf) m;
          m = setb 1 CEC_MSG_REPORT_PHYSICAL_ADDR m;
          m = setb 2 (ucast (drop_bit 8 phys_addr)) m;
          m = setb 3 (ucast (phys_addr AND 0xff)) m;
          m = setb 4 prim_devtype m
      in m)"

definition cec_ops_report_physical_addr :: "cec_msg \<Rightarrow> u16 \<times> u8" where
  "cec_ops_report_physical_addr m =
     (push_bit 8 (ucast (getb m 2)) OR ucast (getb m 3),
      getb m 4)"

definition cec_msg_give_physical_addr :: "cint \<Rightarrow> cec_msg \<Rightarrow> cec_msg" where
  "cec_msg_give_physical_addr reply m =
     (let m = m\<lparr>m_len := 2\<rparr>;
          m = setb 1 CEC_MSG_GIVE_PHYSICAL_ADDR m;
          m = m\<lparr>m_reply := (if reply \<noteq> 0 then CEC_MSG_REPORT_PHYSICAL_ADDR else 0)\<rparr>
      in m)"

definition cec_msg_set_menu_language :: "u8 list \<Rightarrow> cec_msg \<Rightarrow> cec_msg res" where
  "cec_msg_set_menu_language language m =
     (let m = m\<lparr>m_len := 5\<rparr>;
          m = setb 0 (getb m 0 OR 0xf) m;
          m = setb 1 CEC_MSG_SET_MENU_LANGUAGE m
      in if length language < 3 then Inl OutOfBounds else Inr (copy_in 2 (take 3 language) m))"

definition cec_ops_set_menu_language :: "cec_msg \<Rightarrow> u8 list" where
  "cec_ops_set_menu_language m = copy_out 2 3 m @ [0]"

definition cec_msg_get_menu_language :: "cint \<Rightarrow> cec_msg \<Rightarrow> cec_msg" where
  "cec_msg_get_menu_language reply m =
     (let m = m\<lparr>m_len := 2\<rparr>;
          m = setb 1 CEC_MSG_GET_MENU_LANGUAGE m;
          m = m\<lparr>m_reply := (if reply \<noteq> 0 then CEC_MSG_SET_MENU_LANGUAGE else 0)\<rparr>
      in m)"

definition cec_msg_report_features :: "u8 \<Rightarrow> u8 \<Rightarrow> u8 \<Rightarrow> u8 \<Rightarrow> cec_msg \<Rightarrow> cec_msg" where
  "cec_msg_report_features cec_version all_device_types rc_profile dev_features m =
     (let m = m\<lparr>m_len := 6\<rparr>;
          m = setb 0 (getb m 0 OR 0xf) m;
          m = setb 1 CEC_MSG_REPORT_FEATURES m;
          m = setb 2 cec_version m;
          m = setb 3 all_device_types m;
          m = setb 4 rc_profile m;
          m = setb 5 dev_features m
      in m)"

function feat_loop :: "nat \<Rightarrow> cec_msg \<Rightarrow> nat \<Rightarrow> nat" where
  "feat_loop limit m p =
     (if p < limit \<and> getb m p AND CEC_OP_FEAT_EXT \<noteq> 0 then feat_loop limit m (p + 1) else p)"
  by pat_completeness auto
termination by (relation "measure (\<lambda>(limit, m, p). limit - p)") auto

definition cec_ops_report_features :: "cec_msg \<Rightarrow> u8 \<times> u8 \<times> nat option \<times> nat option" where
  "cec_ops_report_features m =
     (let p = feat_loop 14 m 4;
          dev_features = (if getb m p AND CEC_OP_FEAT_EXT = 0 then Some (p + 1) else None);
          p = (if getb m p AND CEC_OP_FEAT_EXT = 0 then feat_loop 15 m p else p)
      in if getb m p AND CEC_OP_FEAT_EXT \<noteq> 0 then (getb m 2, getb m 3, None, None)
         else (getb m 2, getb m 3, Some 4, dev_features))"

definition cec_msg_give_features :: "cint \<Rightarrow> cec_msg \<Rightarrow> cec_msg" where
  "cec_msg_give_features reply m =
     (let m = m\<lparr>m_len := 2\<rparr>;
          m = setb 1 CEC_MSG_GIVE_FEATURES m;
          m = m\<lparr>m_reply := (if reply \<noteq> 0 then CEC_MSG_REPORT_FEATURES else 0)\<rparr>
      in m)"

subsection \<open>Deck control\<close>

definition cec_msg_deck_control :: "u8 \<Rightarrow> cec_msg \<Rightarrow> cec_msg" where
  "cec_msg_deck_control deck_control_mode m =
     (let m = m\<lparr>m_len := 3\<rparr>;
          m = setb 1 CEC_MSG_DECK_CONTROL m;
          m = setb 2 deck_control_mode m
      in m)"

definition cec_ops_deck_control :: "cec_msg \<Rightarrow> u8" where
  "cec_ops_deck_control m =
     getb m 2"

definition cec_msg_deck_status :: "u8 \<Rightarrow> cec_msg \<Rightarrow> cec_msg" where
  "cec_msg_deck_status deck_info m =
     (let m = m\<lparr>m_len := 3\<rparr>;
          m = setb 1 CEC_MSG_DECK_STATUS m;
          m = setb 2 deck_info m
      in m)"

definition cec_ops_deck_status :: "cec_msg \<Rightarrow> u8" where
  "cec_ops_deck_status m =
     getb m 2"

definition cec_msg_give_deck_status :: "cint \<Rightarrow> u8 \<Rightarrow> cec_msg \<Rightarrow> cec_msg" where
  "cec_msg_give_deck_status reply status_req m =
     (let m = m\<lparr>m_len := 3\<rparr>;
          m = setb 1 CEC_MSG_GIVE_DECK_STATUS m;
          m = setb 2 status_req m;
          m = m\<lparr>m_reply := (if reply \<noteq> 0 then CEC_MSG_DECK_STATUS else 0)\<rparr>
      in m)"

definition cec_ops_give_deck_status :: "cec_msg \<Rightarrow> u8" where
  "cec_ops_give_deck_status m =
     getb m 2"

definition cec_msg_play :: "u8 \<Rightarrow> cec_msg \<Rightarrow> cec_msg" where
  "cec_msg_play play_mode m =
     (let m = m\<lparr>m_len := 3\<rparr>;
          m = setb 1 CEC_MSG_PLAY m;
          m = setb 2 play_mode m
      in m)"

definition cec_ops_play :: "cec_msg \<Rightarrow> u8" where
  "cec_ops_play m =
     getb m 2"

subsection \<open>Tuner control\<close>

datatype tuner_service_data = TunerAnalog u8 u16 u8 | TunerDigital digital_service_id

record tuner_device_info =
  tdi_rec_flag :: u8
  tdi_display_info :: u8
  tdi_service :: tuner_service_data

definition cec_msg_tuner_device_status_analog :: "u8 \<Rightarrow> u8 \<Rightarrow> u8 \<Rightarrow> u16 \<Rightarrow> u8 \<Rightarrow> cec_msg \<Rightarrow> cec_msg" where
  "cec_msg_tuner_device_status_analog rec_flag tuner_display_info ana_bcast_type ana_freq bcast_system m =
     (let m = m\<lparr>m_len := 7\<rparr>;
          m = setb 1 CEC_MSG_TUNER_DEVICE_STATUS m;
          m = setb 2 (push_bit 7 rec_flag OR tuner_display_info) m;
          m = setb 3 ana_bcast_type m;
          m = setb 4 (ucast (drop_bit 8 ana_freq)) m;
          m = setb 5 (ucast (ana_freq AND 0xff)) m;
          m = setb 6 bcast_system m
      in m)"

definition cec_msg_tuner_device_status_digital :: "u8 \<Rightarrow> u8 \<Rightarrow> digital_service_id \<Rightarrow> cec_msg \<Rightarrow> cec_msg" where
  "cec_msg_tuner_device_status_digital rec_flag tuner_display_info digital m =
     (let m = m\<lparr>m_len := 10\<rparr>;
          m = setb 1 CEC_MSG_TUNER_DEVICE_STATUS m;
          m = setb 2 (push_bit 7 rec_flag OR tuner_display_info) m;
          m = cec_set_digital_service_id 3 digital m
      in m)"

definition cec_msg_tuner_device_status :: "tuner_device_info \<Rightarrow> cec_msg \<Rightarrow> cec_msg" where
  "cec_msg_tuner_device_status info m =
     (case tdi_service info of
        TunerAnalog ana_bcast_type ana_freq bcast_system \<Rightarrow>
          cec_msg_tuner_device_status_analog (tdi_rec_flag info) (tdi_display_info info)
            ana_bcast_type ana_freq bcast_system m
      | TunerDigital digital \<Rightarrow>
          cec_msg_tuner_device_status_digital (tdi_rec_flag info) (tdi_display_info info) digital m)"

definition cec_ops_tuner_device_status :: "cec_msg \<Rightarrow> digital_service_id \<Rightarrow> tuner_device_info" where
  "cec_ops_tuner_device_status m digital =
     \<lparr>tdi_rec_flag = drop_bit 7 (getb m 2), tdi_display_info = getb m 2 AND 0x7f,
      tdi_service =
        (if m_len m < 10 then
           TunerAnalog (getb m 3) (push_bit 8 (ucast (getb m 4)) OR ucast (getb m 5)) (getb m 6)
         else TunerDigital (cec_get_digital_service_id 3 m digital))\<rparr>"

definition cec_msg_give_tuner_device_status :: "cint \<Rightarrow> u8 \<Rightarrow> cec_msg \<Rightarrow> cec_msg" where
  "cec_msg_give_tuner_device_status reply status_req m =
     (let m = m\<lparr>m_len := 3\<rparr>;
          m = setb 1 CEC_MSG_GIVE_TUNER_DEVICE_STATUS m;
          m = setb 2 status_req m;
          m = m\<lparr>m_reply := (if reply \<noteq> 0 then CEC_MSG_TUNER_DEVICE_STATUS else 0)\<rparr>
      in m)"

definition cec_ops_give_tuner_device_status :: "cec_msg \<Rightarrow> u8" where
  "cec_ops_give_tuner_device_status m =
     getb m 2"

definition cec_msg_select_analogue_service :: "u8 \<Rightarrow> u16 \<Rightarrow> u8 \<Rightarrow> cec_msg \<Rightarrow> cec_msg" where
  "cec_msg_select_analogue_service ana_bcast_type ana_freq bcast_system m =
     (let m = m\<lparr>m_len := 6\<rparr>;
          m = setb 1 CEC_MSG_SELECT_ANALOGUE_SERVICE m;
          m = setb 2 ana_bcast_type m;
          m = setb 3 (ucast (drop_bit 8 ana_freq)) m;
          m = setb 4 (ucast (ana_freq AND 0xff)) m;
          m = setb 5 bcast_system m
      in m)"

definition cec_ops_select_analogue_service :: "cec_msg \<Rightarrow> u8 \<times> u16 \<times> u8" where
  "cec_ops_select_analogue_service m =
     (getb m 2,
      push_bit 8 (ucast (getb m 3)) OR ucast (getb m 4),
      getb m 5)"

definition cec_msg_select_digital_service :: "digital_service_id \<Rightarrow> cec_msg \<Rightarrow> cec_msg" where
  "cec_msg_select_digital_service digital m =
     (let m = m\<lparr>m_len := 9\<rparr>;
          m = setb 1 CEC_MSG_SELECT_DIGITAL_SERVICE m;
          m = cec_set_digital_service_id 2 digital m
      in m)"

definition cec_ops_select_digital_service :: "cec_msg \<Rightarrow> digital_service_id \<Rightarrow> digital_service_id" where
  "cec_ops_select_digital_service m digital =
     cec_get_digital_service_id 2 m digital"

definition cec_msg_tuner_step_decrement :: "cec_msg \<Rightarrow> cec_msg" where
  "cec_msg_tuner_step_decrement m =
     (let m = m\<lparr>m_len := 2\<rparr>;
          m = setb 1 CEC_MSG_TUNER_STEP_DECREMENT m
      in m)"

definition cec_msg_tuner_step_increment :: "cec_msg \<Rightarrow> cec_msg" where
  "cec_msg_tuner_step_increment m =
     (let m = m\<lparr>m_len := 2\<rparr>;
          m = setb 1 CEC_MSG_TUNER_STEP_INCREMENT m
      in m)"

subsection \<open>Vendor-specific commands\<close>

definition cec_msg_device_vendor_id :: "u32 \<Rightarrow> cec_msg \<Rightarrow> cec_msg" where
  "cec_msg_device_vendor_id vendor_id m =
     (let m = m\<lparr>m_len := 5\<rparr>;
          m = setb 0 (getb m 0 OR 0xf) m;
          m = setb 1 CEC_MSG_DEVICE_VENDOR_ID m;
          m = setb 2 (ucast (drop_bit 16 vendor_id)) m;
          m = setb 3 (ucast (drop_bit 8 vendor_id AND 0xff)) m;
          m = setb 4 (ucast (vendor_id AND 0xff)) m
      in m)"

definition cec_ops_device_vendor_id :: "cec_msg \<Rightarrow> u32" where
  "cec_ops_device_vendor_id m =
     push_bit 16 (ucast (getb m 2)) OR push_bit 8 (ucast (getb m 3)) OR ucast (getb m 4)"

definition cec_msg_give_device_vendor_id :: "cint \<Rightarrow> cec_msg \<Rightarrow> cec_msg" where
  "cec_msg_give_device_vendor_id reply m =
     (let m = m\<lparr>m_len := 2\<rparr>;
          m = setb 1 CEC_MSG_GIVE_DEVICE_VENDOR_ID m;
          m = m\<lparr>m_reply := (if reply \<noteq> 0 then CEC_MSG_DEVICE_VENDOR_ID else 0)\<rparr>
      in m)"

definition cec_msg_vendor_command :: "u8 \<Rightarrow> u8 list \<Rightarrow> cec_msg \<Rightarrow> cec_msg res" where
  "cec_msg_vendor_command sz vendor_cmd m =
     (let sz = (if 14 < sz then 14 else sz);
          m = m\<lparr>m_len := 2 + ucast sz\<rparr>;
          m = setb 1 CEC_MSG_VENDOR_COMMAND m
      in if length vendor_cmd < unat sz then Inl OutOfBounds
         else Inr (copy_in 2 (take (unat sz) vendor_cmd) m))"

definition cec_ops_vendor_command :: "cec_msg \<Rightarrow> u8 \<times> nat" where
  "cec_ops_vendor_command m =
     (let sz = ucast (m_len m - 2)
      in (if 14 < sz then 14 else sz, 2))"

definition cec_msg_vendor_command_with_id :: "u32 \<Rightarrow> u8 \<Rightarrow> u8 list \<Rightarrow> cec_msg \<Rightarrow> cec_msg res" where
  "cec_msg_vendor_command_with_id vendor_id sz vendor_cmd m =
     (let sz = (if 11 < sz then 11 else sz);
          m = m\<lparr>m_len := 5 + ucast sz\<rparr>;
          m = setb 1 CEC_MSG_VENDOR_COMMAND_WITH_ID m;
          m = setb 2 (ucast (drop_bit 16 vendor_id)) m;
          m = setb 3 (ucast (drop_bit 8 vendor_id AND 0xff)) m;
          m = setb 4 (ucast (vendor_id AND 0xff)) m
      in if length vendor_cmd < unat sz then Inl OutOfBounds
         else Inr (copy_in 5 (take (unat sz) vendor_cmd) m))"

definition cec_ops_vendor_command_with_id :: "cec_msg \<Rightarrow> u32 \<times> u8 \<times> nat" where
  "cec_ops_vendor_command_with_id m =
     (let sz = ucast (m_len m - 5)
      in (push_bit 16 (ucast (getb m 2)) OR push_bit 8 (ucast (getb m 3)) OR ucast (getb m 4), if 11 < sz then 11 else sz, 5))"

definition cec_msg_vendor_remote_button_down :: "u8 \<Rightarrow> u8 list \<Rightarrow> cec_msg \<Rightarrow> cec_msg res" where
  "cec_msg_vendor_remote_button_down sz rc_code m =
     (let sz = (if 14 < sz then 14 else sz);
          m = m\<lparr>m_len := 2 + ucast sz\<rparr>;
          m = setb 1 CEC_MSG_VENDOR_REMOTE_BUTTON_DOWN m
      in if length rc_code < unat sz then Inl OutOfBounds
         else Inr (copy_in 2 (take (unat sz) rc_code) m))"

definition cec_ops_vendor_remote_button_down :: "cec_msg \<Rightarrow> u8 \<times> nat" where
  "cec_ops_vendor_remote_button_down m =
     (let sz = ucast (m_len m - 2)
      in (if 14 < sz then 14 else sz, 2))"

definition cec_msg_vendor_remote_button_up :: "cec_msg \<Rightarrow> cec_msg" where
  "cec_msg_vendor_remote_button_up m =
     (let m = m\<lparr>m_len := 2\<rparr>;
          m = setb 1 CEC_MSG_VENDOR_REMOTE_BUTTON_UP m
      in m)"

subsection \<open>On-screen display\<close>

definition cec_msg_set_osd_string :: "u8 \<Rightarrow> u8 list \<Rightarrow> cec_msg \<Rightarrow> cec_msg" where
  "cec_msg_set_osd_string disp_ctl osd m =
     (let len = min (length osd) 13;
          m = m\<lparr>m_len := 3 + of_nat len\<rparr>;
          m = setb 1 CEC_MSG_SET_OSD_STRING m;
          m = setb 2 disp_ctl m
      in copy_in 3 (take len osd) m)"

definition cec_ops_set_osd_string :: "cec_msg \<Rightarrow> u8 \<times> u8 list" where
  "cec_ops_set_osd_string m =
     (let len = (if 3 < m_len m then unat (m_len m - 3) else 0)
      in (getb m 2, copy_out 3 (min len 13) m @ [0]))"

subsection \<open>Device name\<close>

definition cec_msg_set_osd_name :: "u8 list \<Rightarrow> cec_msg \<Rightarrow> cec_msg" where
  "cec_msg_set_osd_name name m =
     (let len = min (length name) 14;
          m = m\<lparr>m_len := 2 + of_nat len\<rparr>;
          m = setb 1 CEC_MSG_SET_OSD_NAME m
      in copy_in 2 (take len name) m)"

definition cec_ops_set_osd_name :: "cec_msg \<Rightarrow> u8 list" where
  "cec_ops_set_osd_name m =
     (let len = (if 2 < m_len m then unat (m_len m - 2) else 0)
      in copy_out 2 (min len 14) m @ [0])"

definition cec_msg_give_osd_name :: "cint \<Rightarrow> cec_msg \<Rightarrow> cec_msg" where
  "cec_msg_give_osd_name reply m =
     (let m = m\<lparr>m_len := 2\<rparr>;
          m = setb 1 CEC_MSG_GIVE_OSD_NAME m;
          m = m\<lparr>m_reply := (if reply \<noteq> 0 then CEC_MSG_SET_OSD_NAME else 0)\<rparr>
      in m)"

subsection \<open>Menu and remote control\<close>

definition cec_msg_menu_status :: "u8 \<Rightarrow> cec_msg \<Rightarrow> cec_msg" where
  "cec_msg_menu_status menu_state m =
     (let m = m\<lparr>m_len := 3\<rparr>;
          m = setb 1 CEC_MSG_MENU_STATUS m;
          m = setb 2 menu_state m
      in m)"

definition cec_ops_menu_status :: "cec_msg \<Rightarrow> u8" where
  "cec_ops_menu_status m =
     getb m 2"

definition cec_msg_menu_request :: "cint \<Rightarrow> u8 \<Rightarrow> cec_msg \<Rightarrow> cec_msg" where
  "cec_msg_menu_request reply menu_req m =
     (let m = m\<lparr>m_len := 3\<rparr>;
          m = setb 1 CEC_MSG_MENU_REQUEST m;
          m = setb 2 menu_req m;
          m = m\<lparr>m_reply := (if reply \<noteq> 0 then CEC_MSG_MENU_STATUS else 0)\<rparr>
      in m)"

definition cec_ops_menu_request :: "cec_msg \<Rightarrow> u8" where
  "cec_ops_menu_request m =
     getb m 2"

text \<open>
  The optional operand is a union: its first byte is every one-byte member and the number format
  of a channel.
\<close>

record ui_command =
  ui_cmd :: u8
  has_opt_arg :: u8
  ui_byte :: u8
  ui_major :: u16
  ui_minor :: u16

definition cec_msg_user_control_pressed :: "ui_command \<Rightarrow> cec_msg \<Rightarrow> cec_msg" where
  "cec_msg_user_control_pressed ui m =
     (let m = m\<lparr>m_len := 3\<rparr>;
          m = setb 1 CEC_MSG_USER_CONTROL_PRESSED m;
          m = setb 2 (ui_cmd ui) m
      in if has_opt_arg ui = 0 then m
         else if ui_cmd ui \<in> {0x56, 0x57, 0x60, 0x68, 0x69, 0x6a} then
           setb 3 (ui_byte ui) (m\<lparr>m_len := m_len m + 1\<rparr>)
         else if ui_cmd ui = 0x67 then
           (let m = m\<lparr>m_len := m_len m + 4\<rparr>;
                m = setb 3 (push_bit 2 (ui_byte ui) OR ucast (drop_bit 8 (ui_major ui))) m;
                m = setb 4 (ucast (ui_major ui AND 0xff)) m;
                m = setb 5 (ucast (drop_bit 8 (ui_minor ui))) m
            in setb 6 (ucast (ui_minor ui AND 0xff)) m)
         else m)"

definition cec_ops_user_control_pressed :: "cec_msg \<Rightarrow> ui_command \<Rightarrow> ui_command" where
  "cec_ops_user_control_pressed m ui =
     (let ui = ui\<lparr>ui_cmd := getb m 2, has_opt_arg := 0\<rparr>
      in if m_len m = 3 then ui
         else if ui_cmd ui \<in> {0x56, 0x57, 0x60, 0x68, 0x69, 0x6a} then
           ui\<lparr>ui_byte := getb m 3, has_opt_arg := 1\<rparr>
         else if ui_cmd ui = 0x67 \<and> \<not> m_len m < 7 then
           ui\<lparr>has_opt_arg := 1, ui_byte := drop_bit 2 (getb m 3),
              ui_major := push_bit 6 (ucast (getb m 3 AND 3)) OR ucast (getb m 4),
              ui_minor := push_bit 8 (ucast (getb m 5)) OR ucast (getb m 6)\<rparr>
         else ui)"

definition cec_msg_user_control_released :: "cec_msg \<Rightarrow> cec_msg" where
  "cec_msg_user_control_released m =
     (let m = m\<lparr>m_len := 2\<rparr>;
          m = setb 1 CEC_MSG_USER_CONTROL_RELEASED m
      in m)"

end
