(* ===== verification/Cec_Audio.thy ===== *)
theory Cec_Audio
  imports Cec_Device
begin

text \<open>
  Power, abort, audio and capability-discovery messages of \<open>linux/cec-funcs.h\<close>.
\<close>

subsection \<open>Opcodes and operands\<close>

abbreviation (input) CEC_MSG_REPORT_POWER_STATUS :: u8 where "CEC_MSG_REPORT_POWER_STATUS \<equiv> 0x90"
abbreviation (input) CEC_MSG_GIVE_DEVICE_POWER_STATUS :: u8 where "CEC_MSG_GIVE_DEVICE_POWER_STATUS \<equiv> 0x8f"
abbreviation (input) CEC_MSG_FEATURE_ABORT :: u8 where "CEC_MSG_FEATURE_ABORT \<equiv> 0x00"
abbreviation (input) CEC_MSG_ABORT :: u8 where "CEC_MSG_ABORT \<equiv> 0xff"
abbreviation (input) CEC_MSG_REPORT_AUDIO_STATUS :: u8 where "CEC_MSG_REPORT_AUDIO_STATUS \<equiv> 0x7a"
abbreviation (input) CEC_MSG_GIVE_AUDIO_STATUS :: u8 where "CEC_MSG_GIVE_AUDIO_STATUS \<equiv> 0x71"
abbreviation (input) CEC_MSG_SET_SYSTEM_AUDIO_MODE :: u8 where "CEC_MSG_SET_SYSTEM_AUDIO_MODE \<equiv> 0x72"
abbreviation (input) CEC_MSG_SYSTEM_AUDIO_MODE_REQUEST :: u8 where "CEC_MSG_SYSTEM_AUDIO_MODE_REQUEST \<equiv> 0x70"
abbreviation (input) CEC_MSG_SYSTEM_AUDIO_MODE_STATUS :: u8 where "CEC_MSG_SYSTEM_AUDIO_MODE_STATUS \<equiv> 0x7e"
abbreviation (input) CEC_MSG_GIVE_SYSTEM_AUDIO_MODE_STATUS :: u8 where "CEC_MSG_GIVE_SYSTEM_AUDIO_MODE_STATUS \<equiv> 0x7d"
abbreviation (input) CEC_MSG_REPORT_SHORT_AUDIO_DESCRIPTOR :: u8 where "CEC_MSG_REPORT_SHORT_AUDIO_DESCRIPTOR \<equiv> 0xa3"
abbreviation (input) CEC_MSG_REQUEST_SHORT_AUDIO_DESCRIPTOR :: u8 where "CEC_MSG_REQUEST_SHORT_AUDIO_DESCRIPTOR \<equiv> 0xa4"
abbreviation (input) CEC_MSG_SET_AUDIO_RATE :: u8 where "CEC_MSG_SET_AUDIO_RATE \<equiv> 0x9a"
abbreviation (input) CEC_MSG_REPORT_ARC_INITIATED :: u8 where "CEC_MSG_REPORT_ARC_INITIATED \<equiv> 0xc1"
abbreviation (input) CEC_MSG_INITIATE_ARC :: u8 where "CEC_MSG_INITIATE_ARC \<equiv> 0xc0"
abbreviation (input) CEC_MSG_REQUEST_ARC_INITIATION :: u8 where "CEC_MSG_REQUEST_ARC_INITIATION \<equiv> 0xc3"
abbreviation (input) CEC_MSG_REPORT_ARC_TERMINATED :: u8 where "CEC_MSG_REPORT_ARC_TERMINATED \<equiv> 0xc2"
abbreviation (input) CEC_MSG_TERMINATE_ARC :: u8 where "CEC_MSG_TERMINATE_ARC \<equiv> 0xc5"
abbreviation (input) CEC_MSG_REQUEST_ARC_TERMINATION :: u8 where "CEC_MSG_REQUEST_ARC_TERMINATION \<equiv> 0xc4"
abbreviation (input) CEC_MSG_REPORT_CURRENT_LATENCY :: u8 where "CEC_MSG_REPORT_CURRENT_LATENCY \<equiv> 0xa8"
abbreviation (input) CEC_MSG_REQUEST_CURRENT_LATENCY :: u8 where "CEC_MSG_REQUEST_CURRENT_LATENCY \<equiv> 0xa7"
abbreviation (input) CEC_MSG_CDC_MESSAGE :: u8 where "CEC_MSG_CDC_MESSAGE \<equiv> 0xf8"
abbreviation (input) CEC_MSG_CDC_HEC_INQUIRE_STATE :: u8 where "CEC_MSG_CDC_HEC_INQUIRE_STATE \<equiv> 0x00"
abbreviation (input) CEC_MSG_CDC_HEC_REPORT_STATE :: u8 where "CEC_MSG_CDC_HEC_REPORT_STATE \<equiv> 0x01"
abbreviation (input) CEC_PHYS_ADDR_INVALID :: u16 where "CEC_PHYS_ADDR_INVALID \<equiv> 0xffff"
abbreviation (input) CEC_MSG_CDC_HEC_SET_STATE_ADJACENT :: u8 where "CEC_MSG_CDC_HEC_SET_STATE_ADJACENT \<equiv> 0x02"
abbreviation (input) CEC_MSG_CDC_HEC_REQUEST_DEACTIVATION :: u8 where "CEC_MSG_CDC_HEC_REQUEST_DEACTIVATION \<equiv> 0x04"
abbreviation (input) CEC_MSG_CDC_HEC_NOTIFY_ALIVE :: u8 where "CEC_MSG_CDC_HEC_NOTIFY_ALIVE \<equiv> 0x05"
abbreviation (input) CEC_MSG_CDC_HEC_DISCOVER :: u8 where "CEC_MSG_CDC_HEC_DISCOVER \<equiv> 0x06"
abbreviation (input) CEC_MSG_CDC_HPD_SET_STATE :: u8 where "CEC_MSG_CDC_HPD_SET_STATE \<equiv> 0x10"
abbreviation (input) CEC_MSG_CDC_HPD_REPORT_STATE :: u8 where "CEC_MSG_CDC_HPD_REPORT_STATE \<equiv> 0x11"

subsection \<open>Power status\<close>

definition cec_msg_report_power_status :: "u8 \<Rightarrow> cec_msg \<Rightarrow> cec_msg" where
  "cec_msg_report_power_status pwr_state m =
     (let m = m\<lparr>m_len := 3\<rparr>;
          m = setb 1 CEC_MSG_REPORT_POWER_STATUS m;
          m = setb 2 pwr_state m
      in m)"

definition cec_ops_report_power_status :: "cec_msg \<Rightarrow> u8" where
  "cec_ops_report_power_status m =
     getb m 2"

definition cec_msg_give_device_power_status :: "cint \<Rightarrow> cec_msg \<Rightarrow> cec_msg" where
  "cec_msg_give_device_power_status reply m =
     (let m = m\<lparr>m_len := 2\<rparr>;
          m = setb 1 CEC_MSG_GIVE_DEVICE_POWER_STATUS m;
          m = m\<lparr>m_reply := (if reply \<noteq> 0 then CEC_MSG_REPORT_POWER_STATUS else 0)\<rparr>
      in m)"

subsection \<open>General protocol messages\<close>

definition cec_msg_feature_abort :: "u8 \<Rightarrow> u8 \<Rightarrow> cec_msg \<Rightarrow> cec_msg" where
  "cec_msg_feature_abort abort_msg reason m =
     (let m = m\<lparr>m_len := 4\<rparr>;
          m = setb 1 CEC_MSG_FEATURE_ABORT m;
          m = setb 2 abort_msg m;
          m = setb 3 reason m
      in m)"

definition cec_ops_feature_abort :: "cec_msg \<Rightarrow> u8 \<times> u8" where
  "cec_ops_feature_abort m =
     (getb m 2,
      getb m 3)"

definition cec_msg_reply_feature_abort :: "u8 \<Rightarrow> cec_msg \<Rightarrow> cec_msg" where
  "cec_msg_reply_feature_abort reason m =
     (let m = cec_msg_set_reply_to m m;
          m = m\<lparr>m_len := 4\<rparr>;
          m = setb 2 (getb m 1) m;
          m = setb 3 reason m;
          m = setb 1 CEC_MSG_FEATURE_ABORT m
      in m)"

definition cec_msg_abort :: "cec_msg \<Rightarrow> cec_msg" where
  "cec_msg_abort m =
     (let m = m\<lparr>m_len := 2\<rparr>;
          m = setb 1 CEC_MSG_ABORT m
      in m)"

subsection \<open>System audio control\<close>

definition cec_msg_report_audio_status :: "u8 \<Rightarrow> u8 \<Rightarrow> cec_msg \<Rightarrow> cec_msg" where
  "cec_msg_report_audio_status aud_mute_status aud_vol_status m =
     (let m = m\<lparr>m_len := 3\<rparr>;
          m = setb 1 CEC_MSG_REPORT_AUDIO_STATUS m;
          m = setb 2 (push_bit 7 aud_mute_status OR (aud_vol_status AND 0x7f)) m
      in m)"

definition cec_ops_report_audio_status :: "cec_msg \<Rightarrow> u8 \<times> u8" where
  "cec_ops_report_audio_status m =
     (drop_bit 7 (getb m 2),
      getb m 2 AND 0x7f)"

definition cec_msg_give_audio_status :: "cint \<Rightarrow> cec_msg \<Rightarrow> cec_msg" where
  "cec_msg_give_audio_status reply m =
     (let m = m\<lparr>m_len := 2\<rparr>;
          m = setb 1 CEC_MSG_GIVE_AUDIO_STATUS m;
          m = m\<lparr>m_reply := (if reply \<noteq> 0 then CEC_MSG_REPORT_AUDIO_STATUS else 0)\<rparr>
      in m)"

definition cec_msg_set_system_audio_mode :: "u8 \<Rightarrow> cec_msg \<Rightarrow> cec_msg" where
  "cec_msg_set_system_audio_mode sys_aud_status m =
     (let m = m\<lparr>m_len := 3\<rparr>;
          m = setb 1 CEC_MSG_SET_SYSTEM_AUDIO_MODE m;
          m = setb 2 sys_aud_status m
      in m)"

definition cec_ops_set_system_audio_mode :: "cec_msg \<Rightarrow> u8" where
  "cec_ops_set_system_audio_mode m =
     getb m 2"

definition cec_msg_system_audio_mode_request :: "cint \<Rightarrow> u16 \<Rightarrow> cec_msg \<Rightarrow> cec_msg" where
  "cec_msg_system_audio_mode_request reply phys_addr m =
     (let m = m\<lparr>m_len := (if phys_addr = 0xffff then 2 else 4)\<rparr>;
          m = setb 1 CEC_MSG_SYSTEM_AUDIO_MODE_REQUEST m;
          m = setb 2 (ucast (drop_bit 8 phys_addr)) m;
          m = setb 3 (ucast (phys_addr AND 0xff)) m;
          m = m\<lparr>m_reply := (if reply \<noteq> 0 then CEC_MSG_SET_SYSTEM_AUDIO_MODE else 0)\<rparr>
      in m)"

definition cec_ops_system_audio_mode_request :: "cec_msg \<Rightarrow> u16" where
  "cec_ops_system_audio_mode_request m =
     (if m_len m < 4 then 0xffff else push_bit 8 (ucast (getb m 2)) OR ucast (getb m 3))"

definition cec_msg_system_audio_mode_status :: "u8 \<Rightarrow> cec_msg \<Rightarrow> cec_msg" where
  "cec_msg_system_audio_mode_status sys_aud_status m =
     (let m = m\<lparr>m_len := 3\<rparr>;
          m = setb 1 CEC_MSG_SYSTEM_AUDIO_MODE_STATUS m;
          m = setb 2 sys_aud_status m
      in m)"

definition cec_ops_system_audio_mode_status :: "cec_msg \<Rightarrow> u8" where
  "cec_ops_system_audio_mode_status m =
     getb m 2"

definition cec_msg_give_system_audio_mode_status :: "cint \<Rightarrow> cec_msg \<Rightarrow> cec_msg" where
  "cec_msg_give_system_audio_mode_status reply m =
     (let m = m\<lparr>m_len := 2\<rparr>;
          m = setb 1 CEC_MSG_GIVE_SYSTEM_AUDIO_MODE_STATUS m;
          m = m\<lparr>m_reply := (if reply \<noteq> 0 then CEC_MSG_SYSTEM_AUDIO_MODE_STATUS else 0)\<rparr>
      in m)"

definition put_descriptor :: "u32 list \<Rightarrow> nat \<Rightarrow> cec_msg \<Rightarrow> cec_msg" where
  "put_descriptor descriptors i m =
     (let m = setb (2 + i * 3) (ucast (drop_bit 16 (descriptors ! i) AND 0xff)) m;
          m = setb (3 + i * 3) (ucast (drop_bit 8 (descriptors ! i) AND 0xff)) m
      in setb (4 + i * 3) (ucast (descriptors ! i AND 0xff)) m)"

definition cec_msg_report_short_audio_descriptor ::
    "u8 \<Rightarrow> u32 list \<Rightarrow> cec_msg \<Rightarrow> cec_msg res" where
  "cec_msg_report_short_audio_descriptor num_descriptors descriptors m =
     (let num = (if 4 < num_descriptors then 4 else num_descriptors);
          m = m\<lparr>m_len := 2 + ucast num * 3\<rparr>;
          m = setb 1 CEC_MSG_REPORT_SHORT_AUDIO_DESCRIPTOR m
      in if length descriptors < unat num then Inl OutOfBounds
         else Inr (fold (put_descriptor descriptors) [0..<unat num] m))"

definition cec_ops_report_short_audio_descriptor :: "cec_msg \<Rightarrow> u8 \<times> u32 list" where
  "cec_ops_report_short_audio_descriptor m =
     (let num = ucast ((m_len m - 2) div 3) :: u8;
          num = (if 4 < num then 4 else num)
      in (num, map (\<lambda>i. push_bit 16 (ucast (getb m (2 + i * 3))) OR push_bit 8 (ucast (getb m (3 + i * 3)))
                 OR ucast (getb m (4 + i * 3))) [0..<unat num]))"

definition cec_msg_request_short_audio_descriptor ::
    "cint \<Rightarrow> u8 \<Rightarrow> u8 list \<Rightarrow> u8 list \<Rightarrow> cec_msg \<Rightarrow> cec_msg res" where
  "cec_msg_request_short_audio_descriptor reply num_descriptors audio_format_id audio_format_code m =
     (let num = (if 4 < num_descriptors then 4 else num_descriptors);
          m = m\<lparr>m_len := 2 + ucast num\<rparr>;
          m = setb 1 CEC_MSG_REQUEST_SHORT_AUDIO_DESCRIPTOR m;
          m = m\<lparr>m_reply := (if reply \<noteq> 0 then CEC_MSG_REPORT_SHORT_AUDIO_DESCRIPTOR else 0)\<rparr>
      in if length audio_format_id < unat num \<or> length audio_format_code < unat num then Inl OutOfBounds
         else Inr (fold (\<lambda>i. setb (2 + i) (push_bit 6 (audio_format_id ! i) OR (audio_format_code ! i AND 0x3f)))
                     [0..<unat num] m))"

definition cec_ops_request_short_audio_descriptor :: "cec_msg \<Rightarrow> u8 \<times> u8 list \<times> u8 list" where
  "cec_ops_request_short_audio_descriptor m =
     (let num = ucast (m_len m - 2) :: u8;
          num = (if 4 < num then 4 else num)
      in (num, map (\<lambda>i. drop_bit 6 (getb m (2 + i))) [0..<unat num],
          map (\<lambda>i. getb m (2 + i) AND 0x3f) [0..<unat num]))"

subsection \<open>Audio rate control\<close>

definition cec_msg_set_audio_rate :: "u8 \<Rightarrow> cec_msg \<Rightarrow> cec_msg" where
  "cec_msg_set_audio_rate audio_rate m =
     (let m = m\<lparr>m_len := 3\<rparr>;
          m = setb 1 CEC_MSG_SET_AUDIO_RATE m;
          m = setb 2 audio_rate m
      in m)"

definition cec_ops_set_audio_rate :: "cec_msg \<Rightarrow> u8" where
  "cec_ops_set_audio_rate m =
     getb m 2"

subsection \<open>Audio return channel\<close>

definition cec_msg_report_arc_initiated :: "cec_msg \<Rightarrow> cec_msg" where
  "cec_msg_report_arc_initiated m =
     (let m = m\<lparr>m_len := 2\<rparr>;
          m = setb 1 CEC_MSG_REPORT_ARC_INITIATED m
      in m)"

definition cec_msg_initiate_arc :: "cint \<Rightarrow> cec_msg \<Rightarrow> cec_msg" where
  "cec_msg_initiate_arc reply m =
     (let m = m\<lparr>m_len := 2\<rparr>;
          m = setb 1 CEC_MSG_INITIATE_ARC m;
          m = m\<lparr>m_reply := (if reply \<noteq> 0 then CEC_MSG_REPORT_ARC_INITIATED else 0)\<rparr>
      in m)"

definition cec_msg_request_arc_initiation :: "cint \<Rightarrow> cec_msg \<Rightarrow> cec_msg" where
  "cec_msg_request_arc_initiation reply m =
     (let m = m\<lparr>m_len := 2\<rparr>;
          m = setb 1 CEC_MSG_REQUEST_ARC_INITIATION m;
          m = m\<lparr>m_reply := (if reply \<noteq> 0 then CEC_MSG_INITIATE_ARC else 0)\<rparr>
      in m)"

definition cec_msg_report_arc_terminated :: "cec_msg \<Rightarrow> cec_msg" where
  "cec_msg_report_arc_terminated m =
     (let m = m\<lparr>m_len := 2\<rparr>;
          m = setb 1 CEC_MSG_REPORT_ARC_TERMINATED m
      in m)"

definition cec_msg_terminate_arc :: "cint \<Rightarrow> cec_msg \<Rightarrow> cec_msg" where
  "cec_msg_terminate_arc reply m =
     (let m = m\<lparr>m_len := 2\<rparr>;
          m = setb 1 CEC_MSG_TERMINATE_ARC m;
          m = m\<lparr>m_reply := (if reply \<noteq> 0 then CEC_MSG_REPORT_ARC_TERMINATED else 0)\<rparr>
      in m)"

definition cec_msg_request_arc_termination :: "cint \<Rightarrow> cec_msg \<Rightarrow> cec_msg" where
  "cec_msg_request_arc_termination reply m =
     (let m = m\<lparr>m_len := 2\<rparr>;
          m = setb 1 CEC_MSG_REQUEST_ARC_TERMINATION m;
          m = m\<lparr>m_reply := (if reply \<noteq> 0 then CEC_MSG_TERMINATE_ARC else 0)\<rparr>
      in m)"

subsection \<open>Audio lip-sync\<close>

text \<open>\<open>msg->msg[msg->len++] = v\<close>.\<close>

definition append_byte :: "u8 \<Rightarrow> cec_msg \<Rightarrow> cec_msg" where
  "append_byte v m = (setb (unat (m_len m)) v m)\<lparr>m_len := m_len m + 1\<rparr>"

definition cec_msg_report_current_latency :: "u16 \<Rightarrow> u8 \<Rightarrow> u8 \<Rightarrow> u8 \<Rightarrow> u8 \<Rightarrow> cec_msg \<Rightarrow> cec_msg" where
  "cec_msg_report_current_latency phys_addr video_latency low_latency_mode audio_out_compensated audio_out_delay m =
     (let m = m\<lparr>m_len := 6\<rparr>;
          m = setb 0 (getb m 0 OR 0xf) m;
          m = setb 1 CEC_MSG_REPORT_CURRENT_LATENCY m;
          m = setb 2 (ucast (drop_bit 8 phys_addr)) m;
          m = setb 3 (ucast (phys_addr AND 0xff)) m;
          m = setb 4 video_latency m;
          m = setb 5 (push_bit 2 low_latency_mode OR audio_out_compensated) m
      in if audio_out_compensated = 3 then append_byte audio_out_delay m else m)"

definition cec_ops_report_current_latency :: "cec_msg \<Rightarrow> u16 \<times> u8 \<times> u8 \<times> u8 \<times> u8" where
  "cec_ops_report_current_latency m =
     (let audio_out_compensated = getb m 5 AND 3
      in (push_bit 8 (ucast (getb m 2)) OR ucast (getb m 3), getb m 4, drop_bit 2 (getb m 5) AND 1,
          audio_out_compensated,
          if audio_out_compensated = 3 \<and> 7 \<le> m_len m then getb m 6 else 0))"

definition cec_msg_request_current_latency :: "cint \<Rightarrow> u16 \<Rightarrow> cec_msg \<Rightarrow> cec_msg" where
  "cec_msg_request_current_latency reply phys_addr m =
     (let m = m\<lparr>m_len := 4\<rparr>;
          m = setb 0 (getb m 0 OR 0xf) m;
          m = setb 1 CEC_MSG_REQUEST_CURRENT_LATENCY m;
          m = setb 2 (ucast (drop_bit 8 phys_addr)) m;
          m = setb 3 (ucast (phys_addr AND 0xff)) m;
          m = m\<lparr>m_reply := (if reply \<noteq> 0 then CEC_MSG_REPORT_CURRENT_LATENCY else 0)\<rparr>
      in m)"

definition cec_ops_request_current_latency :: "cec_msg \<Rightarrow> u16" where
  "cec_ops_request_current_latency m =
     push_bit 8 (ucast (getb m 2)) OR ucast (getb m 3)"

subsection \<open>Capability discovery and control\<close>

definition cec_msg_cdc_hec_inquire_state :: "u16 \<Rightarrow> u16 \<Rightarrow> cec_msg \<Rightarrow> cec_msg" where
  "cec_msg_cdc_hec_inquire_state phys_addr1 phys_addr2 m =
     (let m = m\<lparr>m_len := 9\<rparr>;
          m = setb 0 (getb m 0 OR 0xf) m;
          m = setb 1 CEC_MSG_CDC_MESSAGE m;
          m = setb 4 CEC_MSG_CDC_HEC_INQUIRE_STATE m;
          m = setb 5 (ucast (drop_bit 8 phys_addr1)) m;
          m = setb 6 (ucast (phys_addr1 AND 0xff)) m;
          m = setb 7 (ucast (drop_bit 8 phys_addr2)) m;
          m = setb 8 (ucast (phys_addr2 AND 0xff)) m
      in m)"

definition cec_ops_cdc_hec_inquire_state :: "cec_msg \<Rightarrow> u16 \<times> u16 \<times> u16" where
  "cec_ops_cdc_hec_inquire_state m =
     (push_bit 8 (ucast (getb m 2)) OR ucast (getb m 3),
      push_bit 8 (ucast (getb m 5)) OR ucast (getb m 6),
      push_bit 8 (ucast (getb m 7)) OR ucast (getb m 8))"

definition cec_msg_cdc_hec_report_state ::
    "u16 \<Rightarrow> u8 \<Rightarrow> u8 \<Rightarrow> u8 \<Rightarrow> u8 \<Rightarrow> u8 \<Rightarrow> u16 \<Rightarrow> cec_msg \<Rightarrow> cec_msg" where
  "cec_msg_cdc_hec_report_state target_phys_addr hec_func_state host_func_state enc_func_state cdc_errcode
       has_field hec_field m =
     (let m = m\<lparr>m_len := (if has_field \<noteq> 0 then 10 else 8)\<rparr>;
          m = setb 0 (getb m 0 OR 0xf) m;
          m = setb 1 CEC_MSG_CDC_MESSAGE m;
          m = setb 4 CEC_MSG_CDC_HEC_REPORT_STATE m;
          m = setb 5 (ucast (drop_bit 8 target_phys_addr)) m;
          m = setb 6 (ucast (target_phys_addr AND 0xff)) m;
          m = setb 7 (push_bit 6 hec_func_state OR push_bit 4 host_func_state OR
                push_bit 2 enc_func_state OR cdc_errcode) m
      in if has_field \<noteq> 0
         then setb 9 (ucast (hec_field AND 0xff)) (setb 8 (ucast (drop_bit 8 hec_field)) m)
         else m)"

definition cec_ops_cdc_hec_report_state ::
    "cec_msg \<Rightarrow> u16 \<times> u16 \<times> u8 \<times> u8 \<times> u8 \<times> u8 \<times> u8 \<times> u16" where
  "cec_ops_cdc_hec_report_state m =
     (let has_field = (if 10 \<le> m_len m then 1 else 0) :: u8
      in (push_bit 8 (ucast (getb m 2)) OR ucast (getb m 3),
          push_bit 8 (ucast (getb m 5)) OR ucast (getb m 6),
          drop_bit 6 (getb m 7),
          drop_bit 4 (getb m 7) AND 3,
          drop_bit 4 (getb m 7) AND 3,
          getb m 7 AND 3,
          has_field,
          if has_field \<noteq> 0 then push_bit 8 (ucast (getb m 8)) OR ucast (getb m 9) else 0))"

definition cec_msg_cdc_hec_set_state ::
    "u16 \<Rightarrow> u16 \<Rightarrow> u8 \<Rightarrow> u16 \<Rightarrow> u16 \<Rightarrow> u16 \<Rightarrow> cec_msg \<Rightarrow> cec_msg" where
  "cec_msg_cdc_hec_set_state phys_addr1 phys_addr2 hec_set_state phys_addr3 phys_addr4 phys_addr5 m =
     (let m = m\<lparr>m_len := 10\<rparr>;
          m = setb 0 (getb m 0 OR 0xf) m;
          m = setb 1 CEC_MSG_CDC_MESSAGE m;
          m = setb 4 CEC_MSG_CDC_HEC_INQUIRE_STATE m;
          m = setb 5 (ucast (drop_bit 8 phys_addr1)) m;
          m = setb 6 (ucast (phys_addr1 AND 0xff)) m;
          m = setb 7 (ucast (drop_bit 8 phys_addr2)) m;
          m = setb 8 (ucast (phys_addr2 AND 0xff)) m;
          m = setb 9 hec_set_state m
      in if phys_addr3 \<noteq> CEC_PHYS_ADDR_INVALID then
           (let m = append_byte (ucast (drop_bit 8 phys_addr3)) m;
                m = append_byte (ucast (phys_addr3 AND 0xff)) m
            in if phys_addr4 \<noteq> CEC_PHYS_ADDR_INVALID then
                 (let m = append_byte (ucast (drop_bit 8 phys_addr4)) m;
                      m = append_byte (ucast (phys_addr4 AND 0xff)) m
                  in if phys_addr5 \<noteq> CEC_PHYS_ADDR_INVALID then
                       append_byte (ucast (phys_addr5 AND 0xff)) (append_byte (ucast (drop_bit 8 phys_addr5)) m)
                     else m)
               else m)
         else m)"

definition cec_ops_cdc_hec_set_state ::
    "cec_msg \<Rightarrow> u16 \<times> u16 \<times> u16 \<times> u8 \<times> u16 \<times> u16 \<times> u16" where
  "cec_ops_cdc_hec_set_state m =
     (push_bit 8 (ucast (getb m 2)) OR ucast (getb m 3),
      push_bit 8 (ucast (getb m 5)) OR ucast (getb m 6),
      push_bit 8 (ucast (getb m 7)) OR ucast (getb m 8),
      getb m 9,
      if 12 \<le> m_len m then push_bit 8 (ucast (getb m 10)) OR ucast (getb m 11) else CEC_PHYS_ADDR_INVALID,
      if 14 \<le> m_len m then push_bit 8 (ucast (getb m 12)) OR ucast (getb m 13) else CEC_PHYS_ADDR_INVALID,
      if 16 \<le> m_len m then push_bit 8 (ucast (getb m 14)) OR ucast (getb m 15) else CEC_PHYS_ADDR_INVALID)"

definition cec_msg_cdc_hec_set_state_adjacent :: "u16 \<Rightarrow> u8 \<Rightarrow> cec_msg \<Rightarrow> cec_msg" where
  "cec_msg_cdc_hec_set_state_adjacent phys_addr1 hec_set_state m =
     (let m = m\<lparr>m_len := 8\<rparr>;
          m = setb 0 (getb m 0 OR 0xf) m;
          m = setb 1 CEC_MSG_CDC_MESSAGE m;
          m = setb 4 CEC_MSG_CDC_HEC_SET_STATE_ADJACENT m;
          m = setb 5 (ucast (drop_bit 8 phys_addr1)) m;
          m = setb 6 (ucast (phys_addr1 AND 0xff)) m;
          m = setb 7 hec_set_state m
      in m)"

definition cec_ops_cdc_hec_set_state_adjacent :: "cec_msg \<Rightarrow> u16 \<times> u16 \<times> u8" where
  "cec_ops_cdc_hec_set_state_adjacent m =
     (push_bit 8 (ucast (getb m 2)) OR ucast (getb m 3),
      push_bit 8 (ucast (getb m 5)) OR ucast (getb m 6),
      getb m 7)"

definition cec_msg_cdc_hec_request_deactivation :: "u16 \<Rightarrow> u16 \<Rightarrow> u16 \<Rightarrow> cec_msg \<Rightarrow> cec_msg" where
  "cec_msg_cdc_hec_request_deactivation phys_addr1 phys_addr2 phys_addr3 m =
     (let m = m\<lparr>m_len := 11\<rparr>;
          m = setb 0 (getb m 0 OR 0xf) m;
          m = setb 1 CEC_MSG_CDC_MESSAGE m;
          m = setb 4 CEC_MSG_CDC_HEC_REQUEST_DEACTIVATION m;
          m = setb 5 (ucast (drop_bit 8 phys_addr1)) m;
          m = setb 6 (ucast (phys_addr1 AND 0xff)) m;
          m = setb 7 (ucast (drop_bit 8 phys_addr2)) m;
          m = setb 8 (ucast (phys_addr2 AND 0xff)) m;
          m = setb 9 (ucast (drop_bit 8 phys_addr3)) m;
          m = setb 10 (ucast (phys_addr3 AND 0xff)) m
      in m)"

definition cec_ops_cdc_hec_request_deactivation :: "cec_msg \<Rightarrow> u16 \<times> u16 \<times> u16 \<times> u16" where
  "cec_ops_cdc_hec_request_deactivation m =
     (push_bit 8 (ucast (getb m 2)) OR ucast (getb m 3),
      push_bit 8 (ucast (getb m 5)) OR ucast (getb m 6),
      push_bit 8 (ucast (getb m 7)) OR ucast (getb m 8),
      push_bit 8 (ucast (getb m 9)) OR ucast (getb m 10))"

definition cec_msg_cdc_hec_notify_alive :: "cec_msg \<Rightarrow> cec_msg" where
  "cec_msg_cdc_hec_notify_alive m =
     (let m = m\<lparr>m_len := 5\<rparr>;
          m = setb 0 (getb m 0 OR 0xf) m;
          m = setb 1 CEC_MSG_CDC_MESSAGE m;
          m = setb 4 CEC_MSG_CDC_HEC_NOTIFY_ALIVE m
      in m)"

definition cec_ops_cdc_hec_notify_alive :: "cec_msg \<Rightarrow> u16" where
  "cec_ops_cdc_hec_notify_alive m =
     push_bit 8 (ucast (getb m 2)) OR ucast (getb m 3)"

definition cec_msg_cdc_hec_discover :: "cec_msg \<Rightarrow> cec_msg" where
  "cec_msg_cdc_hec_discover m =
     (let m = m\<lparr>m_len := 5\<rparr>;
          m = setb 0 (getb m 0 OR 0xf) m;
          m = setb 1 CEC_MSG_CDC_MESSAGE m;
          m = setb 4 CEC_MSG_CDC_HEC_DISCOVER m
      in m)"

definition cec_ops_cdc_hec_discover :: "cec_msg \<Rightarrow> u16" where
  "cec_ops_cdc_hec_discover m =
     push_bit 8 (ucast (getb m 2)) OR ucast (getb m 3)"

definition cec_msg_cdc_hpd_set_state :: "u8 \<Rightarrow> u8 \<Rightarrow> cec_msg \<Rightarrow> cec_msg" where
  "cec_msg_cdc_hpd_set_state input_port hpd_state m =
     (let m = m\<lparr>m_len := 6\<rparr>;
          m = setb 0 (getb m 0 OR 0xf) m;
          m = setb 1 CEC_MSG_CDC_MESSAGE m;
          m = setb 4 CEC_MSG_CDC_HPD_SET_STATE m;
          m = setb 5 (push_bit 4 input_port OR hpd_state) m
      in m)"

definition cec_ops_cdc_hpd_set_state :: "cec_msg \<Rightarrow> u16 \<times> u8 \<times> u8" where
  "cec_ops_cdc_hpd_set_state m =
     (push_bit 8 (ucast (getb m 2)) OR ucast (getb m 3),
      drop_bit 4 (getb m 5),
      getb m 5 AND 0xf)"

definition cec_msg_cdc_hpd_report_state :: "u8 \<Rightarrow> u8 \<Rightarrow> cec_msg \<Rightarrow> cec_msg" where
  "cec_msg_cdc_hpd_report_state hpd_state hpd_error m =
     (let m = m\<lparr>m_len := 6\<rparr>;
          m = setb 0 (getb m 0 OR 0xf) m;
          m = setb 1 CEC_MSG_CDC_MESSAGE m;
          m = setb 4 CEC_MSG_CDC_HPD_REPORT_STATE m;
          m = setb 5 (push_bit 4 hpd_state OR hpd_error) m
      in m)"

definition cec_ops_cdc_hpd_report_state :: "cec_msg \<Rightarrow> u16 \<times> u8 \<times> u8" where
  "cec_ops_cdc_hpd_report_state m =
     (push_bit 8 (ucast (getb m 2)) OR ucast (getb m 3),
      drop_bit 4 (getb m 5),
      getb m 5 AND 0xf)"

end
