(* ===== verification/Cec_Codec.thy ===== *)
theory Cec_Codec
  imports Cec_Audio
begin

text \<open>
  What a pair of functions of \<open>linux/cec-funcs.h\<close> promises: the \<open>cec_ops\<close> function reads back what
  the \<open>cec_msg\<close> function wrote, the message has its opcode and fits the payload, and the initiator
  is left alone. The contract is a locale, and this theory has the lemmas on packed bytes that the
  interpretations use.
\<close>

subsection \<open>The contract\<close>

locale message_codec =
  fixes enc :: "'a \<Rightarrow> cec_msg \<Rightarrow> cec_msg" and dec :: "cec_msg \<Rightarrow> 'a" and valid :: "'a \<Rightarrow> bool" and opc :: u8
  assumes roundtrip: "cec_wf m \<Longrightarrow> valid a \<Longrightarrow> dec (enc a m) = a"
    and opcode: "cec_wf m \<Longrightarrow> getb (enc a m) 1 = opc"
    and fits: "cec_wf m \<Longrightarrow> cec_sized (enc a m)"
    and initiator: "cec_wf m \<Longrightarrow> cec_msg_initiator (enc a m) = cec_msg_initiator m"
begin

lemma encode_inject: "cec_wf m \<Longrightarrow> valid a \<Longrightarrow> valid b \<Longrightarrow> enc a m = enc b m \<Longrightarrow> a = b"
  using roundtrip by metis

text \<open>A device that decodes a message and sends it on sends the same operands.\<close>

lemma relay: "cec_wf m \<Longrightarrow> cec_wf m' \<Longrightarrow> valid a \<Longrightarrow> dec (enc (dec (enc a m)) m') = a"
  by (simp add: roundtrip)

lemma encode_wf: "cec_wf m \<Longrightarrow> cec_wf (enc a m)"
  using fits by (simp add: cec_sized_def)

end

subsection \<open>Packed bytes\<close>

lemma pack_hi:
  fixes hi lo :: u8
  assumes "unat lo < 2 ^ k" "unat hi < 2 ^ (8 - k)" "k \<le> 8"
  shows "drop_bit k (push_bit k hi OR lo) = hi"
proof -
  have "bit lo n \<Longrightarrow> n < k" "bit hi n \<Longrightarrow> n < 8 - k" for n
    using bit_below[OF assms(1)] bit_below[OF assms(2)] by blast+
  then have lt: "bit lo n \<Longrightarrow> n < k" "bit hi n \<Longrightarrow> k + n < 8" for n using assms(3) by fastforce+
  have "\<not> bit lo (k + n)" for n using lt(1) by fastforce
  then show ?thesis by (intro bit_word_eqI) (auto simp: bit_simps dest: lt(2))
qed

lemma pack_lo:
  fixes hi lo :: u8
  assumes "unat lo < 2 ^ k"
  shows "(push_bit k hi OR lo) AND mask k = lo"
proof -
  have "bit lo n \<Longrightarrow> n < k" for n using bit_below[OF assms] by blast
  then show ?thesis by (intro bit_word_eqI) (auto simp: bit_simps)
qed

lemma u8_masks: "(0x7f :: u8) = mask 7" "(0xf :: u8) = mask 4" "(3 :: u8) = mask 2" "(0x3f :: u8) = mask 6"
  by (simp_all add: mask_eq_exp_minus_1)

lemma and_0x7f_bound: "unat ((w :: u8) AND 0x7f) < 128"
  using take_bit_nat_less_exp[of 7 "unat w"]
  unfolding u8_masks take_bit_eq_mask[symmetric] unsigned_take_bit_eq by simp

text \<open>Two decimal digits in one byte.\<close>

lemma bcd_roundtrip:
  fixes n :: u8
  assumes "unat n < 100"
  shows "drop_bit 4 (push_bit 4 (n div 10) OR n mod 10) * 10 +
    ((push_bit 4 (n div 10) OR n mod 10) AND 0xf) = n"
proof -
  have "unat (n mod 10) < 2 ^ 4" "unat (n div 10) < 2 ^ (8 - 4)"
    using assms by (simp_all add: unat_mod unat_div)
  note digits = this
  have "drop_bit 4 (push_bit 4 (n div 10) OR n mod 10) = n div 10"
    by (rule pack_hi[OF digits]) simp
  moreover have "(push_bit 4 (n div 10) OR n mod 10) AND mask 4 = n mod 10"
    by (rule pack_lo[OF digits(1)])
  ultimately show ?thesis unfolding u8_masks(2) by (simp only: div_mult_mod_eq)
qed

subsection \<open>Headers and lengths\<close>

lemma broadcast_initiator [simp]: "drop_bit 4 ((b :: u8) OR 0xf) = drop_bit 4 b"
  unfolding u8_masks(2) by (rule bit_word_eqI) (auto simp: bit_simps)

lemma cec_sizedI: "cec_wf m \<Longrightarrow> unat (m_len m) \<le> 16 \<Longrightarrow> cec_sized m"
  by (simp add: cec_sized_def CEC_MAX_MSG_SIZE_def)

end
