(* ===== verification/Cec_Roundtrip.thy ===== *)
theory Cec_Roundtrip
  imports Cec_Codec
begin

text \<open>
  The message functions of \<open>linux/cec-funcs.h\<close> keep the contract of a message codec: one
  interpretation per pair of functions with scalar operands. Then the messages with structured or
  variable-length operands, and the places where the decoding functions do not return what was
  encoded.
\<close>

lemmas codec_simps = Let_def cec_sized_def CEC_MAX_MSG_SIZE_def cec_msg_initiator_def

text \<open>Hours and minutes that two decimal digits can hold.\<close>

definition clock_ok :: "u8 \<Rightarrow> u8 \<Rightarrow> u8 \<Rightarrow> u8 \<Rightarrow> bool" where
  "clock_ok start_hr start_min duration_hr duration_min \<longleftrightarrow>
     unat start_hr < 100 \<and> unat start_min < 100 \<and> unat duration_hr < 100 \<and> unat duration_min < 100"

lemma nibbles:
  fixes hi lo :: u8
  shows "unat lo < 16 \<Longrightarrow> unat hi < 16 \<Longrightarrow> drop_bit 4 (push_bit 4 hi OR lo) = hi"
    and "unat lo < 16 \<Longrightarrow> (push_bit 4 hi OR lo) AND 0xf = lo"
    and "unat hi < 2 \<Longrightarrow> unat lo < 128 \<Longrightarrow> drop_bit 7 (push_bit 7 hi OR (lo AND 0x7f)) = hi"
    and "unat lo < 128 \<Longrightarrow> (push_bit 7 hi OR (lo AND 0x7f)) AND 0x7f = lo"
proof -
  have l: "lo AND 0x7f = lo" if "unat lo < 128"
    using pack_lo[of lo 7 0] that unfolding u8_masks by simp
  show "unat lo < 16 \<Longrightarrow> unat hi < 16 \<Longrightarrow> drop_bit 4 (push_bit 4 hi OR lo) = hi"
    by (rule pack_hi) simp_all
  show "unat lo < 16 \<Longrightarrow> (push_bit 4 hi OR lo) AND 0xf = lo"
    unfolding u8_masks by (rule pack_lo) simp
  show "unat hi < 2 \<Longrightarrow> unat lo < 128 \<Longrightarrow> drop_bit 7 (push_bit 7 hi OR (lo AND 0x7f)) = hi"
    unfolding l by (rule pack_hi) simp_all
  show "unat lo < 128 \<Longrightarrow> (push_bit 7 hi OR (lo AND 0x7f)) AND 0x7f = lo"
    using l pack_lo[of lo 7 hi] unfolding u8_masks by simp
qed

lemmas bcd_simp = bcd_roundtrip[simplified]
lemmas nibbles_simp = nibbles[simplified]

subsection \<open>Scalar operands\<close>

interpretation active_source: message_codec cec_msg_active_source cec_ops_active_source "\<lambda>_.
    True" CEC_MSG_ACTIVE_SOURCE
  by unfold_locales (auto simp: cec_msg_active_source_def cec_ops_active_source_def codec_simps)

interpretation inactive_source: message_codec cec_msg_inactive_source cec_ops_inactive_source
    "\<lambda>_. True" CEC_MSG_INACTIVE_SOURCE
  by unfold_locales (auto simp: cec_msg_inactive_source_def cec_ops_inactive_source_def codec_simps)

interpretation routing_information: message_codec cec_msg_routing_information
    cec_ops_routing_information "\<lambda>_. True" CEC_MSG_ROUTING_INFORMATION
  by unfold_locales (auto simp: cec_msg_routing_information_def cec_ops_routing_information_def codec_simps)

interpretation routing_change: message_codec "\<lambda>(orig_phys_addr, new_phys_addr).
    cec_msg_routing_change reply orig_phys_addr new_phys_addr" cec_ops_routing_change "\<lambda>_.
    True" CEC_MSG_ROUTING_CHANGE for reply
  by unfold_locales (auto simp: cec_msg_routing_change_def cec_ops_routing_change_def codec_simps)

interpretation set_stream_path: message_codec cec_msg_set_stream_path cec_ops_set_stream_path
    "\<lambda>_. True" CEC_MSG_SET_STREAM_PATH
  by unfold_locales (auto simp: cec_msg_set_stream_path_def cec_ops_set_stream_path_def codec_simps)

interpretation record_status: message_codec cec_msg_record_status cec_ops_record_status "\<lambda>_.
    True" CEC_MSG_RECORD_STATUS
  by unfold_locales (auto simp: cec_msg_record_status_def cec_ops_record_status_def codec_simps)

interpretation timer_cleared_status: message_codec cec_msg_timer_cleared_status
    cec_ops_timer_cleared_status "\<lambda>_. True" CEC_MSG_TIMER_CLEARED_STATUS
  by unfold_locales (auto simp: cec_msg_timer_cleared_status_def cec_ops_timer_cleared_status_def codec_simps)

interpretation clear_analogue_timer: message_codec "\<lambda>(day, month, start_hr, start_min,
    duration_hr, duration_min, recording_seq, ana_bcast_type, ana_freq, bcast_system).
    cec_msg_clear_analogue_timer reply day month start_hr start_min duration_hr duration_min
    recording_seq ana_bcast_type ana_freq bcast_system" cec_ops_clear_analogue_timer "\<lambda>(_,
    _, start_hr, start_min, duration_hr, duration_min, _). clock_ok start_hr start_min duration_hr
    duration_min" CEC_MSG_CLEAR_ANALOGUE_TIMER for reply
  by unfold_locales (auto simp: cec_msg_clear_analogue_timer_def cec_ops_clear_analogue_timer_def codec_simps bcd_simp clock_ok_def)

interpretation clear_ext_timer: message_codec "\<lambda>(day, month, start_hr, start_min,
    duration_hr, duration_min, recording_seq, ext_src_spec, plug, phys_addr).
    cec_msg_clear_ext_timer reply day month start_hr start_min duration_hr duration_min
    recording_seq ext_src_spec plug phys_addr" cec_ops_clear_ext_timer "\<lambda>(_, _, start_hr,
    start_min, duration_hr, duration_min, _). clock_ok start_hr start_min duration_hr duration_min"
    CEC_MSG_CLEAR_EXT_TIMER for reply
  by unfold_locales (auto simp: cec_msg_clear_ext_timer_def cec_ops_clear_ext_timer_def codec_simps bcd_simp clock_ok_def)

interpretation set_analogue_timer: message_codec "\<lambda>(day, month, start_hr, start_min,
    duration_hr, duration_min, recording_seq, ana_bcast_type, ana_freq, bcast_system).
    cec_msg_set_analogue_timer reply day month start_hr start_min duration_hr duration_min
    recording_seq ana_bcast_type ana_freq bcast_system" cec_ops_set_analogue_timer "\<lambda>(_, _,
    start_hr, start_min, duration_hr, duration_min, _). clock_ok start_hr start_min duration_hr
    duration_min" CEC_MSG_SET_ANALOGUE_TIMER for reply
  by unfold_locales (auto simp: cec_msg_set_analogue_timer_def cec_ops_set_analogue_timer_def codec_simps bcd_simp clock_ok_def)

interpretation set_ext_timer: message_codec "\<lambda>(day, month, start_hr, start_min, duration_hr,
    duration_min, recording_seq, ext_src_spec, plug, phys_addr). cec_msg_set_ext_timer reply day
    month start_hr start_min duration_hr duration_min recording_seq ext_src_spec plug phys_addr"
    cec_ops_set_ext_timer "\<lambda>(_, _, start_hr, start_min, duration_hr, duration_min, _).
    clock_ok start_hr start_min duration_hr duration_min" CEC_MSG_SET_EXT_TIMER for reply
  by unfold_locales (auto simp: cec_msg_set_ext_timer_def cec_ops_set_ext_timer_def codec_simps bcd_simp clock_ok_def)

interpretation cec_version: message_codec cec_msg_cec_version cec_ops_cec_version "\<lambda>_. True"
    CEC_MSG_CEC_VERSION
  by unfold_locales (auto simp: cec_msg_cec_version_def cec_ops_cec_version_def codec_simps)

interpretation report_physical_addr: message_codec "\<lambda>(phys_addr, prim_devtype).
    cec_msg_report_physical_addr phys_addr prim_devtype" cec_ops_report_physical_addr "\<lambda>_.
    True" CEC_MSG_REPORT_PHYSICAL_ADDR
  by unfold_locales (auto simp: cec_msg_report_physical_addr_def cec_ops_report_physical_addr_def codec_simps)

interpretation deck_control: message_codec cec_msg_deck_control cec_ops_deck_control "\<lambda>_.
    True" CEC_MSG_DECK_CONTROL
  by unfold_locales (auto simp: cec_msg_deck_control_def cec_ops_deck_control_def codec_simps)

interpretation deck_status: message_codec cec_msg_deck_status cec_ops_deck_status "\<lambda>_. True"
    CEC_MSG_DECK_STATUS
  by unfold_locales (auto simp: cec_msg_deck_status_def cec_ops_deck_status_def codec_simps)

interpretation give_deck_status: message_codec "cec_msg_give_deck_status reply"
    cec_ops_give_deck_status "\<lambda>_. True" CEC_MSG_GIVE_DECK_STATUS for reply
  by unfold_locales (auto simp: cec_msg_give_deck_status_def cec_ops_give_deck_status_def codec_simps)

interpretation play: message_codec cec_msg_play cec_ops_play "\<lambda>_. True" CEC_MSG_PLAY
  by unfold_locales (auto simp: cec_msg_play_def cec_ops_play_def codec_simps)

interpretation give_tuner_device_status: message_codec "cec_msg_give_tuner_device_status reply"
    cec_ops_give_tuner_device_status "\<lambda>_. True" CEC_MSG_GIVE_TUNER_DEVICE_STATUS for reply
  by unfold_locales (auto simp: cec_msg_give_tuner_device_status_def cec_ops_give_tuner_device_status_def codec_simps)

interpretation select_analogue_service: message_codec "\<lambda>(ana_bcast_type, ana_freq,
    bcast_system). cec_msg_select_analogue_service ana_bcast_type ana_freq bcast_system"
    cec_ops_select_analogue_service "\<lambda>_. True" CEC_MSG_SELECT_ANALOGUE_SERVICE
  by unfold_locales (auto simp: cec_msg_select_analogue_service_def cec_ops_select_analogue_service_def codec_simps)

interpretation device_vendor_id: message_codec cec_msg_device_vendor_id cec_ops_device_vendor_id
    "\<lambda>vendor_id. unat vendor_id < 2 ^ 24" CEC_MSG_DEVICE_VENDOR_ID
  by unfold_locales (auto simp: cec_msg_device_vendor_id_def cec_ops_device_vendor_id_def codec_simps u24_from_bytes)

interpretation menu_status: message_codec cec_msg_menu_status cec_ops_menu_status "\<lambda>_. True"
    CEC_MSG_MENU_STATUS
  by unfold_locales (auto simp: cec_msg_menu_status_def cec_ops_menu_status_def codec_simps)

interpretation menu_request: message_codec "cec_msg_menu_request reply" cec_ops_menu_request
    "\<lambda>_. True" CEC_MSG_MENU_REQUEST for reply
  by unfold_locales (auto simp: cec_msg_menu_request_def cec_ops_menu_request_def codec_simps)

interpretation report_power_status: message_codec cec_msg_report_power_status
    cec_ops_report_power_status "\<lambda>_. True" CEC_MSG_REPORT_POWER_STATUS
  by unfold_locales (auto simp: cec_msg_report_power_status_def cec_ops_report_power_status_def codec_simps)

interpretation feature_abort: message_codec "\<lambda>(abort_msg, reason). cec_msg_feature_abort
    abort_msg reason" cec_ops_feature_abort "\<lambda>_. True" CEC_MSG_FEATURE_ABORT
  by unfold_locales (auto simp: cec_msg_feature_abort_def cec_ops_feature_abort_def codec_simps)

interpretation report_audio_status: message_codec "\<lambda>(aud_mute_status, aud_vol_status).
    cec_msg_report_audio_status aud_mute_status aud_vol_status" cec_ops_report_audio_status
    "\<lambda>(aud_mute_status, aud_vol_status). unat aud_mute_status < 2 \<and> unat aud_vol_status
    < 128" CEC_MSG_REPORT_AUDIO_STATUS
  by unfold_locales (auto simp: cec_msg_report_audio_status_def cec_ops_report_audio_status_def codec_simps nibbles_simp)

interpretation set_system_audio_mode: message_codec cec_msg_set_system_audio_mode
    cec_ops_set_system_audio_mode "\<lambda>_. True" CEC_MSG_SET_SYSTEM_AUDIO_MODE
  by unfold_locales (auto simp: cec_msg_set_system_audio_mode_def cec_ops_set_system_audio_mode_def codec_simps)

interpretation system_audio_mode_status: message_codec cec_msg_system_audio_mode_status
    cec_ops_system_audio_mode_status "\<lambda>_. True" CEC_MSG_SYSTEM_AUDIO_MODE_STATUS
  by unfold_locales (auto simp: cec_msg_system_audio_mode_status_def cec_ops_system_audio_mode_status_def codec_simps)

interpretation set_audio_rate: message_codec cec_msg_set_audio_rate cec_ops_set_audio_rate
    "\<lambda>_. True" CEC_MSG_SET_AUDIO_RATE
  by unfold_locales (auto simp: cec_msg_set_audio_rate_def cec_ops_set_audio_rate_def codec_simps)

interpretation request_current_latency: message_codec "cec_msg_request_current_latency reply"
    cec_ops_request_current_latency "\<lambda>_. True" CEC_MSG_REQUEST_CURRENT_LATENCY for reply
  by unfold_locales (auto simp: cec_msg_request_current_latency_def cec_ops_request_current_latency_def codec_simps)

interpretation cdc_hec_inquire_state: message_codec "\<lambda>(phys_addr1, phys_addr2).
    cec_msg_cdc_hec_inquire_state phys_addr1 phys_addr2" "\<lambda>m. snd
    (cec_ops_cdc_hec_inquire_state m)" "\<lambda>_. True" CEC_MSG_CDC_MESSAGE
  by unfold_locales (auto simp: cec_msg_cdc_hec_inquire_state_def cec_ops_cdc_hec_inquire_state_def codec_simps)

interpretation cdc_hec_set_state_adjacent: message_codec "\<lambda>(phys_addr1, hec_set_state).
    cec_msg_cdc_hec_set_state_adjacent phys_addr1 hec_set_state" "\<lambda>m. snd
    (cec_ops_cdc_hec_set_state_adjacent m)" "\<lambda>_. True" CEC_MSG_CDC_MESSAGE
  by unfold_locales (auto simp: cec_msg_cdc_hec_set_state_adjacent_def cec_ops_cdc_hec_set_state_adjacent_def codec_simps)

interpretation cdc_hec_request_deactivation: message_codec "\<lambda>(phys_addr1, phys_addr2,
    phys_addr3). cec_msg_cdc_hec_request_deactivation phys_addr1 phys_addr2 phys_addr3" "\<lambda>m.
    snd (cec_ops_cdc_hec_request_deactivation m)" "\<lambda>_. True" CEC_MSG_CDC_MESSAGE
  by unfold_locales (auto simp: cec_msg_cdc_hec_request_deactivation_def cec_ops_cdc_hec_request_deactivation_def codec_simps)

interpretation cdc_hpd_set_state: message_codec "\<lambda>(input_port, hpd_state).
    cec_msg_cdc_hpd_set_state input_port hpd_state" "\<lambda>m. snd (cec_ops_cdc_hpd_set_state m)"
    "\<lambda>(input_port, hpd_state). unat input_port < 16 \<and> unat hpd_state < 16"
    CEC_MSG_CDC_MESSAGE
  by unfold_locales (auto simp: cec_msg_cdc_hpd_set_state_def cec_ops_cdc_hpd_set_state_def codec_simps nibbles_simp)

interpretation cdc_hpd_report_state: message_codec "\<lambda>(hpd_state, hpd_error).
    cec_msg_cdc_hpd_report_state hpd_state hpd_error" "\<lambda>m. snd (cec_ops_cdc_hpd_report_state
    m)" "\<lambda>(hpd_state, hpd_error). unat hpd_state < 16 \<and> unat hpd_error < 16"
    CEC_MSG_CDC_MESSAGE
  by unfold_locales (auto simp: cec_msg_cdc_hpd_report_state_def cec_ops_cdc_hpd_report_state_def codec_simps nibbles_simp)

text \<open>The round trips of the interpretations, with the operands written out.\<close>

lemmas codec_roundtrips =
  active_source.roundtrip[simplified]
  inactive_source.roundtrip[simplified]
  routing_information.roundtrip[simplified]
  routing_change.roundtrip[where a = "(a, b)" for a b, simplified]
  set_stream_path.roundtrip[simplified]
  record_status.roundtrip[simplified]
  timer_cleared_status.roundtrip[simplified]
  clear_analogue_timer.roundtrip[where a = "(a, b, c, d, e, f, g, h, i, j)" for a b c d e f g h i j, simplified]
  clear_ext_timer.roundtrip[where a = "(a, b, c, d, e, f, g, h, i, j)" for a b c d e f g h i j, simplified]
  set_analogue_timer.roundtrip[where a = "(a, b, c, d, e, f, g, h, i, j)" for a b c d e f g h i j, simplified]
  set_ext_timer.roundtrip[where a = "(a, b, c, d, e, f, g, h, i, j)" for a b c d e f g h i j, simplified]
  cec_version.roundtrip[simplified]
  report_physical_addr.roundtrip[where a = "(a, b)" for a b, simplified]
  deck_control.roundtrip[simplified]
  deck_status.roundtrip[simplified]
  give_deck_status.roundtrip[simplified]
  play.roundtrip[simplified]
  give_tuner_device_status.roundtrip[simplified]
  select_analogue_service.roundtrip[where a = "(a, b, c)" for a b c, simplified]
  device_vendor_id.roundtrip
  menu_status.roundtrip[simplified]
  menu_request.roundtrip[simplified]
  report_power_status.roundtrip[simplified]
  feature_abort.roundtrip[where a = "(a, b)" for a b, simplified]
  report_audio_status.roundtrip[where a = "(a, b)" for a b, simplified]
  set_system_audio_mode.roundtrip[simplified]
  system_audio_mode_status.roundtrip[simplified]
  set_audio_rate.roundtrip[simplified]
  request_current_latency.roundtrip[simplified]
  cdc_hec_inquire_state.roundtrip[where a = "(a, b)" for a b, simplified]
  cdc_hec_set_state_adjacent.roundtrip[where a = "(a, b)" for a b, simplified]
  cdc_hec_request_deactivation.roundtrip[where a = "(a, b, c)" for a b c, simplified]
  cdc_hpd_set_state.roundtrip[where a = "(a, b)" for a b, simplified]
  cdc_hpd_report_state.roundtrip[where a = "(a, b)" for a b, simplified]

text \<open>
  C29: for every message with scalar operands that are stored whole, decoding an encoded message
  gives back the operands, whatever the message structure held before.
\<close>

theorem cec_operand_roundtrips:
  assumes "cec_wf m"
  shows "cec_ops_active_source (cec_msg_active_source phys_addr m) = phys_addr \<and>
    cec_ops_inactive_source (cec_msg_inactive_source phys_addr m) = phys_addr \<and>
    cec_ops_routing_information (cec_msg_routing_information phys_addr m) = phys_addr \<and>
    cec_ops_routing_change (cec_msg_routing_change reply orig_phys_addr new_phys_addr m) =
      (orig_phys_addr, new_phys_addr) \<and>
    cec_ops_set_stream_path (cec_msg_set_stream_path phys_addr m) = phys_addr \<and>
    cec_ops_record_status (cec_msg_record_status rec_status m) = rec_status \<and>
    cec_ops_timer_cleared_status (cec_msg_timer_cleared_status timer_cleared_status m) =
      timer_cleared_status \<and>
    cec_ops_cec_version (cec_msg_cec_version cec_version m) = cec_version \<and>
    cec_ops_report_physical_addr (cec_msg_report_physical_addr phys_addr prim_devtype m) =
      (phys_addr, prim_devtype) \<and>
    cec_ops_deck_control (cec_msg_deck_control deck_control_mode m) = deck_control_mode \<and>
    cec_ops_deck_status (cec_msg_deck_status deck_info m) = deck_info \<and>
    cec_ops_give_deck_status (cec_msg_give_deck_status reply status_req m) = status_req \<and>
    cec_ops_play (cec_msg_play play_mode m) = play_mode \<and>
    cec_ops_give_tuner_device_status (cec_msg_give_tuner_device_status reply status_req m) =
      status_req \<and>
    cec_ops_select_analogue_service (cec_msg_select_analogue_service ana_bcast_type ana_freq
      bcast_system m) = (ana_bcast_type, ana_freq, bcast_system) \<and>
    cec_ops_menu_status (cec_msg_menu_status menu_state m) = menu_state \<and>
    cec_ops_menu_request (cec_msg_menu_request reply menu_req m) = menu_req \<and>
    cec_ops_report_power_status (cec_msg_report_power_status pwr_state m) = pwr_state \<and>
    cec_ops_feature_abort (cec_msg_feature_abort abort_msg reason m) = (abort_msg, reason) \<and>
    cec_ops_set_system_audio_mode (cec_msg_set_system_audio_mode sys_aud_status m) = sys_aud_status \<and>
    cec_ops_system_audio_mode_status (cec_msg_system_audio_mode_status sys_aud_status m) =
      sys_aud_status \<and>
    cec_ops_set_audio_rate (cec_msg_set_audio_rate audio_rate m) = audio_rate \<and>
    cec_ops_request_current_latency (cec_msg_request_current_latency reply phys_addr m) = phys_addr \<and>
    snd (cec_ops_cdc_hec_inquire_state (cec_msg_cdc_hec_inquire_state phys_addr1 phys_addr2 m)) =
      (phys_addr1, phys_addr2) \<and>
    snd (cec_ops_cdc_hec_set_state_adjacent (cec_msg_cdc_hec_set_state_adjacent phys_addr1
      hec_set_state m)) = (phys_addr1, hec_set_state) \<and>
    snd (cec_ops_cdc_hec_request_deactivation (cec_msg_cdc_hec_request_deactivation phys_addr1
      phys_addr2 phys_addr3 m)) = (phys_addr1, phys_addr2, phys_addr3)"
  using assms by (simp add: codec_roundtrips)

text \<open>
  The four timer messages keep days, months, hours and minutes, which are stored as two decimal
  digits, and all other operands, for every hour and minute below 100.
\<close>

theorem cec_timer_roundtrips:
  assumes "cec_wf m" "clock_ok start_hr start_min duration_hr duration_min"
  shows "cec_ops_clear_analogue_timer (cec_msg_clear_analogue_timer reply day month start_hr start_min
      duration_hr duration_min recording_seq ana_bcast_type ana_freq bcast_system m) = (day,
      month, start_hr, start_min, duration_hr, duration_min, recording_seq, ana_bcast_type,
      ana_freq, bcast_system) \<and>
    cec_ops_clear_ext_timer (cec_msg_clear_ext_timer reply day month start_hr start_min duration_hr
      duration_min recording_seq ext_src_spec plug phys_addr m) = (day, month, start_hr,
      start_min, duration_hr, duration_min, recording_seq, ext_src_spec, plug, phys_addr) \<and>
    cec_ops_set_analogue_timer (cec_msg_set_analogue_timer reply day month start_hr start_min
      duration_hr duration_min recording_seq ana_bcast_type ana_freq bcast_system m) = (day,
      month, start_hr, start_min, duration_hr, duration_min, recording_seq, ana_bcast_type,
      ana_freq, bcast_system) \<and>
    cec_ops_set_ext_timer (cec_msg_set_ext_timer reply day month start_hr start_min duration_hr
      duration_min recording_seq ext_src_spec plug phys_addr m) = (day, month, start_hr,
      start_min, duration_hr, duration_min, recording_seq, ext_src_spec, plug, phys_addr)"
  using assms by (simp add: codec_roundtrips)

end
