(* ===== verification/Cec_Witnesses.thy ===== *)
theory Cec_Witnesses
  imports Cec_Structured
begin

text \<open>
  Instances of the properties of the CEC messages, on a message from a playback device to the
  television.
\<close>

lemma init_wf: "cec_wf (cec_msg_init 4 0)"
  by (simp add: cec_wf_def cec_msg_init_def CEC_MAX_MSG_SIZE_def)

theorem cec_operand_roundtrips_witness:
  "cec_ops_active_source (cec_msg_active_source 0x1000 (cec_msg_init 4 0)) = 0x1000 \<and>
   cec_ops_routing_change (cec_msg_routing_change 0 0x1000 0x2100 (cec_msg_init 4 0)) = (0x1000, 0x2100)"
  using cec_operand_roundtrips[OF init_wf, where phys_addr = "0x1000" and reply = 0 and orig_phys_addr = "0x1000"
      and new_phys_addr = "0x2100"]
  by simp

theorem cec_timer_roundtrips_witness:
  "cec_ops_set_ext_timer (cec_msg_set_ext_timer 1 24 12 20 15 1 45 0 4 1 0x1000 (cec_msg_init 4 0)) =
     (24, 12, 20, 15, 1, 45, 0, 4, 1, 0x1000)"
  using cec_timer_roundtrips[OF init_wf, where start_hr = 20 and start_min = 15 and duration_hr = 1
      and duration_min = 45 and reply = 1 and day = 24 and month = 12 and recording_seq = 0 and ext_src_spec = 4
      and plug = 1 and phys_addr = "0x1000"]
  by (simp add: clock_ok_def)

theorem cec_string_roundtrips_witness:
  "cec_ops_set_osd_name (cec_msg_set_osd_name [80, 66] (cec_msg_init 4 0)) = [80, 66, 0] \<and>
   cec_ops_set_osd_string (cec_msg_set_osd_string 0 (replicate 20 65) (cec_msg_init 4 0)) = (0, replicate 13 65 @ [0])"
  using cec_string_roundtrips[OF init_wf, of "[80, 66]" 0] cec_string_roundtrips[OF init_wf, of "replicate 20 65" 0]
  by simp


definition channel :: "u16 \<Rightarrow> digital_service_id" where
  "channel maj = \<lparr>service_id_method = 1, dig_bcast_system = 1, sw0 = 2, sw1 = maj, sw2 = 7\<rparr>"

theorem digital_service_roundtrip_witness:
  "channel_major (cec_get_digital_service_id 3 (cec_set_digital_service_id 3 (channel 12) (cec_msg_init 4 0)) (channel 0)) = 12 \<and>
   channel_major (cec_get_digital_service_id 3 (cec_set_digital_service_id 3 (channel 256) (cec_msg_init 4 0)) (channel 0)) \<noteq> 256"
  using digital_service_roundtrip[OF init_wf, where off = 3 and d = "channel 12" and ?d0.0 = "channel 0"]
    digital_service_roundtrip[OF init_wf, where off = 3 and d = "channel 256" and ?d0.0 = "channel 0"]
  by (simp add: channel_def channel_number_fmt_def)

theorem hec_messages_confused_witness:
  "(\<exists>pa hf fld. cec_ops_cdc_hec_report_state (cec_msg_cdc_hec_report_state 0x1000 1 2 3 0 0 0 (cec_msg_init 4 0)) =
     (pa, 0x1000, 1, 2, 2, 0, hf, fld)) \<and>
   getb (cec_msg_cdc_hec_set_state 0x1000 0x2000 1 0 0 0 (cec_msg_init 4 0)) 4 = CEC_MSG_CDC_HEC_INQUIRE_STATE"
  using hec_messages_confused[OF init_wf, where hec = 1 and host = 2 and encs = 3 and err = 0 and t = "0x1000"
      and f = 0 and v = 0 and ?p1.0 = "0x1000" and ?p2.0 = "0x2000" and st = 1 and ?p3.0 = 0 and ?p4.0 = 0 and ?p5.0 = 0]
  by simp

end
