(* ===== verification/Spec2Isabelle.thy ===== *)
theory Spec2Isabelle
  imports System_Witnesses Server_Witnesses Tool_Witnesses Record_Witnesses Inline_Functions Finder Queue_Scripts Cec_Witnesses
begin

text \<open>
  A verification of the AESD character driver, its socket server and the example programs.

  \<^bold>\<open>The program.\<close> \<open>aesd-char-driver/\<close> is a Linux character device that collects the bytes written
  to it into newline-terminated commands and keeps the last ten of them in a ring;
  \<open>server/aesdsocket.c\<close> accepts TCP clients, writes what they send to the device in one thread per
  client and sends the stored commands back; scripts load the driver and start the server;
  \<open>examples/\<close> and \<open>finder-app/\<close> have small programs and scripts on processes, threads and files. The
  programs are built on the headers under \<open>finder-app/libc/usr/include\<close>, of which many parts with code
  are modelled as well.

  \<^bold>\<open>Foundations.\<close> \<open>C_Prelude\<close> has the machine types, the faults and the result type
  \<open>cfault + 'a\<close>: an out-of-bounds access, a null dereference, a bad free or unlock, a read of
  uninitialised memory or a deadlock is a value, never assumed away. \<open>Kernel_Heap\<close> is the kernel's
  memory with typed blocks and the laws of \<open>kmalloc\<close> and \<open>krealloc\<close>, which are parameters;
  \<open>C_Strings\<close> has the string functions on buffers, with their bounds. A loop that may not end is a
  partial function to an option, where \<open>None\<close> is a run that never returns; there is no fuel.

  \<^bold>\<open>The driver.\<close> \<open>Circular_Buffer\<close> models \<open>aesd-circular-buffer.c\<close> function by function, with the
  ring on arrays of ten and 8-bit offsets; \<open>Ring_Contents\<close> adds the heap and shows that the ring is
  a history of the last ten commands, that the position search is correct and ends, and what
  \<open>add_entry\<close> leaks. \<open>Ioctl_Encoding\<close> has the macros of \<open>asm-generic/ioctl.h\<close>. \<open>Aesd_Driver\<close> models
  every file operation of \<open>main.c\<close>, loading and unloading. \<open>Driver_Refinement\<close>, \<open>Driver_Read\<close> and
  \<open>Driver_Seek\<close> relate them to an abstract device (history, pending bytes, pending size);
  \<open>Driver_Traces\<close> composes them to runs and counts the blocks of memory a run leaves behind,
  \<open>Driver_Module\<close> treats loading and unloading, and \<open>Driver_Errors\<close> the branches where the kernel
  refuses a service. \<open>Driver_Scripts\<close> has \<open>aesdchar_load\<close>, \<open>aesdchar_unload\<close> and
  \<open>server/aesdsocket-start-stop\<close>. \<open>Driver_Witnesses\<close> has sample states and instances.

  \<^bold>\<open>The server.\<close> \<open>Socket_Server\<close> models the functions of a connection thread, the timestamp logger
  and the signal handler over a record of system calls. \<open>Server_Contract\<close> states what a thread needs
  of its data file as locales and proves the thread correct from them; \<open>Server_Device\<close> builds the
  system calls from the driver's handlers and interprets the locales on them, so that the theorems
  below hold for server and driver together. \<open>Server_Errors\<close> shows what fails. \<open>Server_Steps\<close> has the
  same thread as a step relation, one system call or mutex operation at a time, and shows that a
  thread left alone does what the sequential function does. \<open>Server_Concurrent\<close> and
  \<open>Server_Interleaving\<close> let any number of connections take steps in any order on one driver and one
  mutex: an invariant of all reachable states, termination under every schedule, and exactly which
  orders of chunks can reach the device; \<open>System_Witnesses\<close> has instances. \<open>Server_Main\<close> models \<open>main\<close>:
  signal handlers, start-up, daemon, timer, accept loop and exit path; \<open>Server_Threads\<close> has its runs,
  in which threads finish and signals arrive between any two iterations. \<open>Byte_Order\<close> and \<open>Inet_Address\<close> model the conversions of
  \<open>endian.h\<close>, \<open>bits/byteswap.h\<close>, \<open>linux/swab.h\<close>, \<open>linux/byteorder/little_endian.h\<close> and
  \<open>netinet/in.h\<close> and the logging of client addresses with \<open>flip_ip_addr\<close>.

  \<^bold>\<open>The examples.\<close> \<open>Wait_Status\<close> (the macros of \<open>bits/waitstatus.h\<close>), \<open>Systemcalls\<close>
  (\<open>do_system\<close>, \<open>do_exec\<close>, \<open>do_exec_redirect\<close>), \<open>Threading\<close> (\<open>threadfunc\<close>,
  \<open>start_thread_obtaining_mutex\<close> and the interleavings of threads on one mutex, with mutual exclusion
  and termination) and \<open>Writer\<close> (\<open>finder-app/writer.c\<close>, \<open>autotest-validate\<close> and the student's test).
  \<open>Finder\<close> models \<open>finder.sh\<close>, \<open>writer.sh\<close> and \<open>finder-test.sh\<close> on a file system of folders and files
  and shows that the test accepts finder and writer.

  \<^bold>\<open>Queues.\<close> \<open>Sys_Queue\<close> models the \<open>SLIST\<close> macros of \<open>sys/queue.h\<close>, which the server uses, on nodes at
  addresses. \<open>Queue_Chains\<close> has the slots and chains the other families share; \<open>Tail_Queues\<close> models
  \<open>STAILQ\<close> and \<open>SIMPLEQ\<close>, \<open>Linked_Queues\<close> and \<open>Linked_Queue_Laws\<close> \<open>LIST\<close> and \<open>TAILQ\<close>, \<open>Circle_Queues\<close>
  \<open>CIRCLEQ\<close>. Each family is an interpretation of a locale of list laws; \<open>Queue_Scripts\<close> runs sequences
  of operations on a tail queue, a circular queue and a list and compares them.

  \<^bold>\<open>Records in buffers.\<close> \<open>Record_Walks\<close> has loops over records of varying length and two contracts for
  them: one under which a loop over arbitrary bytes ends inside the buffer, one under which it returns
  the records that were laid out. \<open>Netlink\<close> (\<open>linux/netlink.h\<close>, \<open>linux/rtnetlink.h\<close>) and
  \<open>Control_Messages\<close> (\<open>bits/socket.h\<close>) keep both; \<open>Tipc_Config\<close> (\<open>linux/tipc_config.h\<close>) keeps only the
  second, and the ways in which it breaks the first are shown. \<open>Record_Witnesses\<close> has instances.

  \<^bold>\<open>Inline functions.\<close> \<open>Inline_Functions\<close> has \<open>bsearch\<close> (\<open>bits/stdlib-bsearch.h\<close>), which returns and is
  right on an ordered array, the device numbers of \<open>bits/sysmacros.h\<close> with their round trip, and the
  layout and the event test of \<open>linux/virtio_ring.h\<close>.

  \<^bold>\<open>CEC messages.\<close> \<open>Cec_Msg\<close> models the message structure and the functions of \<open>linux/cec.h\<close>;
  \<open>Cec_Record\<close>, \<open>Cec_Device\<close> and \<open>Cec_Audio\<close> all functions of \<open>linux/cec-funcs.h\<close> in its order.
  \<open>Cec_Codec\<close> is the contract of an encoder and its decoder, \<open>Cec_Roundtrip\<close> interprets it on
  thirty-four messages, and \<open>Cec_Structured\<close> has strings, variable lengths, service identifiers and
  the two Ethernet channel messages that do not match. A union is kept as the words it overlays.

  \<^bold>\<open>Bounds.\<close> Sizes and offsets have the widths of the C types; \<open>kmalloc\<close> serves requests below
  \<open>KMALLOC_MAX_SIZE\<close> (four megabytes), which bounds a pending command. The server theorem needs
  packets below the 1024 bytes of the server's buffer; beyond it the server faults, which is shown.
  The search is over fewer than $2^{63}$ elements, so that the sum of its bounds does not wrap.
  The loops over netlink buffers take a length of type \<open>int\<close>, so buffers are below $2^{31}$ bytes; item
  lists of TIPC are below $2^{16}$ bytes, because \<open>TLV_LIST_CHECK\<close> cuts the space to 16 bits.

  \<^bold>\<open>Conventions.\<close> Calls that only log are left out unless they read memory that may be invalid.
  Copying a string past a row of a two-dimensional array is a fault. A mutex records whether the
  modelled thread holds it, and locking it again is a deadlock; waiting for another thread is not a
  fault. The functions of \<open>Server_Main\<close> use \<open>USE_AESD_CHAR_DEVICE = 1\<close>, as the source does.

  \<^bold>\<open>Not modelled.\<close> The build and emulator scripts and the build files, which start other programs;
  the shell's splitting of words with blanks or pattern characters in the scripts; threads that are
  still running when \<open>main\<close> exits; headers that only declare types and constants, and macros of
  headers that nothing modelled uses (for example the tables of \<open>elf.h\<close> or the structures of \<open>linux/videodev2.h\<close>).
\<close>

section \<open>The server on the driver\<close>

text \<open>
  Clients served one after the other, each on its own descriptor with the chunks it sends: the
  bytes each of them got back and the final state.
\<close>

fun serve_clients ::
    "dworld os \<Rightarrow> read_env \<Rightarrow> write_env \<Rightarrow> (int \<times> string list) list \<Rightarrow> dworld \<Rightarrow>
     (string list \<times> dworld) res option" where
  "serve_clients libc renv wenv [] w = Some (Inr ([], w))"
| "serve_clients libc renv wenv ((skt, chunks) # clients) w =
     (case data_processor (dev_os libc renv wenv skt) \<lparr>connected_skt_fd = skt, thread_complete = 0\<rparr> False
         (w\<lparr>backlog := chunks, echoed := []\<rparr>) of
        None \<Rightarrow> None
      | Some (Inl e) \<Rightarrow> Some (Inl e)
      | Some (Inr (args, held, w)) \<Rightarrow>
          map_option (\<lambda>r. res_bind r (\<lambda>(replies, w'). Inr (echoed w # replies, w')))
            (serve_clients libc renv wenv clients w))"

text \<open>What a client is expected to get: the last ten commands, its own the newest.\<close>

definition expected_reply :: "string list \<Rightarrow> (int \<times> string list) list \<Rightarrow> nat \<Rightarrow> string" where
  "expected_reply history clients i =
     concat (keep_last 10 (history @ map (\<lambda>c. concat (snd c)) (take (Suc i) clients)))"

definition client_ok :: "int \<times> string list \<Rightarrow> bool" where
  "client_ok c \<longleftrightarrow> packet (snd c) \<and> length (concat (snd c)) < READ_WRITE_SIZE"

lemma keep_last_append: "keep_last n (keep_last n xs @ ys) = keep_last n (xs @ ys)"
proof (induction ys rule: rev_induct)
  case (snoc y ys)
  have "keep_last n (keep_last n xs @ ys @ [y]) = keep_last n (keep_last n (keep_last n xs @ ys) @ [y])"
    by (simp add: keep_last_keep_last_snoc)
  also have "\<dots> = keep_last n (xs @ ys @ [y])"
    unfolding snoc by (simp add: keep_last_keep_last_snoc)
  finally show ?case .
qed (simp add: keep_last_def)

lemma expected_reply_Cons:
  "map (expected_reply h ((s, c) # cs)) [0..<Suc (length cs)] =
   concat (keep_last 10 (h @ [concat c])) # map (expected_reply (keep_last 10 (h @ [concat c])) cs) [0..<length cs]"
  unfolding map_upt_Suc by (simp add: expected_reply_def keep_last_append)

lemma packet_chunks: "packet cs \<Longrightarrow> length cs \<le> length (concat cs)"
proof (induction cs)
  case (Cons c cs)
  then have "c \<noteq> []" by (simp add: packet_Cons ordinary_def)
  then have "1 \<le> length c" by (cases c) auto
  with Cons show ?case by (cases "newline \<in> set c") (auto simp: packet_Cons)
qed simp

lemma hist_length: "refines s d \<Longrightarrow> length (hist d) \<le> 10"
  by (erule refinesE) (auto simp: dev_core_def cb_mem_def cb_strings_def length_cb_list)

lemma client_answered:
  assumes "device_ready renv wenv" "refines (kern w) d" "short d" "pending d = []" "psize d = 0" "client_ok (skt, cs)"
  shows "\<exists>args w'. data_processor (dev_os libc renv wenv skt) \<lparr>connected_skt_fd = skt, thread_complete = 0\<rparr> False
      (w\<lparr>backlog := cs, echoed := []\<rparr>) = Some (Inr (args, False, w')) \<and>
    refines (kern w') (packet_stored d cs) \<and> short (packet_stored d cs) \<and>
    echoed w' = concat (hist (packet_stored d cs))"
proof -
  let ?w = "w\<lparr>backlog := cs, echoed := []\<rparr>" and ?args = "\<lparr>connected_skt_fd = skt, thread_complete = 0\<rparr>"
  have p: "packet cs" "length (concat cs) < READ_WRITE_SIZE" using assms(6) by (simp_all add: client_ok_def)
  have len: "length (pending d) + length (concat cs) < READ_WRITE_SIZE"
    "psize d + length (concat cs) + length cs < KMALLOC_MAX_SIZE"
    using p packet_chunks[OF p(1)] assms(4,5) by (simp_all add: READ_WRITE_SIZE_def KMALLOC_MAX_SIZE_def)
  have "refines (kern ?w) d" "connected_skt_fd ?args = skt" "backlog ?w = cs @ []" using assms(2) by simp_all
  from device_thread_answers[OF assms(1) this(1) assms(3) this(2,3) p(1) len, of libc]
  show ?thesis by auto
qed

lemma serve_clients_replies:
  "device_ready renv wenv \<Longrightarrow> refines (kern w) d \<Longrightarrow> short d \<Longrightarrow> pending d = [] \<Longrightarrow> psize d = 0 \<Longrightarrow>
   list_all client_ok clients \<Longrightarrow>
   \<exists>w'. serve_clients libc renv wenv clients w =
       Some (Inr (map (expected_reply (hist d) clients) [0..<length clients], w')) \<and>
     refines (kern w') (d\<lparr>hist := keep_last 10 (hist d @ map (\<lambda>c. concat (snd c)) clients)\<rparr>)"
proof (induction clients arbitrary: w d)
  case Nil
  then show ?case using hist_length[OF Nil(2)] by (simp add: keep_last_id)
next
  case (Cons c clients)
  obtain skt cs where c: "c = (skt, cs)" by (cases c)
  let ?d = "packet_stored d cs"
  obtain args w1 where w1: "data_processor (dev_os libc renv wenv skt) \<lparr>connected_skt_fd = skt, thread_complete = 0\<rparr> False
      (w\<lparr>backlog := cs, echoed := []\<rparr>) = Some (Inr (args, False, w1))"
    "refines (kern w1) ?d" "short ?d" "echoed w1 = concat (hist ?d)"
    using client_answered[of renv wenv w d skt cs libc] Cons.prems by (auto simp: c)
  have d: "hist ?d = keep_last 10 (hist d @ [concat cs])" "pending ?d = []" "psize ?d = 0"
    using Cons.prems(4) by (simp_all add: packet_stored_def)
  obtain w2 where "serve_clients libc renv wenv clients w1 =
      Some (Inr (map (expected_reply (hist ?d) clients) [0..<length clients], w2))"
    "refines (kern w2) (?d\<lparr>hist := keep_last 10 (hist ?d @ map (\<lambda>c. concat (snd c)) clients)\<rparr>)"
    using Cons.IH[OF Cons.prems(1) w1(2,3) d(2,3)] Cons.prems(6) by auto
  moreover have "?d\<lparr>hist := h\<rparr> = d\<lparr>hist := h\<rparr>" for h
    using Cons.prems(4,5) by (simp add: packet_stored_def)
  ultimately show ?case
    using w1(1,4) expected_reply_Cons[of "hist d" skt cs clients] by (simp add: c d keep_last_append)
qed

text \<open>
  C1: the server on the driver answers every client. Whatever ordinary packets of less than 1024
  bytes the clients send, each of them is stored through \<open>aesd_write\<close>, its thread returns, and the
  client gets back through \<open>aesd_read\<close> exactly the last ten commands stored so far, its own the
  newest; the mutex is released and the device is left representing the new history.
\<close>

theorem server_answers_clients:
  assumes "device_ready renv wenv" "refines (kern w) d" "short d" "pending d = []" "psize d = 0"
    "list_all client_ok clients"
  shows "\<exists>w'. serve_clients libc renv wenv clients w =
      Some (Inr (map (expected_reply (hist d) clients) [0..<length clients], w')) \<and>
    refines (kern w') (d\<lparr>hist := keep_last 10 (hist d @ map (\<lambda>c. concat (snd c)) clients)\<rparr>)"
  by (rule serve_clients_replies[OF assms])

definition sample_world :: dworld where
  "sample_world = \<lparr>kern = sample_state, dfile = sample_file 0, backlog = [], echoed = []\<rparr>"

theorem server_answers_clients_witness:
  "\<exists>w'. serve_clients idle_libc good_read (good_write []) [(8, [''he'', line ''llo'']), (9, [line ''x''])] sample_world =
      Some (Inr ([line ''ab'' @ line ''c'' @ line ''hello'', line ''ab'' @ line ''c'' @ line ''hello'' @ line ''x''], w')) \<and>
    refines (kern w') (sample_spec\<lparr>hist := [line ''ab'', line ''c'', line ''hello'', line ''x'']\<rparr>)"
proof -
  let ?cs = "[(8, [''he'', line ''llo'']), (9, [line ''x''])]"
  have c: "list_all client_ok ?cs"
    by (simp add: client_ok_def ordinary_def special_string_def READ_WRITE_SIZE_def line_def)
  have r: "map (expected_reply (hist sample_spec) ?cs) [0..<length ?cs] =
      [line ''ab'' @ line ''c'' @ line ''hello'', line ''ab'' @ line ''c'' @ line ''hello'' @ line ''x'']"
    "keep_last 10 (hist sample_spec @ map (\<lambda>c. concat (snd c)) ?cs) = [line ''ab'', line ''c'', line ''hello'', line ''x'']"
    by (simp_all add: expected_reply_def sample_spec_def line_def keep_last_def upt_rec)
  have "device_ready good_read (good_write [])" by (simp add: device_ready_def)
  from server_answers_clients[OF this _ _ _ _ c, of sample_world sample_spec idle_libc] r show ?thesis
    using sample_refines by (simp add: sample_world_def short_def sample_spec_def line_def READ_WRITE_SIZE_def)
qed

text \<open>
  C11: a stored command of 1024 or more bytes breaks the server. \<open>aesd_read\<close> ignores the count it
  is asked for and copies the whole command with a NUL, so the first \<open>read\<close> of
  \<open>read_file_and_send\<close> overruns the buffer of 1024 bytes.
\<close>

theorem long_command_overruns_server:
  assumes "device_ready renv wenv" "refines (kern w) d" "readable d" "private_data (dfile w) = TheDev"
    "f_pos (dfile w) = 0" "fd \<noteq> skt" "hist d = c # cs" "READ_WRITE_SIZE \<le> length c"
  shows "read_file_and_send (dev_os libc renv wenv skt) skt fd w = Some (Inl OutOfBounds)"
  by (rule long_command_overruns[OF assms])

definition long_line :: string where
  "long_line = replicate 1023 CHR ''x'' @ [newline]"

definition long_entry :: aesd_buffer_entry where
  "long_entry = \<lparr>buffptr = Ptr 3, esize = 1024\<rparr>"

definition long_ring :: aesd_circular_buffer where
  "long_ring = cb_push (aesd_circular_buffer_init \<lparr>entry = [], in_offs = 0, out_offs = 0, full = False\<rparr>) long_entry"

definition long_state :: kstate where
  "long_state = \<lparr>mem = \<lparr>chars = [3 \<mapsto> long_line @ [NUL]], ents = [2 \<mapsto> null_entry], cbufs = [1 \<mapsto> long_ring]\<rparr>,
     dev = zero_dev\<lparr>buffer := Ptr 1, buffer_entry := Ptr 2\<rparr>\<rparr>"

definition long_spec :: dev_spec where
  "long_spec = \<lparr>hist = [long_line], pending = [], psize = 0\<rparr>"

lemma long_line: "length long_line = 1024" "NUL \<notin> set long_line"
  by (simp_all add: long_line_def)

lemma long_line_text: "takeWhile (\<lambda>c. c \<noteq> NUL) (long_line @ [NUL]) = long_line"
  using long_line(2) by (subst takeWhile_append2) auto

lemma long_list: "cb_wf long_ring" "cb_list long_ring = [long_entry]"
  using ring.run_invar[OF cb_wf_init, of "[long_entry]"] ring.run_from_empty[of "[long_entry]"]
  by (simp_all add: long_ring_def long_entry_def keep_last_id)

lemma long_mem: "cb_mem (mem long_state) long_ring" "cb_strings (mem long_state) long_ring = [long_line]"
proof -
  have "entry_ok (mem long_state) long_entry"
    unfolding entry_ok_def
    by (rule exI[of _ 3], rule exI[of _ long_line], rule exI[of _ "[]"]) (simp add: long_state_def long_entry_def long_line)
  then show "cb_mem (mem long_state) long_ring" by (simp add: cb_mem_def long_list)
  show "cb_strings (mem long_state) long_ring = [long_line]"
    by (simp add: cb_strings_def long_list entry_string_def long_state_def long_entry_def long_line long_line_text)
qed

lemma long_refines: "refines long_state long_spec"
  using long_mem
  by (auto simp: refines_def dev_core_def long_state_def long_spec_def zero_dev_def finite_heap_def)

theorem long_command_overruns_witness:
  "read_file_and_send (dev_os idle_libc good_read (good_write []) 8) 8 9
     \<lparr>kern = long_state, dfile = sample_file 0, backlog = [], echoed = []\<rparr> = Some (Inl OutOfBounds)"
  by (rule long_command_overruns_server[where d = long_spec and c = long_line and cs = "[]"])
    (simp_all add: long_refines device_ready_def, simp_all add: long_spec_def readable_def long_line
      KMALLOC_MAX_SIZE_def READ_WRITE_SIZE_def)

section \<open>From loading the driver to answering clients\<close>

text \<open>
  C8: the whole system. After \<open>aesdchar_load\<close> has loaded the driver with success, up to ten clients
  that connect at the same time and whose packets fit are all served: in whatever order their threads
  run, the run ends, and when no thread can go on all of them have finished, every packet is on the
  device, and each client got the commands that were on the device at one moment after its own was
  stored.
\<close>

theorem loaded_system_serves:
  assumes "kmalloc_ok (i_kmalloc ienv)" "kmalloc_available (i_kmalloc ienv)" "finite_heap (mem (kst (d_module st)))"
    "\<not> sint (i_region ienv) < 0" "i_cdev_add ienv = 0" "\<not> d_loaded st" "l_local env \<or> l_modprobe env"
    "\<forall>g. l_chgrp env g" "device_ready renv wenv" "fits empty_device css" "list_all packet css" "length css \<le> 10"
  shows "\<exists>st1. aesdchar_load env ienv st = Inr (0, st1) \<and>
    (\<forall>log s. creach libc renv wenv (conc_start (kst (d_module st1)) css) log s \<longrightarrow>
       (\<forall>i. cstep libc renv wenv s i = None) \<longrightarrow>
       all_done s \<and> refines (c_kern s) (device_after empty_device log) \<and>
       (\<forall>i < length css. chunks_of i log = css ! i \<and>
          answered empty_device (css ! i) log i (c_out (c_conns s ! i)))) \<and>
    (\<forall>f. f 0 = conc_start (kst (d_module st1)) css \<longrightarrow>
       (\<exists>m. \<forall>i. cstep libc renv wenv (f m) i \<noteq> Some (Inr (f (Suc m)))))"
proof -
  obtain m where m: "aesdchar_load env ienv st =
      Inr (0, st\<lparr>d_module := m, d_loaded := True, d_node := Some \<lparr>n_major = l_major env, n_minor = 0,
        n_group = (if l_staff env then ''staff'' else ''wheel''), n_mode = ''664''\<rparr>\<rparr>)"
    "refines (kst m) empty_device"
    using aesdchar_load_ok[OF assms(1-8)] by blast
  have sh: "short empty_device" and room: "roomy empty_device css"
    using assms(12) by (simp_all add: short_def empty_device_def roomy_def)
  note start = start_ok[OF m(2) sh assms(11)]
  have "all_done s \<and> refines (c_kern s) (device_after empty_device log) \<and>
       (\<forall>i < length css. chunks_of i log = css ! i \<and> answered empty_device (css ! i) log i (c_out (c_conns s ! i)))"
    if r: "creach libc renv wenv (conc_start (kst m) css) log s" and stuck: "\<forall>i. cstep libc renv wenv s i = None" for log s
  proof -
    have ok: "conc_ok empty_device True css log s"
      using reach_ok[OF assms(9-11) _ r start] room by simp
    have fin: "all_done s \<and> (\<forall>i < length css. chunks_of i log = css ! i)"
      using stuck_done[OF assms(9-11) _ ok stuck] room by simp
    then have "c_pc (c_conns s ! i) = TDone True" if "i < length css" for i
      using ok that by (simp add: all_done_def list_all_length conc_ok_def)
    then show ?thesis using ok fin by (auto simp: conc_ok_def conn_ok_def conn_view_def)
  qed
  moreover have "\<exists>k. \<forall>i. cstep libc renv wenv (f k) i \<noteq> Some (Inr (f (Suc k)))" if "f 0 = conc_start (kst m) css" for f
    by (rule runs_end[OF assms(9-11) start]) (rule that)
  ultimately show ?thesis using m(1) by (intro exI conjI) (assumption | simp)+
qed

theorem loaded_system_serves_witness:
  "\<exists>st1. aesdchar_load plain_load good_init no_driver = Inr (0, st1) \<and>
    (\<forall>log s. creach idle_libc good_read (good_write []) (conc_start (kst (d_module st1)) two_clients) log s \<longrightarrow>
       (\<forall>i. cstep idle_libc good_read (good_write []) s i = None) \<longrightarrow> all_done s)"
proof -
  have "fits empty_device two_clients" "length two_clients \<le> 10"
    by (simp_all add: fits_def two_clients_def empty_device_def line_def READ_WRITE_SIZE_def KMALLOC_MAX_SIZE_def)
  then show ?thesis
    using loaded_system_serves[of good_init no_driver plain_load good_read "good_write []" two_clients idle_libc]
      sample_ready two_clients_packets by auto
qed

end
